(* ===== verification/F4_Prelude.thy ===== *)
theory F4_Prelude
  imports Complex_Main "HOL-Library.Word" "HOL-Library.AList" "HOL-Library.Multiset"
    "HOL-Library.Log_Nat" "HOL-Library.Code_Target_Numeral"
begin

text \<open>
  Shared ground of the F4MP development: names for the machine types, the character
  predicates of \<open>cctype\<close> in the C locale, decimal printing (\<open>std::to_string\<close> and
  the \<open>{}\<close> placeholder of \<open>fmt\<close>), the little-endian byte images of unsigned
  integers, and the two interfaces every stateful component rests on: a keyed
  container (\<open>std::unordered_map\<close>) and a machine with an invariant.
\<close>

unbundle bit_operations_syntax

named_theorems codec_simps \<open>how the byte writer and reader primitives act\<close>
named_theorems frame_simps \<open>what a step leaves untouched\<close>

section \<open>Machine types\<close>

type_synonym u8 = "8 word"
type_synonym u16 = "16 word"
type_synonym u32 = "32 word"
type_synonym u64 = "64 word"

section \<open>Bytes and characters\<close>

text \<open>
  A \<open>std::string\<close> is a sequence of 8-bit \<open>char\<close>; so is a HOL \<open>string\<close>.
  \<open>byte_of_char\<close> is \<open>static_cast<unsigned char>\<close>.
\<close>

definition byte_of_char :: "char \<Rightarrow> u8" where
  "byte_of_char c = word_of_nat (of_char c)"

definition char_of_byte :: "u8 \<Rightarrow> char" where
  "char_of_byte b = char_of (unat b)"

lemma char_of_byte_of_char [simp]: "char_of_byte (byte_of_char c) = c"
proof -
  have "of_char c < (256::nat)" by (rule nat_of_char_less_256)
  then have "unat (word_of_nat (of_char c) :: u8) = of_char c"
    by (simp add: unat_of_nat)
  then show ?thesis
    by (simp add: byte_of_char_def char_of_byte_def)
qed

lemma byte_of_char_of_byte [simp]: "byte_of_char (char_of_byte b) = b"
proof -
  have "unat b < 256" using unsigned_less [of b, where ?'a = nat] by simp
  then show ?thesis
    by (simp add: byte_of_char_def char_of_byte_def of_char_of)
qed

lemma map_char_of_byte_of_char [simp]: "map char_of_byte (map byte_of_char s) = s"
  by (simp add: comp_def)

text \<open>\<open>isspace\<close> and \<open>tolower\<close> of the C locale, on a byte.\<close>

definition isspace :: "char \<Rightarrow> bool" where
  "isspace c = (let n = (of_char c :: nat) in n = 32 \<or> 9 \<le> n \<and> n \<le> 13)"

definition tolower :: "char \<Rightarrow> char" where
  "tolower c = (let n = (of_char c :: nat) in if 65 \<le> n \<and> n \<le> 90 then char_of (n + 32) else c)"

definition isdigit :: "char \<Rightarrow> bool" where
  "isdigit c = (let n = (of_char c :: nat) in 48 \<le> n \<and> n \<le> 57)"

definition digit_value :: "char \<Rightarrow> nat" where
  "digit_value c = of_char c - 48"

lemma tolower_idem [simp]: "tolower (tolower c) = tolower c"
proof (cases "65 \<le> (of_char c :: nat) \<and> (of_char c :: nat) \<le> 90")
  case True
  then have "(of_char (char_of (of_char c + 32 :: nat) :: char) :: nat) = of_char c + 32"
    by (simp add: of_char_of)
  with True show ?thesis by (simp add: tolower_def Let_def)
qed (auto simp: tolower_def Let_def)

section \<open>Decimal printing\<close>

fun dec_digits :: "nat \<Rightarrow> string" where
  "dec_digits n =
     (if n < 10 then [char_of (48 + n)] else dec_digits (n div 10) @ [char_of (48 + n mod 10)])"

declare dec_digits.simps [simp del]

definition to_string :: "nat \<Rightarrow> string" where
  "to_string n = dec_digits n"

lemma isdigit_char [simp]: "n < 10 \<Longrightarrow> isdigit (char_of (48 + n :: nat))"
  by (simp add: isdigit_def of_char_of Let_def)

lemma digit_value_char [simp]: "n < 10 \<Longrightarrow> digit_value (char_of (48 + n :: nat)) = n"
  by (simp add: digit_value_def of_char_of)

lemma dec_digits_isdigit: "list_all isdigit (dec_digits n)"
proof (induction n rule: dec_digits.induct)
  case (1 n)
  show ?case
  proof (cases "n < 10")
    case True
    then show ?thesis by (subst dec_digits.simps) simp
  next
    case False
    moreover from False 1 have "list_all isdigit (dec_digits (n div 10))" by simp
    ultimately show ?thesis by (subst dec_digits.simps) simp
  qed
qed

lemma to_string_isdigit: "list_all isdigit (to_string n)"
  by (simp add: to_string_def dec_digits_isdigit)

lemma dec_digits_not_Nil [simp]: "dec_digits n \<noteq> []"
  by (subst dec_digits.simps) simp

lemma to_string_not_Nil [simp]: "to_string n \<noteq> []"
  by (simp add: to_string_def)

lemma dec_digits_length: "n < 10 ^ Suc k \<Longrightarrow> length (dec_digits n) \<le> Suc k"
proof (induction k arbitrary: n)
  case 0
  then show ?case by (subst dec_digits.simps) simp
next
  case (Suc k)
  show ?case
  proof (cases "n < 10")
    case True
    then show ?thesis by (subst dec_digits.simps) simp
  next
    case False
    from Suc.prems have "n div 10 < 10 ^ Suc k"
      by (simp add: less_mult_imp_div_less mult.commute)
    then have "length (dec_digits (n div 10)) \<le> Suc k" by (rule Suc.IH)
    with False show ?thesis by (subst dec_digits.simps) simp
  qed
qed

text \<open>A 32-bit number prints in at most ten digits.\<close>

lemma to_string_u32_length: "length (to_string (unat (w :: u32))) \<le> 10"
proof -
  have "unat w < 2 ^ 32" using unsigned_less [of w, where ?'a = nat] by simp
  then have "unat w < 10 ^ Suc 9" by simp
  then have "length (dec_digits (unat w)) \<le> Suc 9" by (rule dec_digits_length)
  then show ?thesis by (simp add: to_string_def)
qed

section \<open>Little-endian images\<close>

text \<open>
  What \<open>memcpy\<close> of an unsigned integer of \<open>n\<close> bytes yields on a little-endian host,
  least significant byte first, and what \<open>memcpy\<close> back into one makes of such bytes.
\<close>

primrec le_bytes :: "nat \<Rightarrow> nat \<Rightarrow> u8 list" where
  "le_bytes 0 v = []"
| "le_bytes (Suc n) v = word_of_nat v # le_bytes n (v div 256)"

primrec le_value :: "u8 list \<Rightarrow> nat" where
  "le_value [] = 0"
| "le_value (b # bs) = unat b + 256 * le_value bs"

lemma length_le_bytes [simp]: "length (le_bytes n v) = n"
  by (induction n arbitrary: v) simp_all

lemma unat_word8_of_nat: "unat (word_of_nat v :: u8) = v mod 256"
  by (simp add: unat_of_nat)

lemma le_value_le_bytes: "le_value (le_bytes n v) = v mod 256 ^ n"
proof (induction n arbitrary: v)
  case 0
  then show ?case by simp
next
  case (Suc n)
  have "v mod 256 ^ Suc n = v mod (256 * 256 ^ n)" by simp
  also have "\<dots> = 256 * (v div 256 mod 256 ^ n) + v mod 256"
    by (rule mod_mult2_eq)
  finally show ?case by (simp add: Suc unat_word8_of_nat)
qed

lemma le_value_less: "le_value bs < 256 ^ length bs"
proof (induction bs)
  case (Cons b bs)
  have "unat b < 256" using unsigned_less [of b, where ?'a = nat] by simp
  with Cons show ?case by simp
qed simp

lemma le_bytes_le_value: "le_bytes (length bs) (le_value bs) = bs"
proof (induction bs)
  case (Cons b bs)
  have b: "unat b < 256" using unsigned_less [of b, where ?'a = nat] by simp
  have "word_of_nat (unat b + 256 * le_value bs) = b"
    by (rule word_unat_eq_iff [THEN iffD2]) (simp only: unat_word8_of_nat mod_mult_self2 mod_less [OF b])
  moreover have "(unat b + 256 * le_value bs) div 256 = le_value bs"
    using b by simp
  ultimately show ?case by (simp only: list.size add_Suc_right add_0_right le_bytes.simps le_value.simps Cons)
qed simp

lemma le_value_append: "le_value (bs @ cs) = le_value bs + 256 ^ length bs * le_value cs"
  by (induction bs) (simp_all add: algebra_simps)

lemma le_value_zeros [simp]: "le_value (replicate n 0) = 0"
  by (induction n) simp_all

section \<open>Lists\<close>

lemma dropWhile_hd: "dropWhile p xs \<noteq> [] \<Longrightarrow> \<not> p (hd (dropWhile p xs))"
  by (rule hd_dropWhile)

lemma rev_dropWhile_rev_sublist: "set (rev (dropWhile p (rev xs))) \<subseteq> set xs"
  using set_dropWhileD by fastforce

lemma length_rev_dropWhile_rev: "length (rev (dropWhile p (rev xs))) \<le> length xs"
  using length_dropWhile_le [of p "rev xs"] by simp

text \<open>Stripping at the back keeps the front, as long as something is left.\<close>

lemma rev_dropWhile_rev_prefix:
  "\<exists>ys. xs = rev (dropWhile p (rev xs)) @ ys \<and> list_all p ys"
proof -
  have "rev xs = takeWhile p (rev xs) @ dropWhile p (rev xs)" by simp
  then have "xs = rev (dropWhile p (rev xs)) @ rev (takeWhile p (rev xs))"
    by (metis rev_append rev_rev_ident)
  moreover have "list_all p (rev (takeWhile p (rev xs)))"
    by (auto simp: list_all_iff dest: set_takeWhileD)
  ultimately show ?thesis by blast
qed

section \<open>Keyed containers\<close>

text \<open>
  The interface the components use of \<open>std::unordered_map\<close>: lookup by key, insertion
  or assignment, erasure, and iteration over the entries. The iteration order is
  unspecified in C++; the model fixes one order, and what is proved about a loop over a
  container is stated for the set of its entries or per entry.
\<close>

locale keyed_store =
  fixes empty_store :: "'m"
    and look :: "'m \<Rightarrow> 'k \<Rightarrow> 'v option"
    and put :: "'k \<Rightarrow> 'v \<Rightarrow> 'm \<Rightarrow> 'm"
    and drop_key :: "'k \<Rightarrow> 'm \<Rightarrow> 'm"
    and entries :: "'m \<Rightarrow> ('k \<times> 'v) list"
    and valid :: "'m \<Rightarrow> bool"
  assumes valid_empty: "valid empty_store"
    and entries_empty: "entries empty_store = []"
    and look_put: "look (put k v m) k' = (if k' = k then Some v else look m k')"
    and look_drop: "look (drop_key k m) k' = (if k' = k then None else look m k')"
    and valid_put: "valid m \<Longrightarrow> valid (put k v m)"
    and valid_drop: "valid m \<Longrightarrow> valid (drop_key k m)"
    and entries_look: "valid m \<Longrightarrow> (k, v) \<in> set (entries m) \<longleftrightarrow> look m k = Some v"
    and entries_distinct: "valid m \<Longrightarrow> distinct (map fst (entries m))"
begin

lemma entries_put:
  assumes "valid m"
  shows "set (entries (put k v m)) = insert (k, v) {e \<in> set (entries m). fst e \<noteq> k}"
proof -
  have "e \<in> set (entries (put k v m)) \<longleftrightarrow> e = (k, v) \<or> (e \<in> set (entries m) \<and> fst e \<noteq> k)" for e
    using assms by (cases e) (auto simp: entries_look valid_put look_put split: if_splits)
  then show ?thesis by blast
qed

lemma entries_drop:
  assumes "valid m"
  shows "set (entries (drop_key k m)) = {e \<in> set (entries m). fst e \<noteq> k}"
proof -
  have "e \<in> set (entries (drop_key k m)) \<longleftrightarrow> (e \<in> set (entries m) \<and> fst e \<noteq> k)" for e
    using assms by (cases e) (auto simp: entries_look valid_drop look_drop split: if_splits)
  then show ?thesis by blast
qed

lemma look_None_entries: "valid m \<Longrightarrow> look m k = None \<longleftrightarrow> k \<notin> fst ` set (entries m)"
proof -
  assume v: "valid m"
  have "k \<in> fst ` set (entries m) \<longleftrightarrow> (\<exists>v. (k, v) \<in> set (entries m))"
    by force
  also have "\<dots> \<longleftrightarrow> look m k \<noteq> None"
    by (simp add: entries_look [OF v])
  finally show ?thesis by blast
qed

lemma entries_all_put:
  assumes "valid m" and "\<forall>e \<in> set (entries m). P e" and "P (k, v)"
  shows "\<forall>e \<in> set (entries (put k v m)). P e"
  using assms by (auto simp: entries_put)

lemma entries_all_drop:
  assumes "valid m" and "\<forall>e \<in> set (entries m). P e"
  shows "\<forall>e \<in> set (entries (drop_key k m)). P e"
  using assms by (auto simp: entries_drop)

end

text \<open>
  The model's container is an association list with distinct keys:
  \<open>AList.update\<close> overwrites in place or appends, \<open>AList.delete\<close> erases.
\<close>

definition keys_distinct :: "('k \<times> 'v) list \<Rightarrow> bool" where
  "keys_distinct m = distinct (map fst m)"

interpretation alist: keyed_store "[]" map_of AList.update AList.delete "\<lambda>m. m" keys_distinct
proof unfold_locales
  show "keys_distinct (AList.update k v m)" if "keys_distinct m"
    for k :: 'a and v :: 'b and m
    using that unfolding keys_distinct_def by (rule distinct_update)
  show "keys_distinct (AList.delete k m)" if "keys_distinct m"
    for k :: 'a and m :: "('a \<times> 'b) list"
    using that unfolding keys_distinct_def by (rule distinct_delete)
qed (auto simp: keys_distinct_def update_conv' delete_conv')

section \<open>Machines with an invariant\<close>

text \<open>
  A component that reacts to a sequence of inputs: a step function, an invariant of the
  start state that every admitted input keeps. The client of the interface gets the
  invariant after any run of admitted inputs.
\<close>

locale invariant_machine =
  fixes step :: "'i \<Rightarrow> 's \<Rightarrow> 's"
    and admitted :: "'s \<Rightarrow> 'i \<Rightarrow> bool"
    and inv :: "'s \<Rightarrow> bool"
  assumes step_inv: "inv s \<Longrightarrow> admitted s i \<Longrightarrow> inv (step i s)"
begin

primrec run :: "'i list \<Rightarrow> 's \<Rightarrow> 's" where
  "run [] s = s"
| "run (i # is) s = run is (step i s)"

primrec admits :: "'i list \<Rightarrow> 's \<Rightarrow> bool" where
  "admits [] s = True"
| "admits (i # is) s = (admitted s i \<and> admits is (step i s))"

lemma run_inv: "inv s \<Longrightarrow> admits is s \<Longrightarrow> inv (run is s)"
  by (induction "is" arbitrary: s) (auto intro: step_inv)

lemma run_append: "run (is @ js) s = run js (run is s)"
  by (induction "is" arbitrary: s) simp_all

lemma admits_append: "admits (is @ js) s \<longleftrightarrow> admits is s \<and> admits js (run is s)"
  by (induction "is" arbitrary: s) auto

end

end
