(* ===== verification/F4_FloatFacts.thy ===== *)
theory F4_FloatFacts
  imports F4_Float
begin

text \<open>
  Facts about the floating-point model: rounding is a monotone function of the exact
  value, it gives back every representable value, the signed magnitude orders the values,
  and the C++ comparisons are a total preorder on what is not NaN. The generic part is
  stated once for any format and interpreted for binary32 and binary64.
\<close>

section \<open>Rounding to an integer, to even on a tie\<close>

definition rne :: "real \<Rightarrow> nat" where
  "rne y =
     (let m = nat \<lfloor>y\<rfloor>
      in if 1 / 2 < y - real m \<or> (y - real m = 1 / 2 \<and> odd m) then m + 1 else m)"

lemma half_less_div: "0 < d \<Longrightarrow> 1 / 2 < real r / real d \<longleftrightarrow> d < 2 * r"
proof -
  assume "0 < d"
  then have "1 / 2 < real r / real d \<longleftrightarrow> real d < 2 * real r" by (simp add: field_simps)
  then show ?thesis by linarith
qed

lemma half_eq_div: "0 < d \<Longrightarrow> real r / real d = 1 / 2 \<longleftrightarrow> d = 2 * r"
proof -
  assume "0 < d"
  then have "real r / real d = 1 / 2 \<longleftrightarrow> real d = 2 * real r" by (auto simp: field_simps)
  then show ?thesis by linarith
qed

lemma rne_div_rne:
  assumes "0 < d"
  shows "rne_div n d = rne (real n / real d)"
proof -
  have fl: "nat \<lfloor>real n / real d\<rfloor> = n div d"
    by (simp add: floor_divide_of_nat_eq)
  have "real n = real d * real (n div d) + real (n mod d)"
    by (metis mult_div_mod_eq of_nat_add of_nat_mult)
  then have "real n / real d - real (n div d) = real (n mod d) / real d"
    using assms by (simp add: field_simps)
  moreover have "1 / 2 < real (n mod d) / real d \<longleftrightarrow> d < 2 * (n mod d)"
    using assms half_less_div [of d "n mod d"] by simp
  moreover have "real (n mod d) / real d = 1 / 2 \<longleftrightarrow> d = 2 * (n mod d)"
    using assms half_eq_div [of d "n mod d"] by simp
  ultimately show ?thesis
    unfolding rne_def rne_div_def Let_def fl by presburger
qed

lemma rne_of_nat [simp]: "rne (real m) = m"
  by (simp add: rne_def)

lemma rne_mono:
  assumes "0 \<le> x" and "x \<le> y"
  shows "rne x \<le> rne y"
proof (cases "\<lfloor>x\<rfloor> = \<lfloor>y\<rfloor>")
  case True
  with assms show ?thesis by (auto simp: rne_def Let_def)
next
  case False
  have "\<lfloor>x\<rfloor> \<le> \<lfloor>y\<rfloor>" using assms by (simp add: floor_mono)
  with False have "\<lfloor>x\<rfloor> < \<lfloor>y\<rfloor>" by simp
  moreover have "0 \<le> \<lfloor>x\<rfloor>" using assms by simp
  ultimately have "nat \<lfloor>x\<rfloor> + 1 \<le> nat \<lfloor>y\<rfloor>" by linarith
  moreover have "rne x \<le> nat \<lfloor>x\<rfloor> + 1" and "nat \<lfloor>y\<rfloor> \<le> rne y"
    by (simp_all add: rne_def Let_def)
  ultimately show ?thesis by linarith
qed

lemma rne_le_nat: "0 \<le> x \<Longrightarrow> x \<le> real k \<Longrightarrow> rne x \<le> k"
  using rne_mono [of x "real k"] by simp

lemma rne_ge_nat: "real k \<le> x \<Longrightarrow> k \<le> rne x"
  using rne_mono [of "real k" x] by simp

section \<open>The leading exponent\<close>

lemma floorlog_real_bounds:
  assumes "0 < n"
  shows "2 powi (int (floorlog 2 n) - 1) \<le> real n" and "real n < 2 powi int (floorlog 2 n)"
proof -
  have b: "2 ^ (floorlog 2 n - 1) \<le> n \<and> n < 2 ^ floorlog 2 n"
    by (rule floorlog_bounds) (use assms in auto)
  have "floorlog 2 n \<noteq> 0"
    using assms by (simp add: floorlog_eq_zero_iff)
  then have e: "int (floorlog 2 n) - 1 = int (floorlog 2 n - 1)" by simp
  have "real (2 ^ (floorlog 2 n - 1)) \<le> real n"
    using b by (simp only: of_nat_le_iff)
  then show "2 powi (int (floorlog 2 n) - 1) \<le> real n"
    unfolding e power_int_of_nat by simp
  have "real n < real (2 ^ floorlog 2 n)"
    using b by (simp only: of_nat_less_iff)
  then show "real n < 2 powi int (floorlog 2 n)" by simp
qed

lemma powi_nat_neg: "\<not> 0 \<le> k \<Longrightarrow> 2 powi k = 1 / (2::real) ^ nat (- k)"
  by (simp add: power_int_def power_one_over inverse_eq_divide)

lemma powi_nat_pos: "0 \<le> k \<Longrightarrow> 2 powi k = (2::real) ^ nat k"
  by (simp add: power_int_def)

lemma scale_le_iff:
  assumes "0 < d"
  shows "(if 0 \<le> k then d * 2 ^ nat k \<le> n else d \<le> n * 2 ^ nat (- k)) \<longleftrightarrow>
    2 powi k \<le> real n / real d"
proof (cases "0 \<le> k")
  case True
  have "d * 2 ^ nat k \<le> n \<longleftrightarrow> real (d * 2 ^ nat k) \<le> real n"
    by (simp only: of_nat_le_iff)
  with True assms show ?thesis by (simp add: powi_nat_pos field_simps)
next
  case False
  have "d \<le> n * 2 ^ nat (- k) \<longleftrightarrow> real d \<le> real (n * 2 ^ nat (- k))"
    by (simp only: of_nat_le_iff)
  with False assms show ?thesis by (simp add: powi_nat_neg field_simps)
qed

lemma lead_exp_bounds:
  assumes n: "0 < n" and d: "0 < d"
  shows "2 powi lead_exp n d \<le> real n / real d" and "real n / real d < 2 powi (lead_exp n d + 1)"
proof -
  let ?k = "int (floorlog 2 n) - int (floorlog 2 d)"
  note bn = floorlog_real_bounds [OF n] and bd = floorlog_real_bounds [OF d]
  have hi: "real n / real d < 2 powi (?k + 1)"
  proof -
    have "real n / real d \<le> real n / 2 powi (int (floorlog 2 d) - 1)"
      using bd d n by (intro divide_left_mono) auto
    also have "\<dots> < 2 powi int (floorlog 2 n) / 2 powi (int (floorlog 2 d) - 1)"
      using bn by (intro divide_strict_right_mono) auto
    also have "\<dots> = 2 powi (int (floorlog 2 n) - (int (floorlog 2 d) - 1))"
      by (rule power_int_diff [symmetric]) simp
    also have "\<dots> = 2 powi (?k + 1)" by (simp add: algebra_simps)
    finally show ?thesis .
  qed
  have lo: "2 powi (?k - 1) \<le> real n / real d"
  proof -
    have "2 powi (?k - 1) = 2 powi (int (floorlog 2 n) - 1) / (2::real) powi int (floorlog 2 d)"
      by (subst power_int_diff [symmetric]) (simp_all add: algebra_simps)
    also have "\<dots> \<le> real n / 2 powi int (floorlog 2 d)"
      using bn by (intro divide_right_mono) auto
    also have "\<dots> \<le> real n / real d"
      using bd d n by (intro divide_left_mono) auto
    finally show ?thesis .
  qed
  show "2 powi lead_exp n d \<le> real n / real d"
    using lo scale_le_iff [OF d, of ?k n] by (simp add: lead_exp_def Let_def)
  show "real n / real d < 2 powi (lead_exp n d + 1)"
    using hi scale_le_iff [OF d, of ?k n] by (auto simp: lead_exp_def Let_def not_le)
qed

definition lexp :: "real \<Rightarrow> int" where
  "lexp x = \<lfloor>log 2 x\<rfloor>"

lemma two_powr: "2 powr real_of_int k = (2::real) powi k"
  by (rule powr_real_of_int') simp_all

lemma lexp_eqI:
  assumes "2 powi k \<le> x" and "x < 2 powi (k + 1)"
  shows "lexp x = k"
proof -
  have "0 < (2::real) powi k" by simp
  with assms have x: "0 < x" by linarith
  have "real_of_int k \<le> log 2 x"
    using assms x by (subst le_log_iff) (auto simp: powr_real_of_int')
  moreover have "log 2 x < real_of_int (k + 1)"
    using assms x two_powr [of "k + 1"] by (subst log_less_iff) simp_all
  ultimately show ?thesis by (simp add: lexp_def floor_eq_iff)
qed

lemma lexp_mono: "0 < x \<Longrightarrow> x \<le> y \<Longrightarrow> lexp x \<le> lexp y"
  by (simp add: lexp_def floor_mono)

lemma lexp_bounds:
  assumes "0 < x"
  shows "2 powi lexp x \<le> x" and "x < 2 powi (lexp x + 1)"
proof -
  have "real_of_int (lexp x) \<le> log 2 x" and "log 2 x < real_of_int (lexp x + 1)"
    by (simp_all add: lexp_def)
  then have "2 powr real_of_int (lexp x) \<le> x" and "x < 2 powr real_of_int (lexp x + 1)"
    using assms by (simp_all only: le_log_iff log_less_iff one_less_numeral_iff semiring_norm)
  then show "2 powi lexp x \<le> x" and "x < 2 powi (lexp x + 1)"
    unfolding two_powr by blast+
qed

lemma lead_exp_lexp: "0 < n \<Longrightarrow> 0 < d \<Longrightarrow> lead_exp n d = lexp (real n / real d)"
  by (rule lexp_eqI [symmetric]) (rule lead_exp_bounds; assumption)+

section \<open>Rounding as a function of the exact value\<close>

definition last_exp :: "fmt \<Rightarrow> real \<Rightarrow> int" where
  "last_exp f x = max (lexp x - int (prec f) + 1) (qmin f)"

definition rmag :: "fmt \<Rightarrow> real \<Rightarrow> nat" where
  "rmag f x =
     (if x \<le> 0 then 0
      else min (inf_bits f)
             (nat (last_exp f x - qmin f) * hidden f + rne (x / 2 powi last_exp f x)))"

lemma round_mag_rmag:
  assumes d: "0 < d"
  shows "round_mag f n d = rmag f (real n / real d)"
proof (cases "n = 0")
  case True
  then show ?thesis by (simp add: round_mag_def rmag_def)
next
  case False
  then have n: "0 < n" by simp
  with d have pos: "0 < real n / real d" by simp
  have q: "max (lead_exp n d - int (prec f) + 1) (qmin f) = last_exp f (real n / real d)"
    by (simp add: last_exp_def lead_exp_lexp [OF n d])
  have "(if 0 \<le> q then rne_div n (d * 2 ^ nat q) else rne_div (n * 2 ^ nat (- q)) d) =
    rne (real n / real d / 2 powi q)" for q
    using d by (auto simp: rne_div_rne powi_nat_pos powi_nat_neg)
  moreover have "\<not> real n / real d \<le> 0" using pos by linarith
  ultimately show ?thesis
    using False by (simp only: round_mag_def rmag_def Let_def q if_False simp_thms)
qed

text \<open>The value of a magnitude pattern below infinity.\<close>

definition mag_value :: "fmt \<Rightarrow> nat \<Rightarrow> real" where
  "mag_value f mag =
     (let ex = mag div hidden f; fr = mag mod hidden f
      in if ex = 0 then real fr * 2 powi qmin f
         else real (fr + hidden f) * 2 powi (qmin f + int ex - 1))"

text \<open>The value of a decoded number; infinities and NaN have none and are given 0.\<close>

primrec fp_value :: "fp \<Rightarrow> real" where
  "fp_value NaN = 0"
| "fp_value (Inf s) = 0"
| "fp_value (Fin s m e) = (if s then -1 else 1) * (real m * 2 powi e)"

locale ieee_format =
  fixes f :: fmt
  assumes prec_ge: "2 \<le> prec f" and ewidth_ge: "2 \<le> ewidth f"
begin

lemma hidden_pos [simp]: "0 < hidden f"
  by (simp add: hidden_def)

lemma hidden_ge2: "2 \<le> hidden f"
proof -
  have "(2::nat) ^ 1 \<le> 2 ^ (prec f - 1)"
    using prec_ge by (intro power_increasing) auto
  then show ?thesis by (simp add: hidden_def)
qed

lemma hidden_powi: "real (hidden f) = 2 powi (int (prec f) - 1)"
proof -
  have "int (prec f) - 1 = int (prec f - 1)" using prec_ge by simp
  then show ?thesis unfolding hidden_def by (simp only: power_int_of_nat) simp
qed

lemma sign_bit_inf: "sign_bit f = inf_bits f + hidden f"
proof -
  have "sign_bit f = 2 ^ ewidth f * hidden f"
    by (simp add: sign_bit_def hidden_def power_add)
  also have "\<dots> = (2 ^ ewidth f - 1) * hidden f + hidden f"
    by (simp add: algebra_simps)
  finally show ?thesis by (simp add: inf_bits_def)
qed

lemma sign_bit_pos [simp]: "0 < sign_bit f"
  by (simp add: sign_bit_def)

lemma inf_bits_pos: "0 < inf_bits f"
proof -
  have "(2::nat) ^ 1 \<le> 2 ^ ewidth f"
    using ewidth_ge by (intro power_increasing) auto
  then show ?thesis by (simp add: inf_bits_def)
qed

lemma last_exp_scaled:
  assumes "0 < x"
  shows "x / 2 powi last_exp f x \<le> 2 * real (hidden f)"
    and "qmin f < last_exp f x \<Longrightarrow> real (hidden f) \<le> x / 2 powi last_exp f x"
proof -
  let ?q = "last_exp f x"
  have "lexp x + 1 \<le> ?q + int (prec f)" by (simp add: last_exp_def)
  then have "(2::real) powi (lexp x + 1) \<le> 2 powi (?q + int (prec f))"
    by (intro power_int_increasing) auto
  with lexp_bounds [OF assms] have "x \<le> 2 powi (?q + int (prec f))" by linarith
  also have "\<dots> = 2 * real (hidden f) * 2 powi ?q"
    unfolding hidden_powi by (simp add: power_int_add power_int_diff)
  finally show "x / 2 powi ?q \<le> 2 * real (hidden f)"
    by (simp add: pos_divide_le_eq)
  assume "qmin f < ?q"
  then have "?q + (int (prec f) - 1) = lexp x" by (simp add: last_exp_def max_def split: if_splits)
  then have "2 powi ?q * real (hidden f) = 2 powi lexp x"
    unfolding hidden_powi by (metis power_int_add zero_neq_numeral)
  with lexp_bounds [OF assms] show "real (hidden f) \<le> x / 2 powi ?q"
    by (simp add: pos_le_divide_eq mult.commute)
qed

lemma last_exp_ge: "qmin f \<le> last_exp f x"
  by (simp add: last_exp_def)

text \<open>Rounding is monotone.\<close>

lemma rmag_mono:
  assumes "x \<le> y"
  shows "rmag f x \<le> rmag f y"
proof (cases "x \<le> 0")
  case True
  then show ?thesis by (simp add: rmag_def)
next
  case False
  with assms have x: "0 < x" and y: "0 < y" by simp_all
  let ?q = "last_exp f x" and ?r = "last_exp f y"
  have qr: "?q \<le> ?r"
    using lexp_mono [OF x assms] by (simp add: last_exp_def)
  have "nat (?q - qmin f) * hidden f + rne (x / 2 powi ?q)
      \<le> nat (?r - qmin f) * hidden f + rne (y / 2 powi ?r)"
  proof (cases "?q = ?r")
    case True
    have "rne (x / 2 powi ?q) \<le> rne (y / 2 powi ?q)"
      using x assms by (intro rne_mono divide_right_mono) auto
    with True show ?thesis by simp
  next
    case False
    with qr have lt: "?q < ?r" by simp
    with last_exp_ge [of x] have "qmin f < ?r" by simp
    then have hi: "hidden f \<le> rne (y / 2 powi ?r)"
      by (rule rne_ge_nat [OF last_exp_scaled(2) [OF y]])
    have lo: "rne (x / 2 powi ?q) \<le> 2 * hidden f"
      using last_exp_scaled(1) [OF x] x by (intro rne_le_nat) auto
    have "nat (?q - qmin f) + 1 \<le> nat (?r - qmin f)"
      using lt last_exp_ge [of x] by linarith
    then have "(nat (?q - qmin f) + 1) * hidden f \<le> nat (?r - qmin f) * hidden f"
      by (rule mult_le_mono1)
    with hi lo show ?thesis by simp
  qed
  with x y show ?thesis by (simp add: rmag_def min_le_iff_disj)
qed

lemma rmag_le_inf: "rmag f x \<le> inf_bits f"
  by (simp add: rmag_def)

text \<open>Every representable magnitude rounds to its own pattern.\<close>

lemma rmag_mag_value:
  assumes "mag < inf_bits f"
  shows "rmag f (mag_value f mag) = mag"
proof -
  let ?ex = "mag div hidden f" and ?fr = "mag mod hidden f"
  have split: "mag = ?ex * hidden f + ?fr" by simp
  have fr: "?fr < hidden f" by simp
  show ?thesis
  proof (cases "mag = 0")
    case True
    then show ?thesis by (simp add: mag_value_def rmag_def)
  next
    case nonzero: False
    show ?thesis
    proof (cases "?ex = 0")
      case True
      let ?x = "real ?fr * 2 powi qmin f"
      have pos: "0 < ?fr" using nonzero split True by simp
      then have x: "0 < ?x" by simp
      have "2 powi lexp ?x \<le> ?x" using lexp_bounds [OF x] by simp
      also have "?x < real (hidden f) * 2 powi qmin f"
        using fr by simp
      also have "\<dots> = 2 powi (int (prec f) - 1 + qmin f)"
        unfolding hidden_powi by (rule power_int_add [symmetric]) simp
      finally have "lexp ?x < int (prec f) - 1 + qmin f"
        by (meson one_less_numeral_iff power_int_strict_increasing not_less power_int_increasing
            one_le_numeral semiring_norm(76) le_less_trans less_irrefl)
      then have "last_exp f ?x = qmin f" by (simp add: last_exp_def)
      with True x split assms show ?thesis
        by (simp add: rmag_def mag_value_def not_le)
    next
      case False
      let ?q = "qmin f + int ?ex - 1"
      let ?m = "?fr + hidden f"
      let ?x = "real ?m * 2 powi ?q"
      have x: "0 < ?x" using hidden_pos by (intro mult_pos_pos) (simp_all add: add_nonneg_pos)
      have lex: "lexp ?x = int (prec f) - 1 + ?q"
      proof (rule lexp_eqI)
        have "2 powi (int (prec f) - 1 + ?q) = real (hidden f) * 2 powi ?q"
          unfolding hidden_powi by (rule power_int_add) simp
        then show "2 powi (int (prec f) - 1 + ?q) \<le> ?x" by simp
        have "2 powi (int (prec f) - 1 + ?q + 1) = 2 * real (hidden f) * 2 powi ?q"
          unfolding hidden_powi by (simp add: power_int_add power_int_diff)
        moreover have "real ?m < 2 * real (hidden f)"
          using fr by simp
        ultimately show "?x < 2 powi (int (prec f) - 1 + ?q + 1)"
          by (metis mult_strict_right_mono zero_less_power_int zero_less_numeral)
      qed
      have q: "last_exp f ?x = ?q"
        using False unfolding last_exp_def lex by simp
      have "nat (?q - qmin f) * hidden f + ?m = mag"
      proof -
        have "nat (?q - qmin f) + 1 = ?ex" using False by simp
        then have "(nat (?q - qmin f) + 1) * hidden f + ?fr = mag" using split by simp
        then show ?thesis by simp
      qed
      moreover have "?x / 2 powi ?q = real ?m" by simp
      ultimately have "rmag f ?x = mag"
        using x assms by (simp only: rmag_def q rne_of_nat not_le [symmetric] if_not_P) simp
      with False show ?thesis by (simp add: mag_value_def Let_def)
    qed
  qed
qed

lemma mag_value_nonneg: "0 \<le> mag_value f mag"
  by (simp add: mag_value_def Let_def)

text \<open>So the patterns below infinity are ordered as their values.\<close>

lemma mag_value_less_iff:
  assumes "a < inf_bits f" and "b < inf_bits f"
  shows "mag_value f a < mag_value f b \<longleftrightarrow> a < b"
proof
  assume "mag_value f a < mag_value f b"
  then have "a \<le> b"
    using rmag_mono [of "mag_value f a" "mag_value f b"] assms by (simp add: rmag_mag_value)
  moreover have "a \<noteq> b" using \<open>mag_value f a < mag_value f b\<close> by auto
  ultimately show "a < b" by simp
next
  assume "a < b"
  show "mag_value f a < mag_value f b"
  proof (rule ccontr)
    assume "\<not> ?thesis"
    then have "b \<le> a"
      using rmag_mono [of "mag_value f b" "mag_value f a"] assms by (simp add: rmag_mag_value)
    with \<open>a < b\<close> show False by simp
  qed
qed

text \<open>Encoding rounds the exact value.\<close>

lemma round_frac_rmag:
  assumes "0 < d"
  shows "round_frac f s n d e = with_sign f s (rmag f (real n / real d * 2 powi e))"
  using assms by (simp add: round_frac_def round_mag_rmag powi_nat_pos powi_nat_neg mult.commute)

lemma encode_Fin: "encode f (Fin s m e) = with_sign f s (rmag f (real m * 2 powi e))"
  by (simp add: round_frac_rmag)

lemma is_finite_ex: "mag < sign_bit f \<Longrightarrow> mag < inf_bits f \<longleftrightarrow> mag div hidden f \<noteq> 2 ^ ewidth f - 1"
proof -
  assume "mag < sign_bit f"
  then have "mag < 2 ^ ewidth f * hidden f"
    by (simp add: sign_bit_def hidden_def power_add mult.commute)
  then have "mag div hidden f < 2 ^ ewidth f" by (rule less_mult_imp_div_less)
  then have "mag div hidden f \<noteq> 2 ^ ewidth f - 1 \<longleftrightarrow> mag div hidden f < 2 ^ ewidth f - 1"
    by linarith
  also have "\<dots> \<longleftrightarrow> mag < inf_bits f"
    by (simp add: inf_bits_def div_less_iff_less_mult)
  finally show ?thesis by simp
qed

lemma decode_finite:
  assumes "is_finite f b"
  shows "\<exists>m e. decode f b = Fin (sign_bit f \<le> b) m e \<and> real m * 2 powi e = mag_value f (b mod sign_bit f)"
proof -
  let ?mag = "b mod sign_bit f"
  have "?mag div hidden f \<noteq> 2 ^ ewidth f - 1"
    using assms is_finite_ex [of ?mag] by (simp add: is_finite_def)
  then show ?thesis by (simp add: decode_def mag_value_def Let_def)
qed

lemma decode_Fin_iff: "(\<exists>s m e. decode f b = Fin s m e) \<longleftrightarrow> is_finite f b"
proof -
  have "b mod sign_bit f div hidden f = 2 ^ ewidth f - 1 \<longleftrightarrow> \<not> is_finite f b"
    using is_finite_ex [of "b mod sign_bit f"] by (auto simp: is_finite_def)
  then show ?thesis by (auto simp: decode_def Let_def)
qed

lemma inf_ex:
  assumes "mag < sign_bit f" and "\<not> mag < inf_bits f"
  shows "mag mod hidden f = mag - inf_bits f"
proof -
  have "mag div hidden f = 2 ^ ewidth f - 1" using assms is_finite_ex by blast
  then have "mag = inf_bits f + mag mod hidden f"
    using div_mult_mod_eq [of mag "hidden f"] by (simp add: inf_bits_def)
  then show ?thesis by linarith
qed

lemma decode_nonfinite:
  assumes "\<not> is_finite f b"
  shows "decode f b = (if is_nan f b then NaN else Inf (sign_bit f \<le> b))"
proof -
  let ?mag = "b mod sign_bit f"
  have ex: "?mag div hidden f = 2 ^ ewidth f - 1"
    using assms is_finite_ex [of ?mag] by (simp add: is_finite_def)
  have "?mag mod hidden f = ?mag - inf_bits f"
    using assms by (intro inf_ex) (simp_all add: is_finite_def)
  with assms ex show ?thesis by (auto simp: decode_def Let_def is_nan_def is_finite_def)
qed

lemma decode_NaN_iff: "decode f b = NaN \<longleftrightarrow> is_nan f b"
proof (cases "is_finite f b")
  case True
  then show ?thesis using decode_finite [OF True] by (auto simp: is_nan_def is_finite_def)
qed (simp add: decode_nonfinite)

lemma with_sign_split:
  assumes "b < 2 * sign_bit f"
  shows "with_sign f (sign_bit f \<le> b) (b mod sign_bit f) = b"
proof (cases "sign_bit f \<le> b")
  case True
  with assms have "b mod sign_bit f = b - sign_bit f" by (simp add: mod_if)
  with True show ?thesis by (simp add: with_sign_def)
qed (simp add: with_sign_def)

lemma encode_decode:
  assumes "\<not> is_nan f b" and "b < 2 * sign_bit f"
  shows "encode f (decode f b) = b"
proof (cases "is_finite f b")
  case True
  then obtain m e where "decode f b = Fin (sign_bit f \<le> b) m e"
    and "real m * 2 powi e = mag_value f (b mod sign_bit f)"
    using decode_finite by blast
  with True assms show ?thesis
    by (simp only: encode_Fin rmag_mag_value is_finite_def with_sign_split)
next
  case False
  then have "b mod sign_bit f = inf_bits f"
    using assms by (simp add: is_finite_def is_nan_def)
  with False assms show ?thesis
    using with_sign_split [of b] by (simp add: decode_nonfinite)
qed

text \<open>The order of the signed magnitudes is the order of the values.\<close>

lemma fp_value_decode:
  "is_finite f b \<Longrightarrow>
    fp_value (decode f b) = (if sign_bit f \<le> b then -1 else 1) * mag_value f (b mod sign_bit f)"
  using decode_finite [of b] by auto

lemma fkey_less_iff:
  assumes a: "is_finite f a" and b: "is_finite f b"
  shows "fkey f a < fkey f b \<longleftrightarrow> fp_value (decode f a) < fp_value (decode f b)"
proof -
  let ?a = "a mod sign_bit f" and ?b = "b mod sign_bit f"
  have z: "mag_value f 0 = 0" by (simp add: mag_value_def)
  have pos: "0 < mag_value f x \<longleftrightarrow> 0 < x" if "x < inf_bits f" for x
    using mag_value_less_iff [of 0 x] that inf_bits_pos by (simp add: z)
  have ab: "mag_value f ?a < mag_value f ?b \<longleftrightarrow> ?a < ?b" "mag_value f ?b < mag_value f ?a \<longleftrightarrow> ?b < ?a"
    using a b by (simp_all add: is_finite_def mag_value_less_iff)
  have pa: "0 < mag_value f ?a \<longleftrightarrow> 0 < ?a" and pb: "0 < mag_value f ?b \<longleftrightarrow> 0 < ?b"
    using a b pos by (simp_all add: is_finite_def)
  show ?thesis
    unfolding fp_value_decode [OF a] fp_value_decode [OF b] fkey_def signed_def
    using ab pa pb mag_value_nonneg [of ?a] mag_value_nonneg [of ?b]
    by (cases "sign_bit f \<le> a"; cases "sign_bit f \<le> b") (simp_all, linarith+)
qed

lemma fkey_bound: "\<not> is_nan f b \<Longrightarrow> \<bar>fkey f b\<bar> \<le> int (inf_bits f)"
  by (cases "sign_bit f \<le> b") (simp_all add: fkey_def signed_def is_nan_def)

lemma is_finite_fkey: "is_finite f b \<longleftrightarrow> \<bar>fkey f b\<bar> < int (inf_bits f)"
  by (cases "sign_bit f \<le> b") (simp_all add: fkey_def signed_def is_finite_def)

lemma finite_not_nan: "is_finite f b \<Longrightarrow> \<not> is_nan f b"
  by (simp add: is_finite_def is_nan_def)

text \<open>What an operation encodes is a pattern of the format's width.\<close>

lemma with_sign_less: "mag < sign_bit f \<Longrightarrow> with_sign f s mag < 2 * sign_bit f"
  by (simp add: with_sign_def)

lemma inf_less_sign: "inf_bits f < sign_bit f"
  by (simp add: sign_bit_inf)

lemma nan_bits_less: "nan_bits f < sign_bit f"
  using hidden_pos hidden_ge2 by (simp add: sign_bit_inf nan_bits_def)

lemma encode_less: "encode f v < 2 * sign_bit f"
proof (cases v)
  case NaN
  then show ?thesis using nan_bits_less by simp
next
  case (Inf s)
  then show ?thesis using inf_less_sign by (simp add: with_sign_less)
next
  case (Fin s m e)
  have "rmag f (real m * 2 powi e) < sign_bit f"
    using rmag_le_inf [of "real m * 2 powi e"] inf_less_sign by linarith
  then show ?thesis unfolding Fin encode_Fin by (rule with_sign_less)
qed

lemma with_sign_mod: "mag < sign_bit f \<Longrightarrow> with_sign f s mag mod sign_bit f = mag"
  by (simp add: with_sign_def)

lemma with_sign_ge: "mag < sign_bit f \<Longrightarrow> sign_bit f \<le> with_sign f s mag \<longleftrightarrow> s"
  by (simp add: with_sign_def)

lemma rmag_less_sign: "rmag f x < sign_bit f"
  using rmag_le_inf [of x] inf_less_sign by linarith

lemma fkey_encode_Fin: "fkey f (encode f (Fin s m e)) = signed s (rmag f (real m * 2 powi e))"
  by (simp only: encode_Fin fkey_def with_sign_ge with_sign_mod rmag_less_sign)

text \<open>
  The key of a rounded value is a monotone function of the value: the fact behind every
  bound on a computed result.
\<close>

definition rkey :: "real \<Rightarrow> int" where
  "rkey x = (if x < 0 then - int (rmag f (- x)) else int (rmag f x))"

lemma rkey_mono: "x \<le> y \<Longrightarrow> rkey x \<le> rkey y"
  using rmag_mono [of x y] rmag_mono [of "- y" "- x"] by (auto simp: rkey_def)

lemma rmag_0 [simp]: "rmag f 0 = 0"
  by (simp add: rmag_def)

lemma fkey_encode: "fkey f (encode f (Fin s m e)) = rkey (fp_value (Fin s m e))"
proof -
  obtain v where v: "real m * 2 powi e = v" and "0 \<le> v" by simp
  then show ?thesis
    unfolding fkey_encode_Fin fp_value.simps v
    by (cases "v = 0") (simp_all add: rkey_def signed_def)
qed

lemma encode_Fin_not_nan: "\<not> is_nan f (encode f (Fin s m e))"
  using rmag_le_inf by (simp only: encode_Fin is_nan_def with_sign_mod rmag_less_sign not_less)

lemma rkey_fp_value: "is_finite f b \<Longrightarrow> rkey (fp_value (decode f b)) = fkey f b"
  unfolding fp_value_decode using mag_value_nonneg [of "b mod sign_bit f"]
  by (cases "mag_value f (b mod sign_bit f) = 0")
    (auto simp: rkey_def fkey_def signed_def is_finite_def rmag_mag_value
        dest: rmag_mag_value [of "b mod sign_bit f"])

end

interpretation single: ieee_format single
  by unfold_locales (simp_all add: single_def)

interpretation double: ieee_format double
  by unfold_locales (simp_all add: double_def)

section \<open>The C++ comparisons\<close>

definition f32_key :: "f32 \<Rightarrow> int" where "f32_key a = fkey single (unat a)"
definition f64_key :: "f64 \<Rightarrow> int" where "f64_key a = fkey double (unat a)"

lemma f32_lt_key: "f32_lt a b \<longleftrightarrow> \<not> f32_isnan a \<and> \<not> f32_isnan b \<and> f32_key a < f32_key b"
  by (simp add: f32_lt_def fless_def f32_isnan_def f32_key_def)

lemma f32_le_key: "f32_le a b \<longleftrightarrow> \<not> f32_isnan a \<and> \<not> f32_isnan b \<and> f32_key a \<le> f32_key b"
  by (simp add: f32_le_def fleq_def f32_isnan_def f32_key_def)

lemma f64_lt_key: "f64_lt a b \<longleftrightarrow> \<not> f64_isnan a \<and> \<not> f64_isnan b \<and> f64_key a < f64_key b"
  by (simp add: f64_lt_def fless_def f64_isnan_def f64_key_def)

lemma f64_le_key: "f64_le a b \<longleftrightarrow> \<not> f64_isnan a \<and> \<not> f64_isnan b \<and> f64_key a \<le> f64_key b"
  by (simp add: f64_le_def fleq_def f64_isnan_def f64_key_def)

lemmas float_keys = f32_lt_key f32_le_key f64_lt_key f64_le_key

lemma f64_nan_unordered: "f64_isnan a \<Longrightarrow> \<not> f64_lt a b \<and> \<not> f64_lt b a \<and> \<not> f64_le a b \<and> \<not> f64_le b a"
  by (simp add: float_keys)

lemma f32_isfinite_key: "f32_isfinite a \<longleftrightarrow> \<bar>f32_key a\<bar> < int (inf_bits single)"
  by (simp add: f32_isfinite_def f32_key_def single.is_finite_fkey)

lemma f32_finite_not_nan: "f32_isfinite a \<Longrightarrow> \<not> f32_isnan a"
  by (simp add: f32_isfinite_def f32_isnan_def single.finite_not_nan)

lemma f64_finite_not_nan: "f64_isfinite a \<Longrightarrow> \<not> f64_isnan a"
  by (simp add: f64_isfinite_def f64_isnan_def double.finite_not_nan)

lemma unat_f32_bound: "unat (a :: f32) < 2 * sign_bit single"
  using unsigned_less [of a, where ?'a = nat] by (simp add: sign_bit_def single_def)

lemma unat_f64_bound: "unat (a :: f64) < 2 * sign_bit double"
  using unsigned_less [of a, where ?'a = nat] by (simp add: sign_bit_def double_def)

lemma unat_f32_of_nat: "b < 2 * sign_bit single \<Longrightarrow> unat (word_of_nat b :: f32) = b"
  by (simp add: unat_of_nat sign_bit_def single_def)

lemma unat_f64_of_nat: "b < 2 * sign_bit double \<Longrightarrow> unat (word_of_nat b :: f64) = b"
  by (simp add: unat_of_nat sign_bit_def double_def)

lemma unat_f32_encode: "unat (word_of_nat (encode single v) :: f32) = encode single v"
  by (simp add: unat_f32_of_nat single.encode_less)

lemma unat_f64_encode: "unat (word_of_nat (encode double v) :: f64) = encode double v"
  by (simp add: unat_f64_of_nat double.encode_less)

text \<open>A finite addend with the value of the sum decides the key of the sum.\<close>

lemma fp_value_signed: "fp_value (Fin s m e) = real_of_int (signed s m) * 2 powi e"
  by (simp add: signed_def)

lemma signed_abs: "signed (v < 0) (nat \<bar>v\<bar>) = v"
  by (simp add: signed_def)

lemma fp_add_value:
  "fp_add (Fin s m e) (Fin s' m' e') = w \<Longrightarrow>
    (\<exists>t n k. w = Fin t n k) \<and> fp_value w = fp_value (Fin s m e) + fp_value (Fin s' m' e')"
proof -
  assume w: "fp_add (Fin s m e) (Fin s' m' e') = w"
  let ?e0 = "min e e'"
  let ?v = "signed s m * 2 ^ nat (e - ?e0) + signed s' m' * 2 ^ nat (e' - ?e0)"
  have shift: "2 ^ nat (k - ?e0) * 2 powi ?e0 = (2::real) powi k" if "?e0 \<le> k" for k
  proof -
    have "2 ^ nat (k - ?e0) = (2::real) powi (k - ?e0)" using that by (simp add: powi_nat_pos)
    then show ?thesis by (simp add: power_int_add [symmetric])
  qed
  have "real_of_int ?v * 2 powi ?e0 =
      real_of_int (signed s m) * (2 ^ nat (e - ?e0) * 2 powi ?e0) +
      real_of_int (signed s' m') * (2 ^ nat (e' - ?e0) * 2 powi ?e0)"
    by (simp add: algebra_simps)
  also have "\<dots> = fp_value (Fin s m e) + fp_value (Fin s' m' e')"
    by (simp only: shift min.cobounded1 min.cobounded2 fp_value_signed)
  finally have v: "real_of_int ?v * 2 powi ?e0 = fp_value (Fin s m e) + fp_value (Fin s' m' e')" .
  show ?thesis
  proof (cases "?v = 0")
    case True
    then show ?thesis using w v by (auto simp: Let_def)
  next
    case False
    then have "w = Fin (?v < 0) (nat \<bar>?v\<bar>) ?e0" using w by (simp add: Let_def)
    then show ?thesis unfolding v [symmetric] by (simp only: fp_value_signed signed_abs fp.inject) blast
  qed
qed

definition f32_value :: "f32 \<Rightarrow> real" where
  "f32_value a = fp_value (decode single (unat a))"

lemma f32_add_finite_key:
  assumes "f32_isfinite a" and "f32_isfinite b"
  shows "f32_key (f32_add a b) = single.rkey (f32_value a + f32_value b)"
    and "\<not> f32_isnan (f32_add a b)"
proof -
  obtain s m e s' m' e' where a: "decode single (unat a) = Fin s m e"
    and b: "decode single (unat b) = Fin s' m' e'"
    using assms single.decode_Fin_iff unfolding f32_isfinite_def by blast
  obtain t n k where w: "fp_add (Fin s m e) (Fin s' m' e') = Fin t n k"
    and v: "fp_value (Fin t n k) = f32_value a + f32_value b"
    using fp_add_value [of s m e s' m' e'] a b unfolding f32_value_def by metis
  show "f32_key (f32_add a b) = single.rkey (f32_value a + f32_value b)"
    unfolding f32_key_def f32_add_def f32_bin_def unat_f32_encode a b w single.fkey_encode v ..
  show "\<not> f32_isnan (f32_add a b)"
    unfolding f32_isnan_def f32_add_def f32_bin_def unat_f32_encode a b w
    by (rule single.encode_Fin_not_nan)
qed

lemma f32_value_key: "f32_isfinite a \<Longrightarrow> single.rkey (f32_value a) = f32_key a"
  by (simp add: f32_isfinite_def f32_value_def f32_key_def single.rkey_fp_value)

lemma f32_value_less_iff:
  "f32_isfinite a \<Longrightarrow> f32_isfinite b \<Longrightarrow> f32_value a < f32_value b \<longleftrightarrow> f32_key a < f32_key b"
  by (simp add: f32_isfinite_def f32_value_def f32_key_def single.fkey_less_iff)

lemma f32_value_le_iff:
  "f32_isfinite a \<Longrightarrow> f32_isfinite b \<Longrightarrow> f32_value a \<le> f32_value b \<longleftrightarrow> f32_key a \<le> f32_key b"
  using f32_value_less_iff [of b a] by (simp add: linorder_not_less [symmetric])

section \<open>NaN and negation\<close>

lemma f32_isnan_decode: "f32_isnan a \<longleftrightarrow> decode single (unat a) = NaN"
  by (simp add: f32_isnan_def single.decode_NaN_iff)

lemma f64_isnan_decode: "f64_isnan a \<longleftrightarrow> decode double (unat a) = NaN"
  by (simp add: f64_isnan_def double.decode_NaN_iff)

lemma f32_isnan_encode: "f32_isnan (word_of_nat (encode single v)) \<longleftrightarrow> v = NaN"
  unfolding f32_isnan_def unat_f32_encode using single.inf_less_sign single.inf_bits_pos
  by (cases v) (simp_all add: single.encode_Fin_not_nan del: encode.simps(3),
      simp_all add: is_nan_def nan_bits_def with_sign_def sign_bit_def inf_bits_def hidden_def single_def)

lemma f64_isnan_encode: "f64_isnan (word_of_nat (encode double v)) \<longleftrightarrow> v = NaN"
  unfolding f64_isnan_def unat_f64_encode using double.inf_less_sign double.inf_bits_pos
  by (cases v) (simp_all add: double.encode_Fin_not_nan del: encode.simps(3),
      simp_all add: is_nan_def nan_bits_def with_sign_def sign_bit_def inf_bits_def hidden_def double_def)

lemma fp_add_NaN [simp]: "fp_add NaN x = NaN" "fp_add x NaN = NaN"
  by (cases x; simp)+

lemma fp_mul_NaN [simp]: "fp_mul NaN x = NaN" "fp_mul x NaN = NaN"
  by (cases x; simp)+

lemma f32_add_nan: "f32_isnan a \<or> f32_isnan b \<Longrightarrow> f32_isnan (f32_add a b)"
  unfolding f32_add_def f32_bin_def f32_isnan_encode by (auto simp: f32_isnan_decode)

lemma f32_mul_nan: "f32_isnan a \<or> f32_isnan b \<Longrightarrow> f32_isnan (f32_mul a b)"
  unfolding f32_mul_def f32_bin_def f32_isnan_encode by (auto simp: f32_isnan_decode)

lemma f64_sub_nan: "f64_isnan a \<or> f64_isnan b \<Longrightarrow> f64_isnan (f64_sub a b)"
  unfolding f64_sub_def f64_bin_def f64_isnan_encode by (auto simp: f64_isnan_decode fp_sub_def)

lemma f64_div_nan: "f64_isnan a \<Longrightarrow> f64_isnan (f64_div a b)"
proof -
  assume "f64_isnan a"
  then have "f64_div a b = word_of_nat (encode double NaN)"
    by (simp add: f64_div_def f64_isnan_decode)
  then show ?thesis by (simp only: f64_isnan_encode)
qed

lemma f32_of_f64_nan: "f32_isnan (f32_of_f64 a) \<longleftrightarrow> f64_isnan a"
  unfolding f32_of_f64_def f32_isnan_encode f64_isnan_decode ..

lemma f64_of_f32_nan: "f64_isnan (f64_of_f32 a) \<longleftrightarrow> f32_isnan a"
  unfolding f64_of_f32_def f64_isnan_encode f32_isnan_decode ..

lemma fp_neg_value: "fp_value (fp_neg v) = - fp_value v"
  by (cases v) simp_all

lemma f32_sub_finite_key:
  assumes "f32_isfinite a" and "f32_isfinite b"
  shows "f32_key (f32_sub a b) = single.rkey (f32_value a - f32_value b)"
    and "\<not> f32_isnan (f32_sub a b)"
proof -
  obtain s m e s' m' e' where a: "decode single (unat a) = Fin s m e"
    and b: "decode single (unat b) = Fin s' m' e'"
    using assms single.decode_Fin_iff unfolding f32_isfinite_def by blast
  obtain t n k where w: "fp_add (Fin s m e) (Fin (\<not> s') m' e') = Fin t n k"
    and v: "fp_value (Fin t n k) = f32_value a - f32_value b"
    using fp_add_value [of s m e "\<not> s'" m' e'] a b fp_neg_value [of "Fin s' m' e'"]
    unfolding f32_value_def by force
  show "f32_key (f32_sub a b) = single.rkey (f32_value a - f32_value b)"
    unfolding f32_key_def f32_sub_def f32_bin_def fp_sub_def unat_f32_encode a b fp_neg.simps w
      single.fkey_encode v ..
  show "\<not> f32_isnan (f32_sub a b)"
    unfolding f32_sub_def f32_bin_def fp_sub_def f32_isnan_encode a b fp_neg.simps w by simp
qed

lemma f64_finite_decode: "f64_isfinite a \<Longrightarrow> \<exists>s m e. decode double (unat a) = Fin s m e"
  using double.decode_Fin_iff unfolding f64_isfinite_def by blast

lemma f32_finite_decode: "f32_isfinite a \<Longrightarrow> \<exists>s m e. decode single (unat a) = Fin s m e"
  using single.decode_Fin_iff unfolding f32_isfinite_def by blast

lemma f64_sub_finite_not_nan:
  assumes "f64_isfinite a" and "f64_isfinite b"
  shows "\<not> f64_isnan (f64_sub a b)"
proof -
  obtain s m e s' m' e' where a: "decode double (unat a) = Fin s m e"
    and b: "decode double (unat b) = Fin s' m' e'"
    using assms f64_finite_decode by blast
  show ?thesis
    using fp_add_value [of s m e "\<not> s'" m' e'] unfolding f64_sub_def f64_bin_def f64_isnan_encode fp_sub_def a b by auto
qed

definition f64_value :: "f64 \<Rightarrow> real" where
  "f64_value a = fp_value (decode double (unat a))"

lemma f64_sub_finite_key:
  assumes "f64_isfinite a" and "f64_isfinite b"
  shows "f64_key (f64_sub a b) = double.rkey (f64_value a - f64_value b)"
proof -
  obtain s m e s' m' e' where a: "decode double (unat a) = Fin s m e"
    and b: "decode double (unat b) = Fin s' m' e'"
    using assms f64_finite_decode by blast
  obtain t n k where w: "fp_add (Fin s m e) (Fin (\<not> s') m' e') = Fin t n k"
    and v: "fp_value (Fin t n k) = f64_value a - f64_value b"
    using fp_add_value [of s m e "\<not> s'" m' e'] a b fp_neg_value [of "Fin s' m' e'"]
    unfolding f64_value_def by force
  show ?thesis
    unfolding f64_key_def f64_sub_def f64_bin_def fp_sub_def unat_f64_encode a b fp_neg.simps w
      double.fkey_encode v ..
qed

lemma f64_value_eq:
  "f64_isfinite a \<Longrightarrow> f64_isfinite b \<Longrightarrow> f64_key a = f64_key b \<Longrightarrow> f64_value a = f64_value b"
  using double.fkey_less_iff [of "unat a" "unat b"] double.fkey_less_iff [of "unat b" "unat a"]
  by (simp add: f64_isfinite_def f64_key_def f64_value_def)

lemma f64_div_not_nan:
  assumes a: "\<not> f64_isnan a" and b: "f64_isfinite b" and pos: "0 < f64_key b"
  shows "\<not> f64_isnan (f64_div a b)"
proof -
  obtain s' m' e' where db: "decode double (unat b) = Fin s' m' e'"
    using b f64_finite_decode by blast
  have m': "m' \<noteq> 0"
  proof
    assume "m' = 0"
    then have "double.rkey (fp_value (decode double (unat b))) = 0"
      by (simp add: db double.rkey_def)
    then show False using pos b by (simp add: double.rkey_fp_value f64_isfinite_def f64_key_def)
  qed
  have r: "\<not> f64_isnan (word_of_nat (round_frac double t m m' e))" for t m e
  proof -
    let ?x = "real m / real m' * 2 powi e"
    have "unat (word_of_nat (round_frac double t m m' e) :: f64) = with_sign double t (rmag double ?x)"
      using m' double.with_sign_less [OF double.rmag_less_sign, of t ?x]
      by (simp only: double.round_frac_rmag neq0_conv unat_f64_of_nat)
    then show ?thesis
      using double.rmag_le_inf [of ?x]
      by (simp add: f64_isnan_def is_nan_def double.with_sign_mod double.rmag_less_sign)
  qed
  show ?thesis
  proof (cases "decode double (unat a)")
    case NaN
    then show ?thesis using a by (simp add: f64_isnan_decode)
  next
    case (Inf s)
    have "\<not> f64_isnan (word_of_nat (encode double (fp.Inf t)))" for t
      by (simp only: f64_isnan_encode) simp
    then show ?thesis using Inf by (simp add: f64_div_def db del: encode.simps)
  next
    case (Fin s m e)
    then show ?thesis using m' r by (simp add: f64_div_def db)
  qed
qed

section \<open>Integers as floating point\<close>

lemma int_value: "fp_value (Fin (i < 0) (nat \<bar>i\<bar>) 0) = real_of_int i"
  by (cases "i < 0") simp_all

lemma f64_key_of_int: "f64_key (f64_of_int i) = double.rkey (real_of_int i)"
  unfolding f64_key_def f64_of_int_def unat_f64_encode double.fkey_encode int_value ..

lemma f64_of_int_not_nan [simp]: "\<not> f64_isnan (f64_of_int i)"
  unfolding f64_of_int_def f64_isnan_encode by simp

lemma f64_of_int_mono: "i \<le> j \<Longrightarrow> f64_key (f64_of_int i) \<le> f64_key (f64_of_int j)"
  unfolding f64_key_of_int by (rule double.rkey_mono) simp

lemma f64_isfinite_key: "f64_isfinite a \<longleftrightarrow> \<bar>f64_key a\<bar> < int (inf_bits double)"
  by (simp add: f64_isfinite_def f64_key_def double.is_finite_fkey)

lemma f64_key_2_64:
  "f64_key (f64_of_int (2 ^ 64)) < int (inf_bits double)"
  "- int (inf_bits double) < f64_key (f64_of_int (- (2 ^ 64)))"
  by (simp_all add: f64_key_def float_eval)

lemma f64_of_int_finite: "\<bar>i\<bar> \<le> 2 ^ 64 \<Longrightarrow> f64_isfinite (f64_of_int i)"
  using f64_of_int_mono [of i "2 ^ 64"] f64_of_int_mono [of "- (2 ^ 64)" i] f64_key_2_64
  unfolding f64_isfinite_key by linarith

lemma f64_key_between:
  "f64_isfinite a \<Longrightarrow> f64_isfinite b \<Longrightarrow> f64_key a \<le> f64_key r \<Longrightarrow> f64_key r \<le> f64_key b \<Longrightarrow>
    f64_isfinite r"
  unfolding f64_isfinite_key by linarith

text \<open>A non-zero key determines the pattern; the two zeroes share one.\<close>

lemma f64_key_inj: "f64_key a = f64_key b \<Longrightarrow> f64_key a \<noteq> 0 \<Longrightarrow> a = b"
proof -
  assume e: "f64_key a = f64_key b" and z: "f64_key a \<noteq> 0"
  have s: "0 < sign_bit double" by simp
  have split: "unat x = (if sign_bit double \<le> unat x then sign_bit double else 0) + unat x mod sign_bit double"
    for x :: f64
    using unat_f64_bound [of x] by (auto simp: mod_if [of "unat x"] le_mod_geq)
  have k: "signed s (m :: nat) = signed t n \<Longrightarrow> signed s m \<noteq> 0 \<Longrightarrow> s = t \<and> m = n" for s t m n
    by (cases s; cases t) (auto simp: signed_def)
  have "(sign_bit double \<le> unat a) = (sign_bit double \<le> unat b) \<and>
      unat a mod sign_bit double = unat b mod sign_bit double"
    using e z unfolding f64_key_def fkey_def by (rule k)
  then have "unat a = unat b" using split [of a] split [of b] by presburger
  then show "a = b" by (simp only: word_unat_eq_iff)
qed

end
