(* ===== verification/F4_Types.thy ===== *)
theory F4_Types
  imports F4_Float
begin

text \<open>
  \<open>shared/include/f4mp/Types.hpp\<close>: player ids, vectors, the state flags and the state
  every client needs to place another player's character. A \<open>float\<close> is its bit
  pattern, so two states are equal when their bytes are.
\<close>

type_synonym PlayerId = u32

definition SERVER_ID :: PlayerId where "SERVER_ID = 0"
definition INVALID_PLAYER_ID :: PlayerId where "INVALID_PLAYER_ID = 0xFFFFFFFF"

record Vec3 =
  vx :: f32
  vy :: f32
  vz :: f32

definition Vec3_default :: Vec3 where
  "Vec3_default = \<lparr>vx = 0, vy = 0, vz = 0\<rparr>"

definition kStateNone :: u8 where "kStateNone = 0"
definition kStateSneaking :: u8 where "kStateSneaking = push_bit 0 1"
definition kStateWeaponDrawn :: u8 where "kStateWeaponDrawn = push_bit 1 1"
definition kStateDead :: u8 where "kStateDead = push_bit 2 1"
definition kStateSprinting :: u8 where "kStateSprinting = push_bit 3 1"

lemmas state_flag_defs =
  kStateNone_def kStateSneaking_def kStateWeaponDrawn_def kStateDead_def kStateSprinting_def

record PlayerState =
  position :: Vec3
  yaw :: f32
  worldspaceId :: u32
  cellId :: u32
  flags :: u8
  health :: f32
  maxHealth :: f32

definition PlayerState_default :: PlayerState where
  "PlayerState_default =
     \<lparr>position = Vec3_default, yaw = 0, worldspaceId = 0, cellId = 0, flags = kStateNone,
      health = 0, maxHealth = 0\<rparr>"

text \<open>The flags are distinct single bits.\<close>

lemma state_flags_distinct:
  "distinct [kStateSneaking, kStateWeaponDrawn, kStateDead, kStateSprinting]"
  by (simp add: state_flag_defs)

end
