(* ===== verification/F4_Interp.thy ===== *)
theory F4_Interp
  imports F4_FloatFacts F4_Types
begin

text \<open>
  \<open>shared/include/f4mp/Interp.hpp\<close>: the unwrapped server timeline and the snapshot
  interpolation. Times are 64-bit milliseconds in the code; they are integers here, and
  the lemmas that convert them to \<open>double\<close> assume the 64-bit range.
\<close>

definition MAX_EXTRAPOLATE_MS :: f64 where "MAX_EXTRAPOLATE_MS = f64_lit 150 1"
definition MAX_VELOCITY_GAP_MS :: f64 where "MAX_VELOCITY_GAP_MS = f64_lit 400 1"

record TimedState =
  ts_state :: PlayerState
  ts_timeMs :: int

section \<open>The server clock\<close>

record ServerClock =
  sc_started :: bool
  sc_last :: u32
  sc_now :: int

definition ServerClock_new :: ServerClock where
  "ServerClock_new = \<lparr>sc_started = False, sc_last = 0, sc_now = 0\<rparr>"

definition Unwrap :: "u32 \<Rightarrow> ServerClock \<Rightarrow> int \<times> ServerClock" where
  "Unwrap stamp c =
     (if \<not> sc_started c
      then (uint stamp, \<lparr>sc_started = True, sc_last = stamp, sc_now = uint stamp\<rparr>)
      else let now = sc_now c + sint (stamp - sc_last c)
           in (now, c\<lparr>sc_now := now, sc_last := stamp\<rparr>))"

definition ServerClock_Reset :: "ServerClock \<Rightarrow> ServerClock" where
  "ServerClock_Reset c = ServerClock_new"

definition ServerClock_Started :: "ServerClock \<Rightarrow> bool" where
  "ServerClock_Started c = sc_started c"

text \<open>The timeline a sequence of stamps is put on.\<close>

primrec unwrap_all :: "u32 list \<Rightarrow> ServerClock \<Rightarrow> int list" where
  "unwrap_all [] c = []"
| "unwrap_all (s # ss) c = (let (t, c') = Unwrap s c in t # unwrap_all ss c')"

section \<open>Interpolation\<close>

definition Lerp :: "f32 \<Rightarrow> f32 \<Rightarrow> f32 \<Rightarrow> f32" where
  "Lerp a b t = f32_add a (f32_mul (f32_sub b a) t)"

definition twoPi :: f32 where
  "twoPi = f32_mul (f32_lit 2 1) pi_f32"

definition LerpAngle :: "f32 \<Rightarrow> f32 \<Rightarrow> f32 \<Rightarrow> f32" where
  "LerpAngle a b t =
     (let delta = f32_fmod (f32_sub b a) twoPi;
          delta = (if f32_lt pi_f32 delta then f32_sub delta twoPi
                   else if f32_lt delta (f32_neg pi_f32) then f32_add delta twoPi
                   else delta)
      in f32_add a (f32_mul delta t))"

definition Blend :: "PlayerState \<Rightarrow> PlayerState \<Rightarrow> f32 \<Rightarrow> PlayerState" where
  "Blend a b t =
     (let out = (if f32_lt t (f32_lit 1 2) then a else b)
      in out\<lparr>position := \<lparr>vx = Lerp (vx (position a)) (vx (position b)) t,
                          vy = Lerp (vy (position a)) (vy (position b)) t,
                          vz = Lerp (vz (position a)) (vz (position b)) t\<rparr>,
             yaw := LerpAngle (yaw a) (yaw b) t,
             health := Lerp (health a) (health b) t\<rparr>)"

text \<open>The loop over adjacent pairs; \<open>None\<close> when it runs out of them.\<close>

fun sample_pairs :: "f64 \<Rightarrow> TimedState list \<Rightarrow> PlayerState option" where
  "sample_pairs r (a # b # rest) =
     (if f64_lt r (f64_of_int (ts_timeMs a)) \<or> f64_lt (f64_of_int (ts_timeMs b)) r
      then sample_pairs r (b # rest)
      else let span = f64_of_int (ts_timeMs b - ts_timeMs a);
               t = (if f64_lt 0 span
                    then f32_of_f64 (f64_div (f64_sub r (f64_of_int (ts_timeMs a))) span)
                    else f32_lit 1 1)
           in Some (Blend (ts_state a) (ts_state b) (f32_clamp t 0 (f32_lit 1 1))))"
| "sample_pairs r _ = None"

text \<open>Past the newest snapshot: the last velocity, for a bounded time.\<close>

definition sample_ahead :: "TimedState \<Rightarrow> TimedState \<Rightarrow> f64 \<Rightarrow> PlayerState" where
  "sample_ahead prev last_s r =
     (let gap = f64_of_int (ts_timeMs last_s - ts_timeMs prev);
          ahead = f64_min (f64_sub r (f64_of_int (ts_timeMs last_s))) MAX_EXTRAPOLATE_MS;
          p = position (ts_state prev); l = position (ts_state last_s)
      in if f64_le gap 0 \<or> f64_lt MAX_VELOCITY_GAP_MS gap \<or> f64_le ahead 0 then ts_state last_s
         else let t = f32_of_f64 (f64_div ahead gap)
              in (ts_state last_s)\<lparr>position :=
                   \<lparr>vx = f32_add (vx l) (f32_mul (f32_sub (vx l) (vx p)) t),
                    vy = f32_add (vy l) (f32_mul (f32_sub (vy l) (vy p)) t),
                    vz = f32_add (vz l) (f32_mul (f32_sub (vz l) (vz p)) t)\<rparr>\<rparr>)"

text \<open>\<open>SampleAt\<close>; the caller never passes an empty list.\<close>

definition SampleAt :: "TimedState list \<Rightarrow> f64 \<Rightarrow> PlayerState" where
  "SampleAt snapshots r =
     (let first = hd snapshots; last_s = last snapshots
      in if length snapshots = 1 \<or> f64_le r (f64_of_int (ts_timeMs first)) then ts_state first
         else if f64_le (f64_of_int (ts_timeMs last_s)) r
              then sample_ahead (snapshots ! (length snapshots - 2)) last_s r
         else case sample_pairs r snapshots of Some s \<Rightarrow> s | None \<Rightarrow> ts_state last_s)"

section \<open>The clock follows the server's time\<close>

lemma sint_diff_stamp:
  assumes "\<bar>t' - t\<bar> < 2 ^ 31"
  shows "sint ((word_of_int t' :: u32) - word_of_int t) = t' - t"
proof -
  have "(word_of_int t' :: u32) - word_of_int t = word_of_int (t' - t)"
    by simp
  moreover have "sint (word_of_int (t' - t) :: u32) = t' - t"
    using assms by (simp add: signed_of_int signed_take_bit_int_eq_self del: of_int_diff)
  ultimately show ?thesis by simp
qed

text \<open>Times whose neighbours are less than 2^31 ms (about 24.8 days) apart.\<close>

fun small_steps :: "int list \<Rightarrow> bool" where
  "small_steps (t # t' # ts) = (\<bar>t' - t\<bar> < 2 ^ 31 \<and> small_steps (t' # ts))"
| "small_steps _ = True"

lemma unwrap_started:
  assumes "small_steps (t # ts)"
  shows "unwrap_all (map word_of_int ts) \<lparr>sc_started = True, sc_last = word_of_int t, sc_now = n\<rparr> =
    map (\<lambda>t'. n + (t' - t)) ts"
  using assms
proof (induction ts arbitrary: t n)
  case (Cons t' ts)
  then have d: "sint ((word_of_int t' :: u32) - word_of_int t) = t' - t" and s: "small_steps (t' # ts)"
    by (auto intro: sint_diff_stamp simp del: of_int_diff)
  show ?case
    using Cons.IH [OF s, of "n + (t' - t)"] by (simp add: Unwrap_def d Let_def)
qed simp

text \<open>C21. Whatever the server's clock shows, and however often its 32-bit stamp wraps, the unwrapped
  timeline advances exactly as the true time does, as long as two consecutive stamps are less than
  2^31 ms apart in either direction.\<close>

theorem Unwrap_tracks_time:
  assumes "small_steps (t # ts)"
  shows "unwrap_all (map word_of_int (t # ts)) ServerClock_new =
    map (\<lambda>t'. uint (word_of_int t :: u32) + (t' - t)) (t # ts)"
  using unwrap_started [OF assms, of "uint (word_of_int t :: u32)"]
  by (simp add: Unwrap_def ServerClock_new_def)

theorem Unwrap_tracks_time_witness:
  "unwrap_all (map word_of_int [2 ^ 32 - 256, 2 ^ 32 + 256, 2 ^ 32 + 206]) ServerClock_new =
     [2 ^ 32 - 256, 2 ^ 32 + 256, 2 ^ 32 + 206]"
  by (subst Unwrap_tracks_time) simp_all

section \<open>Where the samples come from\<close>

abbreviation ms :: "TimedState \<Rightarrow> f64" where
  "ms s \<equiv> f64_of_int (ts_timeMs s)"

text \<open>The snapshots of a client: oldest first, with 64-bit times.\<close>

definition timeline :: "TimedState list \<Rightarrow> bool" where
  "timeline snapshots =
     (snapshots \<noteq> [] \<and> sorted (map ts_timeMs snapshots) \<and>
      (\<forall>s \<in> set snapshots. \<bar>ts_timeMs s\<bar> < 2 ^ 63))"

lemma f64_total: "\<not> f64_isnan r \<Longrightarrow> \<not> f64_isnan q \<Longrightarrow> \<not> f64_lt r q \<longleftrightarrow> f64_le q r"
  by (auto simp: float_keys)

lemma one_not_nan: "\<not> f32_isnan (f32_lit 1 1)"
  by (simp add: float_eval)

lemma f64_zero: "\<not> f64_isnan 0" "f64_key 0 = 0"
  by (simp_all add: f64_key_def float_eval)

lemma f32_unit_keys: "\<not> f32_isnan 0" "f32_key 0 \<le> f32_key (f32_lit 1 1)"
  by (simp_all add: f32_key_def float_eval)

lemma f32_clamp_unit:
  "\<not> f32_isnan t \<Longrightarrow> f32_le 0 (f32_clamp t 0 (f32_lit 1 1)) \<and> f32_le (f32_clamp t 0 (f32_lit 1 1)) (f32_lit 1 1)"
proof -
  assume t: "\<not> f32_isnan t"
  show ?thesis using t one_not_nan f32_unit_keys by (auto simp: f32_clamp_def float_keys)
qed

lemma f32_clamp_nan: "f32_isnan t \<Longrightarrow> f32_clamp t lo hi = t"
  by (simp add: f32_clamp_def float_keys)

definition unit_interval :: "f32 \<Rightarrow> bool" where
  "unit_interval t = (f32_le 0 t \<and> f32_le t (f32_lit 1 1))"

text \<open>The blend factor of a pair that brackets the render time is never NaN.\<close>

lemma blend_factor_not_nan:
  assumes "\<bar>ts_timeMs a\<bar> < 2 ^ 63" and "\<bar>ts_timeMs b\<bar> < 2 ^ 63" and "f64_isfinite r"
    and pos: "f64_lt 0 (f64_of_int (ts_timeMs b - ts_timeMs a))"
  shows "\<not> f32_isnan (f32_of_f64 (f64_div (f64_sub r (ms a)) (f64_of_int (ts_timeMs b - ts_timeMs a))))"
proof -
  have fin: "f64_isfinite (ms a)" "f64_isfinite (f64_of_int (ts_timeMs b - ts_timeMs a))"
    using assms(1,2) by (auto intro!: f64_of_int_finite)
  have "0 < f64_key (f64_of_int (ts_timeMs b - ts_timeMs a))"
    using pos by (simp add: float_keys f64_zero)
  then have "\<not> f64_isnan (f64_div (f64_sub r (ms a)) (f64_of_int (ts_timeMs b - ts_timeMs a)))"
    using f64_div_not_nan [OF f64_sub_finite_not_nan [OF assms(3) fin(1)] fin(2)] by blast
  then show ?thesis by (simp add: f32_of_f64_nan)
qed

definition brackets :: "f64 \<Rightarrow> TimedState list \<Rightarrow> TimedState \<Rightarrow> TimedState \<Rightarrow> bool" where
  "brackets r snapshots a b = ((\<exists>pre post. snapshots = pre @ a # b # post) \<and>
     f64_le (ms a) r \<and> f64_le r (ms b))"

lemma sample_pairs_bracket:
  assumes "\<forall>s \<in> set snaps. \<bar>ts_timeMs s\<bar> < 2 ^ 63" and "snaps \<noteq> []"
    and "f64_le (ms (hd snaps)) r" and "f64_lt r (ms (last snaps))"
  shows "\<exists>a b t. brackets r snaps a b \<and> unit_interval t \<and>
    sample_pairs r snaps = Some (Blend (ts_state a) (ts_state b) t)"
  using assms
proof (induction r snaps rule: sample_pairs.induct)
  case (1 r a b rest)
  have nr: "\<not> f64_isnan r" using "1.prems"(3) by (simp add: float_keys)
  have ar: "f64_le (ms a) r" using "1.prems"(3) by simp
  then have na: "\<not> f64_lt r (ms a)" by (auto simp: float_keys)
  show ?case
  proof (cases "f64_lt (ms b) r")
    case True
    then have "f64_le (ms b) r" by (auto simp: float_keys)
    with True 1 obtain c d t where "brackets r (b # rest) c d" "unit_interval t"
      and "sample_pairs r (b # rest) = Some (Blend (ts_state c) (ts_state d) t)" by auto
    moreover from this(1) have "brackets r (a # b # rest) c d"
      unfolding brackets_def by (metis append_Cons)
    ultimately show ?thesis using True by auto
  next
    case False
    then have rb: "f64_le r (ms b)" using nr by (auto simp: float_keys)
    let ?span = "f64_of_int (ts_timeMs b - ts_timeMs a)"
    let ?t = "if f64_lt 0 ?span then f32_of_f64 (f64_div (f64_sub r (ms a)) ?span) else f32_lit 1 1"
    have ab: "\<bar>ts_timeMs a\<bar> < 2 ^ 63" "\<bar>ts_timeMs b\<bar> < 2 ^ 63" using "1.prems"(1) by auto
    have "f64_isfinite (ms a)" "f64_isfinite (ms b)" using ab by (auto intro!: f64_of_int_finite)
    then have "f64_isfinite r"
      using ar rb by (auto intro: f64_key_between simp: float_keys)
    then have "\<not> f32_isnan ?t"
      using blend_factor_not_nan [OF ab] one_not_nan by simp
    then have "unit_interval (f32_clamp ?t 0 (f32_lit 1 1))"
      unfolding unit_interval_def by (rule f32_clamp_unit)
    moreover have "brackets r (a # b # rest) a b"
      unfolding brackets_def using ar rb by (metis append_Nil)
    moreover have "sample_pairs r (a # b # rest) =
        Some (Blend (ts_state a) (ts_state b) (f32_clamp ?t 0 (f32_lit 1 1)))"
      using na False by (simp add: Let_def)
    ultimately show ?thesis by blast
  qed
qed (auto simp: float_keys)

text \<open>C31. Between the oldest and the newest snapshot, the sample is always a blend of two adjacent
  snapshots whose times bracket the render time, with a factor between 0 and 1; the loop never
  falls through to the newest snapshot.\<close>

theorem SampleAt_between:
  assumes "timeline snapshots" and "f64_lt (ms (hd snapshots)) r" and "f64_lt r (ms (last snapshots))"
  shows "\<exists>a b t. brackets r snapshots a b \<and> unit_interval t \<and>
    SampleAt snapshots r = Blend (ts_state a) (ts_state b) t"
proof -
  have ne: "snapshots \<noteq> []" and b: "\<forall>s \<in> set snapshots. \<bar>ts_timeMs s\<bar> < 2 ^ 63"
    using assms(1) by (auto simp: timeline_def)
  have "length snapshots \<noteq> 1"
    using assms(2,3) by (auto simp: float_keys length_Suc_conv)
  moreover have "\<not> f64_le r (ms (hd snapshots))" "\<not> f64_le (ms (last snapshots)) r"
    "f64_le (ms (hd snapshots)) r"
    using assms(2,3) by (auto simp: float_keys)
  moreover from this(3) obtain a b t where "brackets r snapshots a b" "unit_interval t"
    and "sample_pairs r snapshots = Some (Blend (ts_state a) (ts_state b) t)"
    using sample_pairs_bracket [OF b ne _ assms(3)] by blast
  moreover from calculation have "SampleAt snapshots r = Blend (ts_state a) (ts_state b) t"
    by (simp add: SampleAt_def)
  ultimately show ?thesis by blast
qed

theorem SampleAt_between_witness:
  "\<exists>a b t. brackets (f64_of_int 1050)
      [\<lparr>ts_state = PlayerState_default, ts_timeMs = 1000\<rparr>, \<lparr>ts_state = PlayerState_default, ts_timeMs = 1100\<rparr>] a b \<and>
    unit_interval t \<and>
    SampleAt [\<lparr>ts_state = PlayerState_default, ts_timeMs = 1000\<rparr>, \<lparr>ts_state = PlayerState_default, ts_timeMs = 1100\<rparr>]
      (f64_of_int 1050) = Blend (ts_state a) (ts_state b) t"
  by (rule SampleAt_between) (simp_all add: timeline_def float_eval)

text \<open>The fields that are never blended.\<close>

definition discrete :: "PlayerState \<Rightarrow> u32 \<times> u32 \<times> u8 \<times> f32" where
  "discrete s = (worldspaceId s, cellId s, flags s, maxHealth s)"

lemma discrete_Blend: "discrete (Blend a b t) = discrete (if f32_lt t (f32_lit 1 2) then a else b)"
  by (simp add: discrete_def Blend_def Let_def)

lemma discrete_ahead: "discrete (sample_ahead p l r) = discrete (ts_state l)"
  by (simp add: discrete_def sample_ahead_def Let_def)

lemma sample_pairs_discrete:
  "sample_pairs r snaps = Some s \<Longrightarrow> \<exists>q \<in> set snaps. discrete s = discrete (ts_state q)"
  by (induction r snaps rule: sample_pairs.induct)
    (auto simp: discrete_Blend Let_def split: if_splits)

text \<open>C32. Cell, worldspace, flags and maximal health of a sample are those of one snapshot the client
  received, together and unmixed, at every render time, NaN included.\<close>

theorem SampleAt_discrete:
  assumes "snapshots \<noteq> []"
  shows "\<exists>s \<in> set snapshots. discrete (SampleAt snapshots r) = discrete (ts_state s)"
proof (cases "sample_pairs r snapshots")
  case None
  then show ?thesis using assms hd_in_set last_in_set
    by (auto simp: SampleAt_def Let_def discrete_ahead)
next
  case (Some q)
  then show ?thesis using assms hd_in_set last_in_set sample_pairs_discrete [OF Some]
    by (auto simp: SampleAt_def Let_def discrete_ahead)
qed

theorem SampleAt_discrete_witness:
  "\<exists>s \<in> set [\<lparr>ts_state = PlayerState_default, ts_timeMs = 5\<rparr>].
     discrete (SampleAt [\<lparr>ts_state = PlayerState_default, ts_timeMs = 5\<rparr>] 0) = discrete (ts_state s)"
  by (rule SampleAt_discrete) simp

text \<open>Extrapolation stops at 150 ms.\<close>

lemma sorted_map_last: "sorted (map f xs) \<Longrightarrow> x \<in> set xs \<Longrightarrow> f x \<le> f (last xs)"
  by (induction xs) auto

lemma extrapolate_not_nan: "\<not> f64_isnan MAX_EXTRAPOLATE_MS" "0 < f64_key MAX_EXTRAPOLATE_MS"
  by (simp_all add: MAX_EXTRAPOLATE_MS_def f64_key_def float_eval)

lemma f64_min_capped: "f64_le c x \<Longrightarrow> 0 < f64_key c \<Longrightarrow> f64_min x c = c"
  using f64_key_inj [of x c] by (auto simp: f64_min_def float_keys)

definition past_cap :: "TimedState list \<Rightarrow> f64 \<Rightarrow> bool" where
  "past_cap snapshots r =
     (f64_le (ms (last snapshots)) r \<and> f64_le MAX_EXTRAPOLATE_MS (f64_sub r (ms (last snapshots))))"

lemma past_cap_beyond:
  assumes "timeline snapshots" and "past_cap snapshots r" and "s \<in> set snapshots"
  shows "\<not> f64_le r (ms s)"
proof
  assume le: "f64_le r (ms s)"
  let ?l = "last snapshots"
  have l: "?l \<in> set snapshots" "\<bar>ts_timeMs ?l\<bar> < 2 ^ 63"
    using assms(1) by (auto simp: timeline_def)
  have "ts_timeMs s \<le> ts_timeMs ?l"
    using assms(1,3) by (auto intro: sorted_map_last simp: timeline_def)
  then have "f64_key (ms s) \<le> f64_key (ms ?l)" by (rule f64_of_int_mono)
  then have eq: "f64_key r = f64_key (ms ?l)"
    using le assms(2) by (auto simp: past_cap_def float_keys)
  have fin: "f64_isfinite (ms ?l)" using l(2) by (auto intro: f64_of_int_finite)
  then have "f64_isfinite r" using eq by (simp add: f64_isfinite_key)
  then have "f64_key (f64_sub r (ms ?l)) = double.rkey 0"
    using f64_sub_finite_key [of r "ms ?l"] f64_value_eq [of r "ms ?l"] fin eq by simp
  then have "f64_key (f64_sub r (ms ?l)) = 0" by (simp add: double.rkey_def)
  then show False
    using assms(2) extrapolate_not_nan by (simp add: past_cap_def float_keys)
qed

text \<open>C33. A player whose snapshots stop coming stands still: from 150 ms past the newest snapshot on,
  every render time gives the same sample, with the yaw, health, cell and flags of that snapshot.\<close>

theorem SampleAt_capped:
  assumes "timeline snapshots" and "past_cap snapshots r" and "past_cap snapshots r'"
  shows "SampleAt snapshots r = SampleAt snapshots r' \<and>
    discrete (SampleAt snapshots r) = discrete (ts_state (last snapshots)) \<and>
    yaw (SampleAt snapshots r) = yaw (ts_state (last snapshots)) \<and>
    health (SampleAt snapshots r) = health (ts_state (last snapshots))"
proof (cases "length snapshots = 1")
  case True
  then show ?thesis by (auto simp: SampleAt_def length_Suc_conv)
next
  case False
  have "snapshots \<noteq> []" using assms(1) by (simp add: timeline_def)
  then have "\<not> f64_le x (ms (hd snapshots))" if "past_cap snapshots x" for x
    using past_cap_beyond [OF assms(1) that] by simp
  moreover have "f64_min (f64_sub x (ms (last snapshots))) MAX_EXTRAPOLATE_MS = MAX_EXTRAPOLATE_MS"
    if "past_cap snapshots x" for x
    using that extrapolate_not_nan by (simp add: past_cap_def f64_min_capped)
  ultimately show ?thesis
    using False assms(2,3) unfolding past_cap_def
    by (simp add: SampleAt_def sample_ahead_def Let_def discrete_def)
qed

theorem SampleAt_capped_witness:
  "SampleAt [\<lparr>ts_state = PlayerState_default, ts_timeMs = 1000\<rparr>, \<lparr>ts_state = PlayerState_default, ts_timeMs = 1100\<rparr>]
      (f64_of_int 1250) =
   SampleAt [\<lparr>ts_state = PlayerState_default, ts_timeMs = 1000\<rparr>, \<lparr>ts_state = PlayerState_default, ts_timeMs = 1100\<rparr>]
      (f64_of_int 9000)"
  by (rule SampleAt_capped [THEN conjunct1])
    (simp_all add: timeline_def past_cap_def MAX_EXTRAPOLATE_MS_def float_eval)

section \<open>NaN and overflow\<close>

lemma Lerp_nan: "f32_isnan t \<Longrightarrow> f32_isnan (Lerp a b t)"
  by (simp add: Lerp_def f32_add_nan f32_mul_nan)

lemma LerpAngle_nan: "f32_isnan t \<Longrightarrow> f32_isnan (LerpAngle a b t)"
  by (simp add: LerpAngle_def Let_def f32_add_nan f32_mul_nan)

definition garbled :: "PlayerState \<Rightarrow> bool" where
  "garbled s = (f32_isnan (vx (position s)) \<and> f32_isnan (vy (position s)) \<and>
     f32_isnan (vz (position s)) \<and> f32_isnan (yaw s) \<and> f32_isnan (health s))"

lemma f64_of_int_pos: "0 < i \<Longrightarrow> f64_lt 0 (f64_of_int i)"
proof -
  assume "0 < i"
  then have "f64_key (f64_of_int 1) \<le> f64_key (f64_of_int i)" by (intro f64_of_int_mono) simp
  moreover have "0 < f64_key (f64_of_int 1)" by (simp add: f64_key_def float_eval)
  ultimately show ?thesis by (simp add: float_keys f64_zero)
qed

text \<open>No comparison and no clamp of the sampler stops a NaN: with a NaN render time, two snapshots
  at different times make a sample whose position, yaw and health are all NaN.\<close>

theorem SampleAt_nan:
  assumes "f64_isnan r" and "ts_timeMs a < ts_timeMs b"
  shows "garbled (SampleAt (a # b # rest) r)"
proof -
  let ?d = "f64_div (f64_sub r (ms a)) (f64_of_int (ts_timeMs b - ts_timeMs a))"
  have "f32_isnan (f32_of_f64 ?d)"
    using assms(1) by (simp add: f32_of_f64_nan f64_div_nan f64_sub_nan)
  moreover from this have "SampleAt (a # b # rest) r = Blend (ts_state a) (ts_state b) (f32_of_f64 ?d)"
    using assms f64_nan_unordered [OF assms(1)]
    by (simp add: SampleAt_def f64_of_int_pos f32_clamp_nan Let_def)
  ultimately show ?thesis
    by (simp add: garbled_def Blend_def Let_def Lerp_nan LerpAngle_nan)
qed

theorem SampleAt_nan_witness:
  "garbled (SampleAt [\<lparr>ts_state = PlayerState_default, ts_timeMs = 1000\<rparr>,
     \<lparr>ts_state = PlayerState_default, ts_timeMs = 1100\<rparr>] 0x7FF8000000000000)"
  by (rule SampleAt_nan) (simp_all add: float_eval)

text \<open>Two finite coordinates more than the largest \<open>float\<close> apart have no finite difference, and
  the blend of them is NaN already at factor 0.\<close>

lemma Lerp_overflow:
  "f32_isfinite 0x7F7FFFFF \<and> f32_isfinite 0xFF7FFFFF \<and> f32_isnan (Lerp 0xFF7FFFFF 0x7F7FFFFF 0)"
  by (simp add: Lerp_def float_eval)

end
