(* ===== verification/F4_Packet.thy ===== *)
theory F4_Packet
  imports F4_Types "HOL-Library.State_Monad" "HOL-Library.Sublist"
begin

text \<open>
  \<open>shared/include/f4mp/Packet.hpp\<close>: the byte writer and the bounds-checked byte
  reader. A writer is its buffer and each operation appends to it. A reader is the data,
  the position and the health flag; each read is a state-monad action, and a read past
  the end clears the flag, yields zeroes and leaves the position where it is, as the
  code does.
\<close>

definition MAX_STRING_BYTES :: nat where "MAX_STRING_BYTES = 4096"

section \<open>Writer\<close>

record Writer =
  buf :: "u8 list"

definition Writer_new :: Writer where
  "Writer_new = \<lparr>buf = []\<rparr>"

definition Writer_Raw :: "u8 list \<Rightarrow> Writer \<Rightarrow> Writer" where
  "Writer_Raw bytes w = w\<lparr>buf := buf w @ bytes\<rparr>"

definition Writer_U8 :: "u8 \<Rightarrow> Writer \<Rightarrow> Writer" where
  "Writer_U8 v w = w\<lparr>buf := buf w @ [v]\<rparr>"

definition Writer_U16 :: "u16 \<Rightarrow> Writer \<Rightarrow> Writer" where
  "Writer_U16 v = Writer_Raw (le_bytes 2 (unat v))"

definition Writer_U32 :: "u32 \<Rightarrow> Writer \<Rightarrow> Writer" where
  "Writer_U32 v = Writer_Raw (le_bytes 4 (unat v))"

text \<open>An \<open>int32_t\<close> is copied as its two's complement bytes.\<close>

definition Writer_I32 :: "int \<Rightarrow> Writer \<Rightarrow> Writer" where
  "Writer_I32 v = Writer_Raw (le_bytes 4 (unat (word_of_int v :: u32)))"

definition Writer_F32 :: "f32 \<Rightarrow> Writer \<Rightarrow> Writer" where
  "Writer_F32 v = Writer_Raw (le_bytes 4 (unat v))"

definition Writer_Bool :: "bool \<Rightarrow> Writer \<Rightarrow> Writer" where
  "Writer_Bool v = Writer_U8 (if v then 1 else 0)"

text \<open>A string longer than the limit is cut, never refused.\<close>

definition Writer_Str :: "string \<Rightarrow> Writer \<Rightarrow> Writer" where
  "Writer_Str s w =
     (let len = (if MAX_STRING_BYTES < length s then MAX_STRING_BYTES else length s)
      in Writer_Raw (map byte_of_char (take len s)) (Writer_U16 (word_of_nat len) w))"

definition Writer_Take :: "Writer \<Rightarrow> u8 list" where
  "Writer_Take w = buf w"

section \<open>Reader\<close>

record Reader =
  data :: "u8 list"
  pos :: nat
  ok :: bool

definition Reader_new :: "u8 list \<Rightarrow> Reader" where
  "Reader_new bytes = \<lparr>data = bytes, pos = 0, ok = True\<rparr>"

definition Reader_Ok :: "Reader \<Rightarrow> bool" where
  "Reader_Ok r = ok r"

definition Reader_Remaining :: "Reader \<Rightarrow> nat" where
  "Reader_Remaining r = length (data r) - pos r"

definition Reader_Raw :: "nat \<Rightarrow> (Reader, u8 list) state" where
  "Reader_Raw n = State (\<lambda>r.
     if \<not> ok r \<or> Reader_Remaining r < n then (replicate n 0, r\<lparr>ok := False\<rparr>)
     else (take n (drop (pos r) (data r)), r\<lparr>pos := pos r + n\<rparr>))"

definition Reader_U8 :: "(Reader, u8) state" where
  "Reader_U8 = do { bs \<leftarrow> Reader_Raw 1; State_Monad.return (word_of_nat (le_value bs)) }"

definition Reader_U16 :: "(Reader, u16) state" where
  "Reader_U16 = do { bs \<leftarrow> Reader_Raw 2; State_Monad.return (word_of_nat (le_value bs)) }"

definition Reader_U32 :: "(Reader, u32) state" where
  "Reader_U32 = do { bs \<leftarrow> Reader_Raw 4; State_Monad.return (word_of_nat (le_value bs)) }"

definition Reader_I32 :: "(Reader, int) state" where
  "Reader_I32 =
     do { bs \<leftarrow> Reader_Raw 4; State_Monad.return (sint (word_of_nat (le_value bs) :: u32)) }"

definition Reader_F32 :: "(Reader, f32) state" where
  "Reader_F32 = do { bs \<leftarrow> Reader_Raw 4; State_Monad.return (word_of_nat (le_value bs)) }"

definition Reader_Bool :: "(Reader, bool) state" where
  "Reader_Bool = do { b \<leftarrow> Reader_U8; State_Monad.return (b \<noteq> 0) }"

definition Reader_Str :: "(Reader, string) state" where
  "Reader_Str = State (\<lambda>r0.
     let (len, r) = run_state Reader_U16 r0
     in if \<not> ok r \<or> MAX_STRING_BYTES < unat len \<or> Reader_Remaining r < unat len
        then ([], r\<lparr>ok := False\<rparr>)
        else (map char_of_byte (take (unat len) (drop (pos r) (data r))),
              r\<lparr>pos := pos r + unat len\<rparr>))"

section \<open>What the primitives do\<close>

lemma run_bind [codec_simps]:
  "run_state (State_Monad.bind m f) r = (case run_state m r of (a, r') \<Rightarrow> run_state (f a) r')"
  by (simp add: State_Monad.bind_def)

lemma run_return [codec_simps]: "run_state (State_Monad.return a) r = (a, r)"
  by (simp add: State_Monad.return_def)

lemma run_Raw [codec_simps]:
  "run_state (Reader_Raw n) r =
     (if \<not> ok r \<or> Reader_Remaining r < n then (replicate n 0, r\<lparr>ok := False\<rparr>)
      else (take n (drop (pos r) (data r)), r\<lparr>pos := pos r + n\<rparr>))"
  by (simp add: Reader_Raw_def)

text \<open>
  \<open>at_bytes pre bs post\<close> is a healthy reader that has consumed \<open>pre\<close> and has \<open>bs\<close>,
  then \<open>post\<close>, in front of it. An action \<open>parses\<close> bytes into a value when it yields
  the value and stops exactly behind them, whatever surrounds them.
\<close>

definition at_bytes :: "u8 list \<Rightarrow> u8 list \<Rightarrow> u8 list \<Rightarrow> Reader" where
  "at_bytes pre bs post = \<lparr>data = pre @ bs @ post, pos = length pre, ok = True\<rparr>"

definition parses :: "(Reader, 'a) state \<Rightarrow> u8 list \<Rightarrow> 'a \<Rightarrow> bool" where
  "parses p bs v = (\<forall>pre post. run_state p (at_bytes pre bs post) = (v, at_bytes (pre @ bs) [] post))"

text \<open>An action \<open>demands\<close> bytes when it fails on every proper prefix of them.\<close>

definition demands :: "(Reader, 'a) state \<Rightarrow> u8 list \<Rightarrow> bool" where
  "demands p bs = (\<forall>pre cs. strict_prefix cs bs \<longrightarrow> \<not> ok (snd (run_state p (at_bytes pre cs []))))"

text \<open>A failure is never forgotten, and no read leaves the data.\<close>

definition sticky :: "(Reader, 'a) state \<Rightarrow> bool" where
  "sticky p = (\<forall>r. \<not> ok r \<longrightarrow> \<not> ok (snd (run_state p r)))"

definition in_bounds :: "Reader \<Rightarrow> bool" where
  "in_bounds r = (pos r \<le> length (data r))"

definition safe_read :: "(Reader, 'a) state \<Rightarrow> bool" where
  "safe_read p = (\<forall>r. in_bounds r \<longrightarrow>
     in_bounds (snd (run_state p r)) \<and> data (snd (run_state p r)) = data r \<and>
     pos r \<le> pos (snd (run_state p r)))"

lemma at_bytes_simps [simp]:
  "data (at_bytes pre bs post) = pre @ bs @ post"
  "pos (at_bytes pre bs post) = length pre"
  "ok (at_bytes pre bs post)"
  "Reader_Remaining (at_bytes pre bs post) = length bs + length post"
  by (simp_all add: at_bytes_def Reader_Remaining_def)

lemma parsesD: "parses p bs v \<Longrightarrow> run_state p (at_bytes pre bs post) = (v, at_bytes (pre @ bs) [] post)"
  by (simp add: parses_def)

lemma at_bytes_empty_append: "at_bytes pre [] (bs @ post) = at_bytes pre bs post"
  by (simp add: at_bytes_def)

lemma at_bytes_append: "at_bytes pre (bs @ cs) post = at_bytes pre bs (cs @ post)"
  by (simp add: at_bytes_def)

lemma parses_bind:
  assumes "parses p bs v" and "parses (f v) cs w"
  shows "parses (State_Monad.bind p f) (bs @ cs) w"
  unfolding parses_def
proof (intro allI)
  fix pre post
  have "run_state p (at_bytes pre (bs @ cs) post) = (v, at_bytes (pre @ bs) [] (cs @ post))"
    using parsesD [OF assms(1)] by (simp only: at_bytes_append)
  moreover have "run_state (f v) (at_bytes (pre @ bs) [] (cs @ post)) = (w, at_bytes (pre @ bs @ cs) [] post)"
    using parsesD [OF assms(2), of "pre @ bs" post] by (simp add: at_bytes_empty_append)
  ultimately show "run_state (State_Monad.bind p f) (at_bytes pre (bs @ cs) post) =
      (w, at_bytes (pre @ bs @ cs) [] post)"
    by (simp add: run_bind)
qed

lemma parses_return: "parses (State_Monad.return v) [] v"
  by (simp add: parses_def run_return)

lemma demands_return: "demands (State_Monad.return v) []"
  by (simp add: demands_def)

lemma sticky_bind [intro]: "sticky p \<Longrightarrow> (\<And>x. sticky (f x)) \<Longrightarrow> sticky (State_Monad.bind p f)"
  unfolding sticky_def run_bind by (metis (no_types, lifting) case_prod_conv prod.collapse snd_conv)

lemma sticky_return [intro]: "sticky (State_Monad.return v)"
  by (simp add: sticky_def run_return)

lemma safe_read_bind [intro]:
  assumes "safe_read p" and "\<And>x. safe_read (f x)"
  shows "safe_read (State_Monad.bind p f)"
  unfolding safe_read_def
proof (intro allI impI)
  fix r assume r: "in_bounds r"
  obtain a r' where p: "run_state p r = (a, r')" by fastforce
  have r': "in_bounds r' \<and> data r' = data r \<and> pos r \<le> pos r'"
    using assms(1) r p unfolding safe_read_def by (metis snd_conv)
  then have "in_bounds (snd (run_state (f a) r')) \<and> data (snd (run_state (f a) r')) = data r' \<and>
      pos r' \<le> pos (snd (run_state (f a) r'))"
    using assms(2) unfolding safe_read_def by blast
  with r' show "in_bounds (snd (run_state (State_Monad.bind p f) r)) \<and>
      data (snd (run_state (State_Monad.bind p f) r)) = data r \<and>
      pos r \<le> pos (snd (run_state (State_Monad.bind p f) r))"
    by (simp add: run_bind p)
qed

lemma safe_read_return [intro]: "safe_read (State_Monad.return v)"
  by (simp add: safe_read_def run_return)

text \<open>
  Cutting the bytes of a sequence cuts either the first part, and the failure of the
  first action stays, or the second.
\<close>

lemma strict_prefix_append_cases:
  assumes "strict_prefix zs (bs @ cs)"
  obtains "strict_prefix zs bs" | ds where "zs = bs @ ds" and "strict_prefix ds cs"
  using assms by (cases "zs = bs") (auto simp: strict_prefix_def prefix_append)

lemma demands_bind:
  assumes p: "demands p bs" "parses p bs v" and f: "demands (f v) cs" "\<And>x. sticky (f x)"
  shows "demands (State_Monad.bind p f) (bs @ cs)"
  unfolding demands_def
proof (intro allI impI)
  fix pre zs assume "strict_prefix zs (bs @ cs)"
  then show "\<not> ok (snd (run_state (State_Monad.bind p f) (at_bytes pre zs [])))"
  proof (cases rule: strict_prefix_append_cases)
    case 1
    then have "\<not> ok (snd (run_state p (at_bytes pre zs [])))"
      using p(1) by (simp add: demands_def)
    with f(2) show ?thesis
      unfolding sticky_def run_bind by (metis (no_types, lifting) case_prod_conv prod.collapse snd_conv)
  next
    case (2 ds)
    have "run_state p (at_bytes pre zs []) = (v, at_bytes (pre @ bs) ds [])"
      using parsesD [OF p(2), of pre ds] 2(1) by (simp add: at_bytes_def)
    with f(1) 2(2) show ?thesis by (simp add: run_bind demands_def)
  qed
qed

section \<open>The primitives as codecs\<close>

lemma parses_Raw: "length bs = n \<Longrightarrow> parses (Reader_Raw n) bs bs"
  by (simp add: parses_def run_Raw at_bytes_def Reader_Remaining_def)

lemma demands_Raw: "length bs = n \<Longrightarrow> demands (Reader_Raw n) bs"
  by (auto simp: demands_def run_Raw dest!: prefix_length_less)

lemma sticky_Raw [intro]: "sticky (Reader_Raw n)"
  by (simp add: sticky_def run_Raw)

lemma safe_read_Raw [intro]: "safe_read (Reader_Raw n)"
  by (auto simp: safe_read_def run_Raw in_bounds_def Reader_Remaining_def)

text \<open>Reading \<open>n\<close> raw bytes and converting them is the shape of every number.\<close>

definition raw_number :: "nat \<Rightarrow> (u8 list \<Rightarrow> 'a) \<Rightarrow> (Reader, 'a) state" where
  "raw_number n g = State_Monad.bind (Reader_Raw n) (\<lambda>bs. State_Monad.return (g bs))"

lemma raw_number_parses: "length bs = n \<Longrightarrow> parses (raw_number n g) bs (g bs)"
  unfolding raw_number_def using parses_bind [OF parses_Raw parses_return] by fastforce

lemma raw_number_demands: "length bs = n \<Longrightarrow> demands (raw_number n g) bs"
  unfolding raw_number_def
  using demands_bind [OF demands_Raw parses_Raw demands_return sticky_return] by fastforce

lemma raw_number_sticky [intro]: "sticky (raw_number n g)"
  unfolding raw_number_def by auto

lemma raw_number_safe [intro]: "safe_read (raw_number n g)"
  unfolding raw_number_def by auto

lemma Reader_numbers:
  "Reader_U8 = raw_number 1 (\<lambda>bs. word_of_nat (le_value bs))"
  "Reader_U16 = raw_number 2 (\<lambda>bs. word_of_nat (le_value bs))"
  "Reader_U32 = raw_number 4 (\<lambda>bs. word_of_nat (le_value bs))"
  "Reader_F32 = raw_number 4 (\<lambda>bs. word_of_nat (le_value bs))"
  "Reader_I32 = raw_number 4 (\<lambda>bs. sint (word_of_nat (le_value bs) :: u32))"
  by (simp_all add: raw_number_def Reader_U8_def Reader_U16_def Reader_U32_def Reader_F32_def
      Reader_I32_def)

section \<open>The codec interface\<close>

text \<open>
  What every pair of a \<open>Write\<close> and a \<open>Read\<close> promises: writing appends, reading back
  what was written gives the value (strings cut to the limit, hence \<open>canon\<close>) and
  consumes exactly those bytes, a truncated image fails, and a failure is final.
\<close>

locale codec =
  fixes wr :: "'a \<Rightarrow> Writer \<Rightarrow> Writer"
    and rd :: "(Reader, 'b) state"
    and canon :: "'a \<Rightarrow> 'b"
  assumes write_append: "buf (wr x w) = buf w @ buf (wr x Writer_new)"
    and read_parses: "parses rd (buf (wr x Writer_new)) (canon x)"
    and read_demands: "demands rd (buf (wr x Writer_new))"
    and read_sticky: "sticky rd"
    and read_safe: "safe_read rd"
begin

lemma read_back:
  "run_state rd (Reader_new (buf (wr x Writer_new) @ rest)) =
    (canon x, \<lparr>data = buf (wr x Writer_new) @ rest, pos = length (buf (wr x Writer_new)), ok = True\<rparr>)"
  using parsesD [OF read_parses, of "[]" x rest] by (simp add: at_bytes_def Reader_new_def)

lemma read_truncated:
  assumes "n < length (buf (wr x Writer_new))"
  shows "\<not> ok (snd (run_state rd (Reader_new (take n (buf (wr x Writer_new))))))"
proof -
  have "strict_prefix (take n (buf (wr x Writer_new))) (buf (wr x Writer_new))"
    using assms by (auto simp: strict_prefix_def take_is_prefix dest: arg_cong [of _ _ length])
  then have "\<not> ok (snd (run_state rd (at_bytes [] (take n (buf (wr x Writer_new))) [])))"
    using read_demands unfolding demands_def by blast
  then show ?thesis by (simp add: at_bytes_def Reader_new_def)
qed

lemma write_inj: "buf (wr x Writer_new) = buf (wr y Writer_new) \<Longrightarrow> canon x = canon y"
  using read_back [of x "[]"] read_back [of y "[]"] by simp

lemma write_prefix_free:
  assumes "buf (wr x Writer_new) @ r = buf (wr y Writer_new) @ r'"
  shows "canon x = canon y"
  using read_back [of x r] read_back [of y r'] assms by simp

end

lemma word_le_value_le_bytes:
  "word_of_nat (le_value (le_bytes n (unat (w :: 'a::len word)))) = w" if "LENGTH('a) \<le> 8 * n"
proof -
  have "unat w < 2 ^ LENGTH('a)" by (rule unsigned_less)
  also have "(2::nat) ^ LENGTH('a) \<le> 2 ^ (8 * n)"
    using that by (intro power_increasing) auto
  also have "\<dots> = 256 ^ n" by (simp add: power_mult)
  finally show ?thesis by (simp add: le_value_le_bytes)
qed

lemma raw_number_codec:
  assumes "\<And>x w. wr x w = w\<lparr>buf := buf w @ image_of x\<rparr>"
    and "\<And>x. length (image_of x) = n" and "\<And>x. g (image_of x) = canon x"
  shows "codec wr (raw_number n g) canon"
proof unfold_locales
  fix x w
  have b: "buf (wr x Writer_new) = image_of x" by (simp add: assms(1) Writer_new_def)
  show "buf (wr x w) = buf w @ buf (wr x Writer_new)" by (simp add: b) (simp add: assms(1))
  show "parses (raw_number n g) (buf (wr x Writer_new)) (canon x)"
    using raw_number_parses [OF assms(2), of g x] by (simp add: b assms(3))
  show "demands (raw_number n g) (buf (wr x Writer_new))"
    using raw_number_demands [OF assms(2)] by (simp add: b)
qed auto

interpretation u8: codec Writer_U8 Reader_U8 "\<lambda>x. x"
  unfolding Reader_numbers by (rule raw_number_codec) (auto simp: Writer_U8_def)

interpretation u16: codec Writer_U16 Reader_U16 "\<lambda>x. x"
  unfolding Reader_numbers
  by (rule raw_number_codec) (auto simp: Writer_U16_def Writer_Raw_def word_le_value_le_bytes)

interpretation u32: codec Writer_U32 Reader_U32 "\<lambda>x. x"
  unfolding Reader_numbers
  by (rule raw_number_codec) (auto simp: Writer_U32_def Writer_Raw_def word_le_value_le_bytes)

interpretation f32: codec Writer_F32 Reader_F32 "\<lambda>x. x"
  unfolding Reader_numbers
  by (rule raw_number_codec) (auto simp: Writer_F32_def Writer_Raw_def word_le_value_le_bytes)

text \<open>An \<open>int32_t\<close> comes back as itself; an integer outside its range wraps first.\<close>

interpretation i32: codec Writer_I32 Reader_I32 "\<lambda>x. sint (word_of_int x :: u32)"
  unfolding Reader_numbers
  by (rule raw_number_codec) (auto simp: Writer_I32_def Writer_Raw_def word_le_value_le_bytes)

interpretation bool: codec Writer_Bool Reader_Bool "\<lambda>x. x"
proof unfold_locales
  fix x :: bool and w
  have n: "(if x then 1 else 0 :: u8) \<noteq> 0 \<longleftrightarrow> x" by simp
  show "buf (Writer_Bool x w) = buf w @ buf (Writer_Bool x Writer_new)"
    unfolding Writer_Bool_def by (rule u8.write_append)
  have "parses Reader_Bool (buf (Writer_U8 (if x then 1 else 0) Writer_new) @ [])
      ((if x then 1 else 0 :: u8) \<noteq> 0)"
    unfolding Reader_Bool_def by (rule parses_bind [OF u8.read_parses parses_return])
  then show "parses Reader_Bool (buf (Writer_Bool x Writer_new)) x"
    by (simp only: n Writer_Bool_def append_Nil2)
  have "demands Reader_Bool (buf (Writer_U8 (if x then 1 else 0) Writer_new) @ [])"
    unfolding Reader_Bool_def
    by (rule demands_bind [OF u8.read_demands u8.read_parses demands_return sticky_return])
  then show "demands Reader_Bool (buf (Writer_Bool x Writer_new))"
    by (simp only: Writer_Bool_def append_Nil2)
qed (auto simp: Reader_Bool_def u8.read_sticky u8.read_safe)

section \<open>Strings\<close>

definition cut :: "string \<Rightarrow> string" where
  "cut s = take MAX_STRING_BYTES s"

lemma cut_length: "length (cut s) \<le> MAX_STRING_BYTES"
  by (simp add: cut_def)

lemma cut_id: "length s \<le> MAX_STRING_BYTES \<Longrightarrow> cut s = s"
  by (simp add: cut_def)

lemma cut_idem [simp]: "cut (cut s) = cut s"
  by (simp add: cut_def)

lemma Writer_Str_cut:
  "Writer_Str s w =
    Writer_Raw (map byte_of_char (cut s)) (Writer_U16 (word_of_nat (length (cut s))) w)"
  by (simp add: Writer_Str_def cut_def Let_def min_def)

lemma unat_cut_length: "unat (word_of_nat (length (cut s)) :: u16) = length (cut s)"
  using cut_length [of s] by (simp add: unat_of_nat MAX_STRING_BYTES_def)

lemma buf_Writer_Str:
  "buf (Writer_Str s w) =
    buf w @ buf (Writer_U16 (word_of_nat (length (cut s))) Writer_new) @ map byte_of_char (cut s)"
  by (simp add: Writer_Str_cut Writer_Raw_def u16.write_append [of _ w])

text \<open>The reader's string action is the length, then that many bytes.\<close>

definition Reader_Str_body :: "u16 \<Rightarrow> (Reader, string) state" where
  "Reader_Str_body len = State (\<lambda>r.
     if \<not> ok r \<or> MAX_STRING_BYTES < unat len \<or> Reader_Remaining r < unat len
     then ([], r\<lparr>ok := False\<rparr>)
     else (map char_of_byte (take (unat len) (drop (pos r) (data r))), r\<lparr>pos := pos r + unat len\<rparr>))"

lemma Reader_Str_bind: "Reader_Str = State_Monad.bind Reader_U16 Reader_Str_body"
  by (simp add: Reader_Str_def Reader_Str_body_def State_Monad.bind_def Let_def)

lemma Str_body_sticky [intro]: "sticky (Reader_Str_body len)"
  by (simp add: sticky_def Reader_Str_body_def)

lemma Str_body_safe [intro]: "safe_read (Reader_Str_body len)"
  by (auto simp: safe_read_def Reader_Str_body_def in_bounds_def Reader_Remaining_def)

lemma Str_body_parses:
  assumes "length s \<le> MAX_STRING_BYTES" and "unat len = length s"
  shows "parses (Reader_Str_body len) (map byte_of_char s) s"
  using assms by (simp add: parses_def Reader_Str_body_def at_bytes_def Reader_Remaining_def comp_def)

lemma Str_body_demands:
  assumes "unat len = length s"
  shows "demands (Reader_Str_body len) (map byte_of_char s)"
  using assms by (auto simp: demands_def Reader_Str_body_def dest!: prefix_length_less)

interpretation str: codec Writer_Str Reader_Str cut
proof unfold_locales
  fix s w
  let ?len = "word_of_nat (length (cut s)) :: u16"
  have b: "buf (Writer_Str s Writer_new) = buf (Writer_U16 ?len Writer_new) @ map byte_of_char (cut s)"
    by (simp add: buf_Writer_Str Writer_new_def)
  show "buf (Writer_Str s w) = buf w @ buf (Writer_Str s Writer_new)"
    unfolding b by (rule buf_Writer_Str)
  have p: "parses (Reader_Str_body ?len) (map byte_of_char (cut s)) (cut s)"
    using cut_length unat_cut_length by (rule Str_body_parses)
  show "parses Reader_Str (buf (Writer_Str s Writer_new)) (cut s)"
    unfolding b Reader_Str_bind using u16.read_parses p by (rule parses_bind)
  show "demands Reader_Str (buf (Writer_Str s Writer_new))"
    unfolding b Reader_Str_bind
    using u16.read_demands u16.read_parses Str_body_demands [OF unat_cut_length] Str_body_sticky
    by (rule demands_bind)
qed (auto simp: Reader_Str_bind u16.read_sticky u16.read_safe)

text \<open>A string on the wire is its length and at most 4096 bytes.\<close>

lemma Writer_Str_length: "length (buf (Writer_Str s w)) = length (buf w) + 2 + length (cut s)"
  by (simp add: buf_Writer_Str Writer_U16_def Writer_Raw_def Writer_new_def)

text \<open>The string read never exceeds the limit, whatever the bytes are.\<close>

lemma Reader_Str_bounded: "length (fst (run_state Reader_Str r)) \<le> MAX_STRING_BYTES"
  by (auto simp: Reader_Str_def min_def split: prod.split)

end
