(* ===== verification/F4_Protocol.thy ===== *)
theory F4_Protocol
  imports F4_Packet
begin

text \<open>
  \<open>shared/include/f4mp/Protocol.hpp\<close>: the wire protocol. Every message is a record with
  its \<open>Write\<close> and \<open>Read\<close>, in the order of the source; \<open>Read\<close> fills the fields and
  returns the reader's health. What the template \<open>Encode\<close> and the receiving code rely
  on is the interface \<open>message\<close> of the theory F4_ProtocolFacts.
\<close>

definition PROTOCOL_VERSION :: u32 where "PROTOCOL_VERSION = 3"
definition DEFAULT_PORT :: u16 where "DEFAULT_PORT = 27015"
definition MAX_PLAYER_NAME :: nat where "MAX_PLAYER_NAME = 32"
definition MAX_CHAT_BYTES :: nat where "MAX_CHAT_BYTES = 512"

datatype Channel = kReliable | kUnreliable | kCount

text \<open>Its number, as \<open>static_cast\<close> gives it.\<close>

definition channel_number :: "Channel \<Rightarrow> u8" where
  "channel_number c = (case c of kReliable \<Rightarrow> 0 | kUnreliable \<Rightarrow> 1 | kCount \<Rightarrow> 2)"

text \<open>
  \<open>MsgId\<close> has the fixed underlying type \<open>uint8_t\<close>, so any byte off the wire is a value
  of it: it is a byte with named constants.
\<close>

type_synonym MsgId = u8

definition kHello :: MsgId where "kHello = 1"
definition kPlayerState :: MsgId where "kPlayerState = 2"
definition kChat :: MsgId where "kChat = 3"
definition kSetName :: MsgId where "kSetName = 4"
definition kWelcome :: MsgId where "kWelcome = 64"
definition kReject :: MsgId where "kReject = 65"
definition kPlayerJoined :: MsgId where "kPlayerJoined = 66"
definition kPlayerLeft :: MsgId where "kPlayerLeft = 67"
definition kPlayerStateUpdate :: MsgId where "kPlayerStateUpdate = 68"
definition kChatBroadcast :: MsgId where "kChatBroadcast = 69"
definition kPlayerRenamed :: MsgId where "kPlayerRenamed = 70"

lemmas client_msg_ids = kHello_def kPlayerState_def kChat_def kSetName_def
lemmas server_msg_ids = kWelcome_def kReject_def kPlayerJoined_def kPlayerLeft_def
  kPlayerStateUpdate_def kChatBroadcast_def kPlayerRenamed_def

section \<open>Common structures\<close>

definition WriteVec3 :: "Vec3 \<Rightarrow> Writer \<Rightarrow> Writer" where
  "WriteVec3 v w = Writer_F32 (vz v) (Writer_F32 (vy v) (Writer_F32 (vx v) w))"

definition ReadVec3 :: "(Reader, Vec3) state" where
  "ReadVec3 = do {
     x \<leftarrow> Reader_F32;
     y \<leftarrow> Reader_F32;
     z \<leftarrow> Reader_F32;
     State_Monad.return \<lparr>vx = x, vy = y, vz = z\<rparr> }"

definition WritePlayerState :: "PlayerState \<Rightarrow> Writer \<Rightarrow> Writer" where
  "WritePlayerState s w =
     (let w = WriteVec3 (position s) w;
          w = Writer_F32 (yaw s) w;
          w = Writer_U32 (worldspaceId s) w;
          w = Writer_U32 (cellId s) w;
          w = Writer_U8 (flags s) w;
          w = Writer_F32 (health s) w
      in Writer_F32 (maxHealth s) w)"

definition ReadPlayerState :: "(Reader, PlayerState) state" where
  "ReadPlayerState = do {
     p \<leftarrow> ReadVec3;
     y \<leftarrow> Reader_F32;
     ws \<leftarrow> Reader_U32;
     c \<leftarrow> Reader_U32;
     fl \<leftarrow> Reader_U8;
     h \<leftarrow> Reader_F32;
     mh \<leftarrow> Reader_F32;
     State_Monad.return \<lparr>position = p, yaw = y, worldspaceId = ws, cellId = c, flags = fl,
       health = h, maxHealth = mh\<rparr> }"

text \<open>The health of the reader, which every \<open>Read\<close> returns.\<close>

definition Reader_get_Ok :: "(Reader, bool) state" where
  "Reader_get_Ok = State (\<lambda>r. (Reader_Ok r, r))"

section \<open>Client to server\<close>

record HelloMsg =
  hello_protocolVersion :: u32
  hello_gameVersion :: u32
  hello_name :: string

definition HelloMsg_Write :: "HelloMsg \<Rightarrow> Writer \<Rightarrow> Writer" where
  "HelloMsg_Write m w =
     Writer_Str (hello_name m) (Writer_U32 (hello_gameVersion m) (Writer_U32 (hello_protocolVersion m) w))"

definition HelloMsg_Read :: "(Reader, HelloMsg \<times> bool) state" where
  "HelloMsg_Read = do {
     v \<leftarrow> Reader_U32;
     g \<leftarrow> Reader_U32;
     n \<leftarrow> Reader_Str;
     b \<leftarrow> Reader_get_Ok;
     State_Monad.return (\<lparr>hello_protocolVersion = v, hello_gameVersion = g, hello_name = n\<rparr>, b) }"

record PlayerStateMsg =
  psm_state :: PlayerState

definition PlayerStateMsg_Write :: "PlayerStateMsg \<Rightarrow> Writer \<Rightarrow> Writer" where
  "PlayerStateMsg_Write m w = WritePlayerState (psm_state m) w"

definition PlayerStateMsg_Read :: "(Reader, PlayerStateMsg \<times> bool) state" where
  "PlayerStateMsg_Read = do {
     s \<leftarrow> ReadPlayerState;
     b \<leftarrow> Reader_get_Ok;
     State_Monad.return (\<lparr>psm_state = s\<rparr>, b) }"

record ChatMsg =
  chat_text :: string

definition ChatMsg_Write :: "ChatMsg \<Rightarrow> Writer \<Rightarrow> Writer" where
  "ChatMsg_Write m w = Writer_Str (chat_text m) w"

definition ChatMsg_Read :: "(Reader, ChatMsg \<times> bool) state" where
  "ChatMsg_Read = do {
     t \<leftarrow> Reader_Str;
     b \<leftarrow> Reader_get_Ok;
     State_Monad.return (\<lparr>chat_text = t\<rparr>, b) }"

record SetNameMsg =
  setname_name :: string

definition SetNameMsg_Write :: "SetNameMsg \<Rightarrow> Writer \<Rightarrow> Writer" where
  "SetNameMsg_Write m w = Writer_Str (setname_name m) w"

definition SetNameMsg_Read :: "(Reader, SetNameMsg \<times> bool) state" where
  "SetNameMsg_Read = do {
     n \<leftarrow> Reader_Str;
     b \<leftarrow> Reader_get_Ok;
     State_Monad.return (\<lparr>setname_name = n\<rparr>, b) }"

section \<open>Server to client\<close>

record WelcomeMsg =
  welcome_id :: PlayerId
  welcome_tickRate :: u8
  welcome_serverName :: string
  welcome_motd :: string

definition WelcomeMsg_Write :: "WelcomeMsg \<Rightarrow> Writer \<Rightarrow> Writer" where
  "WelcomeMsg_Write m w =
     (let w = Writer_U32 (welcome_id m) w;
          w = Writer_U8 (welcome_tickRate m) w;
          w = Writer_Str (welcome_serverName m) w
      in Writer_Str (welcome_motd m) w)"

definition WelcomeMsg_Read :: "(Reader, WelcomeMsg \<times> bool) state" where
  "WelcomeMsg_Read = do {
     i \<leftarrow> Reader_U32;
     t \<leftarrow> Reader_U8;
     n \<leftarrow> Reader_Str;
     m \<leftarrow> Reader_Str;
     b \<leftarrow> Reader_get_Ok;
     State_Monad.return
       (\<lparr>welcome_id = i, welcome_tickRate = t, welcome_serverName = n, welcome_motd = m\<rparr>, b) }"

record RejectMsg =
  reject_reason :: string

definition RejectMsg_Write :: "RejectMsg \<Rightarrow> Writer \<Rightarrow> Writer" where
  "RejectMsg_Write m w = Writer_Str (reject_reason m) w"

definition RejectMsg_Read :: "(Reader, RejectMsg \<times> bool) state" where
  "RejectMsg_Read = do {
     t \<leftarrow> Reader_Str;
     b \<leftarrow> Reader_get_Ok;
     State_Monad.return (\<lparr>reject_reason = t\<rparr>, b) }"

record PlayerJoinedMsg =
  joined_id :: PlayerId
  joined_name :: string

definition PlayerJoinedMsg_Write :: "PlayerJoinedMsg \<Rightarrow> Writer \<Rightarrow> Writer" where
  "PlayerJoinedMsg_Write m w = Writer_Str (joined_name m) (Writer_U32 (joined_id m) w)"

definition PlayerJoinedMsg_Read :: "(Reader, PlayerJoinedMsg \<times> bool) state" where
  "PlayerJoinedMsg_Read = do {
     i \<leftarrow> Reader_U32;
     n \<leftarrow> Reader_Str;
     b \<leftarrow> Reader_get_Ok;
     State_Monad.return (\<lparr>joined_id = i, joined_name = n\<rparr>, b) }"

record PlayerLeftMsg =
  left_id :: PlayerId

definition PlayerLeftMsg_Write :: "PlayerLeftMsg \<Rightarrow> Writer \<Rightarrow> Writer" where
  "PlayerLeftMsg_Write m w = Writer_U32 (left_id m) w"

definition PlayerLeftMsg_Read :: "(Reader, PlayerLeftMsg \<times> bool) state" where
  "PlayerLeftMsg_Read = do {
     i \<leftarrow> Reader_U32;
     b \<leftarrow> Reader_get_Ok;
     State_Monad.return (\<lparr>left_id = i\<rparr>, b) }"

record PlayerStateUpdateMsg =
  psu_id :: PlayerId
  psu_timeMs :: u32
  psu_state :: PlayerState

definition PlayerStateUpdateMsg_Write :: "PlayerStateUpdateMsg \<Rightarrow> Writer \<Rightarrow> Writer" where
  "PlayerStateUpdateMsg_Write m w =
     WritePlayerState (psu_state m) (Writer_U32 (psu_timeMs m) (Writer_U32 (psu_id m) w))"

definition PlayerStateUpdateMsg_Read :: "(Reader, PlayerStateUpdateMsg \<times> bool) state" where
  "PlayerStateUpdateMsg_Read = do {
     i \<leftarrow> Reader_U32;
     t \<leftarrow> Reader_U32;
     s \<leftarrow> ReadPlayerState;
     b \<leftarrow> Reader_get_Ok;
     State_Monad.return (\<lparr>psu_id = i, psu_timeMs = t, psu_state = s\<rparr>, b) }"

record ChatBroadcastMsg =
  cb_from :: PlayerId
  cb_text :: string

definition ChatBroadcastMsg_Write :: "ChatBroadcastMsg \<Rightarrow> Writer \<Rightarrow> Writer" where
  "ChatBroadcastMsg_Write m w = Writer_Str (cb_text m) (Writer_U32 (cb_from m) w)"

definition ChatBroadcastMsg_Read :: "(Reader, ChatBroadcastMsg \<times> bool) state" where
  "ChatBroadcastMsg_Read = do {
     f \<leftarrow> Reader_U32;
     t \<leftarrow> Reader_Str;
     b \<leftarrow> Reader_get_Ok;
     State_Monad.return (\<lparr>cb_from = f, cb_text = t\<rparr>, b) }"

record PlayerRenamedMsg =
  renamed_id :: PlayerId
  renamed_name :: string

definition PlayerRenamedMsg_Write :: "PlayerRenamedMsg \<Rightarrow> Writer \<Rightarrow> Writer" where
  "PlayerRenamedMsg_Write m w = Writer_Str (renamed_name m) (Writer_U32 (renamed_id m) w)"

definition PlayerRenamedMsg_Read :: "(Reader, PlayerRenamedMsg \<times> bool) state" where
  "PlayerRenamedMsg_Read = do {
     i \<leftarrow> Reader_U32;
     n \<leftarrow> Reader_Str;
     b \<leftarrow> Reader_get_Ok;
     State_Monad.return (\<lparr>renamed_id = i, renamed_name = n\<rparr>, b) }"

section \<open>Helpers\<close>

text \<open>The template \<open>Encode\<close>: its parameters are the message's \<open>ID\<close> and \<open>Write\<close>.\<close>

definition Encode :: "MsgId \<Rightarrow> ('a \<Rightarrow> Writer \<Rightarrow> Writer) \<Rightarrow> 'a \<Rightarrow> u8 list" where
  "Encode ident wr m = Writer_Take (wr m (Writer_U8 ident Writer_new))"

definition ReadHeader :: "(Reader, MsgId \<times> bool) state" where
  "ReadHeader = do {
     i \<leftarrow> Reader_U8;
     b \<leftarrow> Reader_get_Ok;
     State_Monad.return (i, b) }"

definition printable :: "char \<Rightarrow> bool" where
  "printable c = (let uc = (of_char c :: nat) in 0x20 \<le> uc \<and> uc < 0x7F)"

definition SanitizeName :: "string \<Rightarrow> string" where
  "SanitizeName name =
     (let out = filter printable name;
          out = (if MAX_PLAYER_NAME < length out then take MAX_PLAYER_NAME out else out);
          out = rev (dropWhile (\<lambda>c. c = CHR '' '') (rev out));
          out = dropWhile (\<lambda>c. c = CHR '' '') out
      in if out = [] then ''Wastelander'' else out)"

end
