(* ===== verification/F4_ProtocolFacts.thy ===== *)
theory F4_ProtocolFacts
  imports F4_Protocol
begin

text \<open>
  The protocol's messages are codecs: what \<open>Write\<close> appends, \<open>Read\<close> takes back, with
  strings cut to the limit; a truncated message is refused. The interface
  \<open>message\<close> adds the id byte of \<open>Encode\<close> and \<open>ReadHeader\<close>, and each of the eleven
  messages is interpreted. The last part is about \<open>SanitizeName\<close>.
\<close>

named_theorems coded_intros \<open>which bytes an action reads as which value\<close>
named_theorems image_simps \<open>what a write operation appends\<close>

section \<open>Actions over images\<close>

definition coded :: "(Reader, 'a) state \<Rightarrow> u8 list \<Rightarrow> 'a \<Rightarrow> bool" where
  "coded p bs v = (parses p bs v \<and> demands p bs \<and> sticky p \<and> safe_read p)"

lemma coded_bind:
  assumes "coded p bs v" and "coded (f v) cs w"
    and "\<And>x. sticky (f x)" and "\<And>x. safe_read (f x)"
  shows "coded (State_Monad.bind p f) (bs @ cs) w"
  using assms unfolding coded_def by (blast intro: parses_bind demands_bind)

lemma coded_return: "coded (State_Monad.return v) [] v"
  unfolding coded_def by (auto intro: parses_return demands_return)

lemma get_Ok_sticky [intro]: "sticky Reader_get_Ok"
  by (simp add: sticky_def Reader_get_Ok_def)

lemma get_Ok_safe [intro]: "safe_read Reader_get_Ok"
  by (simp add: safe_read_def Reader_get_Ok_def)

lemma coded_get_Ok: "coded Reader_get_Ok [] True"
proof -
  have "parses Reader_get_Ok [] True" and "demands Reader_get_Ok []"
    by (simp_all add: parses_def demands_def Reader_get_Ok_def Reader_Ok_def at_bytes_def)
  then show ?thesis by (auto simp: coded_def)
qed

lemma coded_health:
  assumes "coded (f True) cs w" and "\<And>b. sticky (f b)" and "\<And>b. safe_read (f b)"
  shows "coded (State_Monad.bind Reader_get_Ok f) cs w"
  using coded_bind [OF coded_get_Ok, of f cs w] assms by simp

definition str_image :: "string \<Rightarrow> u8 list" where
  "str_image s = le_bytes 2 (length (cut s)) @ map byte_of_char (cut s)"

definition vec3_image :: "Vec3 \<Rightarrow> u8 list" where
  "vec3_image v = le_bytes 4 (unat (vx v)) @ le_bytes 4 (unat (vy v)) @ le_bytes 4 (unat (vz v))"

definition state_image :: "PlayerState \<Rightarrow> u8 list" where
  "state_image s =
     vec3_image (position s) @ le_bytes 4 (unat (yaw s)) @ le_bytes 4 (unat (worldspaceId s)) @
     le_bytes 4 (unat (cellId s)) @ [flags s] @ le_bytes 4 (unat (health s)) @
     le_bytes 4 (unat (maxHealth s))"

lemma buf_new [image_simps, simp]: "buf Writer_new = []"
  by (simp add: Writer_new_def)

lemma buf_U8 [image_simps]: "buf (Writer_U8 v w) = buf w @ [v]"
  by (simp add: Writer_U8_def)

lemma buf_U16 [image_simps]: "buf (Writer_U16 v w) = buf w @ le_bytes 2 (unat v)"
  by (simp add: Writer_U16_def Writer_Raw_def)

lemma buf_U32 [image_simps]: "buf (Writer_U32 v w) = buf w @ le_bytes 4 (unat v)"
  by (simp add: Writer_U32_def Writer_Raw_def)

lemma buf_F32 [image_simps]: "buf (Writer_F32 v w) = buf w @ le_bytes 4 (unat v)"
  by (simp add: Writer_F32_def Writer_Raw_def)

lemma buf_Str [image_simps]: "buf (Writer_Str s w) = buf w @ str_image s"
  unfolding buf_Writer_Str buf_U16 unat_cut_length str_image_def by simp

lemma buf_Vec3 [image_simps]: "buf (WriteVec3 v w) = buf w @ vec3_image v"
  by (simp add: WriteVec3_def image_simps vec3_image_def)

lemma buf_PlayerState [image_simps]: "buf (WritePlayerState s w) = buf w @ state_image s"
  by (simp add: WritePlayerState_def image_simps state_image_def Let_def)

lemma codec_coded: "codec wr rd canon \<Longrightarrow> coded rd (buf (wr x Writer_new)) (canon x)"
  unfolding codec_def coded_def by blast

lemma coded_U8 [coded_intros]: "coded Reader_U8 [v] v"
  using codec_coded [OF u8.codec_axioms, of v] by (simp add: image_simps)

lemma coded_U32 [coded_intros]: "coded Reader_U32 (le_bytes 4 (unat v)) v"
  using codec_coded [OF u32.codec_axioms, of v] by (simp add: image_simps)

lemma coded_F32 [coded_intros]: "coded Reader_F32 (le_bytes 4 (unat v)) v"
  using codec_coded [OF f32.codec_axioms, of v] by (simp add: image_simps)

lemma coded_Str [coded_intros]: "coded Reader_Str (str_image s) (cut s)"
  using codec_coded [OF str.codec_axioms, of s] by (simp add: image_simps)

lemmas coded_steps = coded_return coded_health
  coded_bind [OF coded_U8] coded_bind [OF coded_U32] coded_bind [OF coded_F32] coded_bind [OF coded_Str]

lemmas reads_intros = sticky_bind sticky_return safe_read_bind safe_read_return
  get_Ok_sticky get_Ok_safe
  u8.read_sticky u8.read_safe u32.read_sticky u32.read_safe f32.read_sticky f32.read_safe
  str.read_sticky str.read_safe

lemma coded_Vec3 [coded_intros]: "coded ReadVec3 (vec3_image v) v"
proof -
  have "coded ReadVec3
      (le_bytes 4 (unat (vx v)) @ le_bytes 4 (unat (vy v)) @ le_bytes 4 (unat (vz v)) @ [])
      \<lparr>vx = vx v, vy = vy v, vz = vz v\<rparr>"
    unfolding ReadVec3_def by (rule coded_steps | (intro reads_intros; fail))+
  moreover have "\<lparr>vx = vx v, vy = vy v, vz = vz v\<rparr> = v" by (cases v) simp
  ultimately show ?thesis by (simp add: vec3_image_def)
qed

lemma ReadVec3_reads: "sticky ReadVec3" "safe_read ReadVec3"
  using coded_Vec3 unfolding coded_def by blast+

lemma coded_PlayerState [coded_intros]: "coded ReadPlayerState (state_image s) s"
proof -
  have "coded ReadPlayerState
      (vec3_image (position s) @ le_bytes 4 (unat (yaw s)) @ le_bytes 4 (unat (worldspaceId s)) @
       le_bytes 4 (unat (cellId s)) @ [flags s] @ le_bytes 4 (unat (health s)) @
       le_bytes 4 (unat (maxHealth s)) @ [])
      \<lparr>position = position s, yaw = yaw s, worldspaceId = worldspaceId s, cellId = cellId s,
       flags = flags s, health = health s, maxHealth = maxHealth s\<rparr>"
    unfolding ReadPlayerState_def
    by (rule coded_steps coded_bind [OF coded_Vec3] | (intro reads_intros ReadVec3_reads; fail))+
  moreover have "\<lparr>position = position s, yaw = yaw s, worldspaceId = worldspaceId s,
      cellId = cellId s, flags = flags s, health = health s, maxHealth = maxHealth s\<rparr> = s"
    by (cases s) simp
  ultimately show ?thesis by (simp add: state_image_def)
qed

lemma ReadPlayerState_reads: "sticky ReadPlayerState" "safe_read ReadPlayerState"
  using coded_PlayerState unfolding coded_def by blast+

interpretation vec3: codec WriteVec3 ReadVec3 "\<lambda>v. v"
  using coded_Vec3 by unfold_locales (auto simp: image_simps coded_def)

interpretation state: codec WritePlayerState ReadPlayerState "\<lambda>s. s"
  using coded_PlayerState by unfold_locales (auto simp: image_simps coded_def)

section \<open>Messages\<close>

text \<open>
  Receiving as every handler does it: the header, then the body; \<open>None\<close> when either
  reports a failure.
\<close>

definition receive :: "(Reader, 'a \<times> bool) state \<Rightarrow> u8 list \<Rightarrow> (MsgId \<times> 'a) option" where
  "receive rd bytes =
     (let ((i, b), r) = run_state ReadHeader (Reader_new bytes)
      in if \<not> b then None
         else let ((m, b'), r') = run_state rd r in if b' then Some (i, m) else None)"

definition healthy_result :: "(Reader, 'a \<times> bool) state \<Rightarrow> bool" where
  "healthy_result rd = (\<forall>r m b r'. run_state rd r = ((m, b), r') \<longrightarrow> b = ok r')"

lemma healthy_return:
  "healthy_result (State_Monad.bind Reader_get_Ok (\<lambda>b. State_Monad.return (m, b)))"
  by (auto simp: healthy_result_def run_bind run_return Reader_get_Ok_def Reader_Ok_def)

lemma healthy_bind:
  assumes "\<And>x. healthy_result (f x)"
  shows "healthy_result (State_Monad.bind p f)"
  using assms by (auto simp: healthy_result_def run_bind split: prod.splits)

locale message = codec wr rd "\<lambda>m. (canon m, True)"
  for wr :: "'a \<Rightarrow> Writer \<Rightarrow> Writer" and rd :: "(Reader, 'a \<times> bool) state" and canon :: "'a \<Rightarrow> 'a" +
  fixes ident :: MsgId
  assumes health: "healthy_result rd"
begin

lemma Encode_image: "Encode ident wr m = ident # buf (wr m Writer_new)"
  using write_append [of m "Writer_U8 ident Writer_new"]
  by (simp add: Encode_def Writer_Take_def buf_U8)

lemma header_Encode:
  "run_state ReadHeader (Reader_new (ident # bs)) =
    ((ident, True), at_bytes [ident] bs [])"
  by (simp add: ReadHeader_def run_bind run_return Reader_U8_def run_Raw Reader_new_def
      Reader_get_Ok_def Reader_Ok_def Reader_Remaining_def at_bytes_def)

lemma body_Encode:
  "run_state rd (at_bytes [ident] (buf (wr m Writer_new)) []) =
    ((canon m, True), at_bytes (ident # buf (wr m Writer_new)) [] [])"
  using parsesD [OF read_parses, of "[ident]" m "[]"] by simp

lemma receive_Encode: "receive rd (Encode ident wr m) = Some (ident, canon m)"
  unfolding Encode_image receive_def header_Encode Let_def by (simp add: body_Encode)

lemma receive_truncated:
  assumes "n < length (Encode ident wr m)"
  shows "receive rd (take n (Encode ident wr m)) = None"
proof (cases n)
  case 0
  then show ?thesis
    by (simp add: receive_def ReadHeader_def run_bind run_return Reader_U8_def run_Raw
        Reader_new_def Reader_get_Ok_def Reader_Ok_def Reader_Remaining_def)
next
  case (Suc k)
  let ?cs = "take k (buf (wr m Writer_new))"
  have "strict_prefix ?cs (buf (wr m Writer_new))"
    using assms Suc by (auto simp: Encode_image strict_prefix_def take_is_prefix dest: arg_cong [of _ _ length])
  then have bad: "\<not> ok (snd (run_state rd (at_bytes [ident] ?cs [])))"
    using read_demands unfolding demands_def by blast
  obtain x b r where run: "run_state rd (at_bytes [ident] ?cs []) = ((x, b), r)"
    by (metis prod.collapse)
  have "\<not> b" using bad run health unfolding healthy_result_def by (metis snd_conv)
  then show ?thesis
    unfolding Encode_image Suc take_Suc_Cons receive_def header_Encode Let_def by (simp add: run)
qed

lemma receive_inj:
  "Encode ident wr m = Encode ident wr m' \<Longrightarrow> canon m = canon m'"
  by (metis receive_Encode option.inject prod.inject)

end

text \<open>
  A message's image is the list of its fields' images, and what is read back is the
  record of the fields, which is the value up to cut strings.
\<close>

lemma messageI:
  assumes "\<And>x w. buf (wr x w) = buf w @ img x"
    and "\<And>x. mk x = canon x"
    and "healthy_result rd"
    and "\<And>x. coded rd (img x) (mk x, True)"
  shows "message wr rd canon"
proof unfold_locales
  fix x w
  show "buf (wr x w) = buf w @ buf (wr x Writer_new)" by (simp add: assms(1))
qed (use assms(2,3,4) in \<open>auto simp: assms(1) coded_def\<close>)

lemmas message_steps = coded_steps coded_bind [OF coded_PlayerState]
lemmas message_reads = reads_intros ReadPlayerState_reads
lemmas healthy_intros = healthy_bind healthy_return

text \<open>The eleven messages; \<open>canon\<close> cuts the strings a message carries.\<close>

definition HelloMsg_canon :: "HelloMsg \<Rightarrow> HelloMsg" where
  "HelloMsg_canon m = m\<lparr>hello_name := cut (hello_name m)\<rparr>"

definition ChatMsg_canon :: "ChatMsg \<Rightarrow> ChatMsg" where
  "ChatMsg_canon m = m\<lparr>chat_text := cut (chat_text m)\<rparr>"

definition SetNameMsg_canon :: "SetNameMsg \<Rightarrow> SetNameMsg" where
  "SetNameMsg_canon m = m\<lparr>setname_name := cut (setname_name m)\<rparr>"

definition WelcomeMsg_canon :: "WelcomeMsg \<Rightarrow> WelcomeMsg" where
  "WelcomeMsg_canon m =
     m\<lparr>welcome_serverName := cut (welcome_serverName m), welcome_motd := cut (welcome_motd m)\<rparr>"

definition RejectMsg_canon :: "RejectMsg \<Rightarrow> RejectMsg" where
  "RejectMsg_canon m = m\<lparr>reject_reason := cut (reject_reason m)\<rparr>"

definition PlayerJoinedMsg_canon :: "PlayerJoinedMsg \<Rightarrow> PlayerJoinedMsg" where
  "PlayerJoinedMsg_canon m = m\<lparr>joined_name := cut (joined_name m)\<rparr>"

definition ChatBroadcastMsg_canon :: "ChatBroadcastMsg \<Rightarrow> ChatBroadcastMsg" where
  "ChatBroadcastMsg_canon m = m\<lparr>cb_text := cut (cb_text m)\<rparr>"

definition PlayerRenamedMsg_canon :: "PlayerRenamedMsg \<Rightarrow> PlayerRenamedMsg" where
  "PlayerRenamedMsg_canon m = m\<lparr>renamed_name := cut (renamed_name m)\<rparr>"

interpretation hello_msg: message HelloMsg_Write HelloMsg_Read HelloMsg_canon kHello
  by (rule messageI [where img = "\<lambda>x. le_bytes 4 (unat (hello_protocolVersion x)) @ le_bytes 4 (unat (hello_gameVersion x)) @ str_image (hello_name x) @ []"
        and mk = "\<lambda>x. \<lparr>hello_protocolVersion = hello_protocolVersion x, hello_gameVersion = hello_gameVersion x, hello_name = cut (hello_name x)\<rparr>"])
    (simp add: HelloMsg_Write_def image_simps, simp add: HelloMsg_canon_def,
     unfold HelloMsg_Read_def, intro healthy_intros, (rule message_steps | (intro message_reads; fail))+)

interpretation player_state_msg: message PlayerStateMsg_Write PlayerStateMsg_Read "\<lambda>m. m" kPlayerState
  by (rule messageI [where img = "\<lambda>x. state_image (psm_state x) @ []"
        and mk = "\<lambda>x. \<lparr>psm_state = psm_state x\<rparr>"])
    (simp add: PlayerStateMsg_Write_def image_simps, simp,
     unfold PlayerStateMsg_Read_def, intro healthy_intros, (rule message_steps | (intro message_reads; fail))+)

interpretation chat_msg: message ChatMsg_Write ChatMsg_Read ChatMsg_canon kChat
  by (rule messageI [where img = "\<lambda>x. str_image (chat_text x) @ []"
        and mk = "\<lambda>x. \<lparr>chat_text = cut (chat_text x)\<rparr>"])
    (simp add: ChatMsg_Write_def image_simps, simp add: ChatMsg_canon_def,
     unfold ChatMsg_Read_def, intro healthy_intros, (rule message_steps | (intro message_reads; fail))+)

interpretation set_name_msg: message SetNameMsg_Write SetNameMsg_Read SetNameMsg_canon kSetName
  by (rule messageI [where img = "\<lambda>x. str_image (setname_name x) @ []"
        and mk = "\<lambda>x. \<lparr>setname_name = cut (setname_name x)\<rparr>"])
    (simp add: SetNameMsg_Write_def image_simps, simp add: SetNameMsg_canon_def,
     unfold SetNameMsg_Read_def, intro healthy_intros, (rule message_steps | (intro message_reads; fail))+)

interpretation welcome_msg: message WelcomeMsg_Write WelcomeMsg_Read WelcomeMsg_canon kWelcome
  by (rule messageI [where img = "\<lambda>x. le_bytes 4 (unat (welcome_id x)) @ [welcome_tickRate x] @ str_image (welcome_serverName x) @ str_image (welcome_motd x) @ []"
        and mk = "\<lambda>x. \<lparr>welcome_id = welcome_id x, welcome_tickRate = welcome_tickRate x, welcome_serverName = cut (welcome_serverName x), welcome_motd = cut (welcome_motd x)\<rparr>"])
    (simp add: WelcomeMsg_Write_def image_simps, simp add: WelcomeMsg_canon_def,
     unfold WelcomeMsg_Read_def, intro healthy_intros, (rule message_steps | (intro message_reads; fail))+)

interpretation reject_msg: message RejectMsg_Write RejectMsg_Read RejectMsg_canon kReject
  by (rule messageI [where img = "\<lambda>x. str_image (reject_reason x) @ []"
        and mk = "\<lambda>x. \<lparr>reject_reason = cut (reject_reason x)\<rparr>"])
    (simp add: RejectMsg_Write_def image_simps, simp add: RejectMsg_canon_def,
     unfold RejectMsg_Read_def, intro healthy_intros, (rule message_steps | (intro message_reads; fail))+)

interpretation joined_msg: message PlayerJoinedMsg_Write PlayerJoinedMsg_Read PlayerJoinedMsg_canon kPlayerJoined
  by (rule messageI [where img = "\<lambda>x. le_bytes 4 (unat (joined_id x)) @ str_image (joined_name x) @ []"
        and mk = "\<lambda>x. \<lparr>joined_id = joined_id x, joined_name = cut (joined_name x)\<rparr>"])
    (simp add: PlayerJoinedMsg_Write_def image_simps, simp add: PlayerJoinedMsg_canon_def,
     unfold PlayerJoinedMsg_Read_def, intro healthy_intros, (rule message_steps | (intro message_reads; fail))+)

interpretation left_msg: message PlayerLeftMsg_Write PlayerLeftMsg_Read "\<lambda>m. m" kPlayerLeft
  by (rule messageI [where img = "\<lambda>x. le_bytes 4 (unat (left_id x)) @ []"
        and mk = "\<lambda>x. \<lparr>left_id = left_id x\<rparr>"])
    (simp add: PlayerLeftMsg_Write_def image_simps, simp,
     unfold PlayerLeftMsg_Read_def, intro healthy_intros, (rule message_steps | (intro message_reads; fail))+)

interpretation state_update_msg: message PlayerStateUpdateMsg_Write PlayerStateUpdateMsg_Read "\<lambda>m. m" kPlayerStateUpdate
  by (rule messageI [where img = "\<lambda>x. le_bytes 4 (unat (psu_id x)) @ le_bytes 4 (unat (psu_timeMs x)) @ state_image (psu_state x) @ []"
        and mk = "\<lambda>x. \<lparr>psu_id = psu_id x, psu_timeMs = psu_timeMs x, psu_state = psu_state x\<rparr>"])
    (simp add: PlayerStateUpdateMsg_Write_def image_simps, simp,
     unfold PlayerStateUpdateMsg_Read_def, intro healthy_intros, (rule message_steps | (intro message_reads; fail))+)

interpretation chat_broadcast_msg: message ChatBroadcastMsg_Write ChatBroadcastMsg_Read ChatBroadcastMsg_canon kChatBroadcast
  by (rule messageI [where img = "\<lambda>x. le_bytes 4 (unat (cb_from x)) @ str_image (cb_text x) @ []"
        and mk = "\<lambda>x. \<lparr>cb_from = cb_from x, cb_text = cut (cb_text x)\<rparr>"])
    (simp add: ChatBroadcastMsg_Write_def image_simps, simp add: ChatBroadcastMsg_canon_def,
     unfold ChatBroadcastMsg_Read_def, intro healthy_intros, (rule message_steps | (intro message_reads; fail))+)

interpretation renamed_msg: message PlayerRenamedMsg_Write PlayerRenamedMsg_Read PlayerRenamedMsg_canon kPlayerRenamed
  by (rule messageI [where img = "\<lambda>x. le_bytes 4 (unat (renamed_id x)) @ str_image (renamed_name x) @ []"
        and mk = "\<lambda>x. \<lparr>renamed_id = renamed_id x, renamed_name = cut (renamed_name x)\<rparr>"])
    (simp add: PlayerRenamedMsg_Write_def image_simps, simp add: PlayerRenamedMsg_canon_def,
     unfold PlayerRenamedMsg_Read_def, intro healthy_intros, (rule message_steps | (intro message_reads; fail))+)

section \<open>What every message promises\<close>

text \<open>C9. Every message a client sends comes back from the bytes the template encodes it to: the
  receiving code sees the message's own id and its fields, strings cut to the limit.\<close>

theorem client_messages_roundtrip:
  "receive HelloMsg_Read (Encode kHello HelloMsg_Write hello) = Some (kHello, HelloMsg_canon hello) \<and>
   receive PlayerStateMsg_Read (Encode kPlayerState PlayerStateMsg_Write ps) = Some (kPlayerState, ps) \<and>
   receive ChatMsg_Read (Encode kChat ChatMsg_Write chat) = Some (kChat, ChatMsg_canon chat) \<and>
   receive SetNameMsg_Read (Encode kSetName SetNameMsg_Write sn) = Some (kSetName, SetNameMsg_canon sn)"
  by (intro conjI hello_msg.receive_Encode player_state_msg.receive_Encode chat_msg.receive_Encode
      set_name_msg.receive_Encode)

text \<open>C10. Every message the server sends comes back from the bytes the template encodes it to:
  the id, and the fields with strings cut to the limit.\<close>

theorem server_messages_roundtrip:
  "receive WelcomeMsg_Read (Encode kWelcome WelcomeMsg_Write w) = Some (kWelcome, WelcomeMsg_canon w) \<and>
   receive RejectMsg_Read (Encode kReject RejectMsg_Write r) = Some (kReject, RejectMsg_canon r) \<and>
   receive PlayerJoinedMsg_Read (Encode kPlayerJoined PlayerJoinedMsg_Write j) =
     Some (kPlayerJoined, PlayerJoinedMsg_canon j) \<and>
   receive PlayerLeftMsg_Read (Encode kPlayerLeft PlayerLeftMsg_Write l) = Some (kPlayerLeft, l) \<and>
   receive PlayerStateUpdateMsg_Read (Encode kPlayerStateUpdate PlayerStateUpdateMsg_Write u) =
     Some (kPlayerStateUpdate, u) \<and>
   receive ChatBroadcastMsg_Read (Encode kChatBroadcast ChatBroadcastMsg_Write c) =
     Some (kChatBroadcast, ChatBroadcastMsg_canon c) \<and>
   receive PlayerRenamedMsg_Read (Encode kPlayerRenamed PlayerRenamedMsg_Write n) =
     Some (kPlayerRenamed, PlayerRenamedMsg_canon n)"
  by (intro conjI welcome_msg.receive_Encode reject_msg.receive_Encode joined_msg.receive_Encode
      left_msg.receive_Encode state_update_msg.receive_Encode chat_broadcast_msg.receive_Encode
      renamed_msg.receive_Encode)

text \<open>The receiving side of the eleven messages, forgetting the message read.\<close>

definition accepts :: "(Reader, 'a \<times> bool) state \<Rightarrow> u8 list \<Rightarrow> bool" where
  "accepts rd bytes = (receive rd bytes \<noteq> None)"

text \<open>C11. No truncated message is accepted: cutting the encoding of a message anywhere, in the
  middle of a number, a length or a string, makes the receiving code refuse it.\<close>

theorem truncated_messages_refused:
  "(n < length (Encode kHello HelloMsg_Write hello) \<longrightarrow> \<not> accepts HelloMsg_Read (take n (Encode kHello HelloMsg_Write hello))) \<and>
   (n < length (Encode kPlayerState PlayerStateMsg_Write ps) \<longrightarrow> \<not> accepts PlayerStateMsg_Read (take n (Encode kPlayerState PlayerStateMsg_Write ps))) \<and>
   (n < length (Encode kChat ChatMsg_Write chat) \<longrightarrow> \<not> accepts ChatMsg_Read (take n (Encode kChat ChatMsg_Write chat))) \<and>
   (n < length (Encode kSetName SetNameMsg_Write sn) \<longrightarrow> \<not> accepts SetNameMsg_Read (take n (Encode kSetName SetNameMsg_Write sn))) \<and>
   (n < length (Encode kWelcome WelcomeMsg_Write w) \<longrightarrow> \<not> accepts WelcomeMsg_Read (take n (Encode kWelcome WelcomeMsg_Write w))) \<and>
   (n < length (Encode kReject RejectMsg_Write r) \<longrightarrow> \<not> accepts RejectMsg_Read (take n (Encode kReject RejectMsg_Write r))) \<and>
   (n < length (Encode kPlayerJoined PlayerJoinedMsg_Write j) \<longrightarrow> \<not> accepts PlayerJoinedMsg_Read (take n (Encode kPlayerJoined PlayerJoinedMsg_Write j))) \<and>
   (n < length (Encode kPlayerLeft PlayerLeftMsg_Write l) \<longrightarrow> \<not> accepts PlayerLeftMsg_Read (take n (Encode kPlayerLeft PlayerLeftMsg_Write l))) \<and>
   (n < length (Encode kPlayerStateUpdate PlayerStateUpdateMsg_Write u) \<longrightarrow> \<not> accepts PlayerStateUpdateMsg_Read (take n (Encode kPlayerStateUpdate PlayerStateUpdateMsg_Write u))) \<and>
   (n < length (Encode kChatBroadcast ChatBroadcastMsg_Write c) \<longrightarrow> \<not> accepts ChatBroadcastMsg_Read (take n (Encode kChatBroadcast ChatBroadcastMsg_Write c))) \<and>
   (n < length (Encode kPlayerRenamed PlayerRenamedMsg_Write pn) \<longrightarrow> \<not> accepts PlayerRenamedMsg_Read (take n (Encode kPlayerRenamed PlayerRenamedMsg_Write pn)))"
  unfolding accepts_def
  by (simp add: hello_msg.receive_truncated player_state_msg.receive_truncated chat_msg.receive_truncated
      set_name_msg.receive_truncated welcome_msg.receive_truncated reject_msg.receive_truncated
      joined_msg.receive_truncated left_msg.receive_truncated state_update_msg.receive_truncated
      chat_broadcast_msg.receive_truncated renamed_msg.receive_truncated)

theorem truncated_messages_refused_witness:
  "\<not> accepts ChatMsg_Read (take 4 (Encode kChat ChatMsg_Write \<lparr>chat_text = ''hello''\<rparr>))"
proof -
  have "4 < length (Encode kChat ChatMsg_Write \<lparr>chat_text = ''hello''\<rparr>)" by code_simp
  then show ?thesis
    by (rule truncated_messages_refused [THEN conjunct2, THEN conjunct2, THEN conjunct1, rule_format])
qed

text \<open>The actions of the reader that a message's \<open>Read\<close> is built of.\<close>

lemmas message_reads_safe = hello_msg.read_safe player_state_msg.read_safe chat_msg.read_safe
  set_name_msg.read_safe welcome_msg.read_safe reject_msg.read_safe joined_msg.read_safe
  left_msg.read_safe state_update_msg.read_safe chat_broadcast_msg.read_safe renamed_msg.read_safe

definition stays_inside :: "(Reader, 'a) state \<Rightarrow> u8 list \<Rightarrow> bool" where
  "stays_inside rd bytes =
     (let r = snd (run_state rd (snd (run_state ReadHeader (Reader_new bytes))))
      in pos r \<le> length bytes \<and> data r = bytes)"

lemma ReadHeader_safe: "safe_read ReadHeader"
  unfolding ReadHeader_def by (intro reads_intros)

lemma safe_stays_inside: "safe_read rd \<Longrightarrow> stays_inside rd bytes"
proof -
  assume rd: "safe_read rd"
  let ?r = "snd (run_state ReadHeader (Reader_new bytes))"
  have "in_bounds (Reader_new bytes)" by (simp add: in_bounds_def Reader_new_def)
  then have r: "in_bounds ?r \<and> data ?r = data (Reader_new bytes)"
    using ReadHeader_safe unfolding safe_read_def by blast
  then have "in_bounds (snd (run_state rd ?r)) \<and> data (snd (run_state rd ?r)) = data ?r"
    using rd unfolding safe_read_def by blast
  with r show ?thesis by (auto simp: stays_inside_def in_bounds_def Reader_new_def Let_def)
qed

text \<open>C12. Whatever bytes arrive, reading them as any message never moves the reader beyond the
  data it was given.\<close>

theorem reads_stay_inside:
  "stays_inside HelloMsg_Read bytes \<and> stays_inside PlayerStateMsg_Read bytes \<and>
   stays_inside ChatMsg_Read bytes \<and> stays_inside SetNameMsg_Read bytes \<and>
   stays_inside WelcomeMsg_Read bytes \<and> stays_inside RejectMsg_Read bytes \<and>
   stays_inside PlayerJoinedMsg_Read bytes \<and> stays_inside PlayerLeftMsg_Read bytes \<and>
   stays_inside PlayerStateUpdateMsg_Read bytes \<and> stays_inside ChatBroadcastMsg_Read bytes \<and>
   stays_inside PlayerRenamedMsg_Read bytes"
  by (intro conjI safe_stays_inside message_reads_safe)

end
