(* ===== verification/F4_Names.thy ===== *)
theory F4_Names
  imports F4_ProtocolFacts
begin

text \<open>
  \<open>SanitizeName\<close>: what a name looks like after it, that such names are its fixed points,
  and that they survive the wire unchanged.
\<close>

text \<open>The names the server ever stores or sends.\<close>

definition sane_name :: "string \<Rightarrow> bool" where
  "sane_name s = (s \<noteq> [] \<and> length s \<le> MAX_PLAYER_NAME \<and> list_all printable s \<and>
     hd s \<noteq> CHR '' '' \<and> last s \<noteq> CHR '' '')"

definition is_blank :: "char \<Rightarrow> bool" where
  "is_blank c = (c = CHR '' '')"

text \<open>The three stages of the code: filter and clamp, strip the back, strip the front.\<close>

definition clamped :: "string \<Rightarrow> string" where
  "clamped name = take MAX_PLAYER_NAME (filter printable name)"

definition strip_back :: "string \<Rightarrow> string" where
  "strip_back s = rev (dropWhile is_blank (rev s))"

lemma SanitizeName_stages:
  "SanitizeName name =
    (let out = dropWhile is_blank (strip_back (clamped name))
     in if out = [] then ''Wastelander'' else out)"
proof -
  have b: "is_blank = (\<lambda>c. c = CHR '' '')" by (simp add: fun_eq_iff is_blank_def)
  have t: "(if MAX_PLAYER_NAME < length xs then take MAX_PLAYER_NAME xs else xs) = take MAX_PLAYER_NAME xs"
    for xs :: string by simp
  show ?thesis unfolding SanitizeName_def clamped_def strip_back_def b t Let_def ..
qed

lemma strip_back_nil [simp]: "strip_back [] = []"
  by (simp add: strip_back_def)

lemma strip_back_last: "strip_back s \<noteq> [] \<Longrightarrow> \<not> is_blank (last (strip_back s))"
  by (simp add: strip_back_def last_rev hd_dropWhile)

lemma strip_back_id: "s = [] \<or> \<not> is_blank (last s) \<Longrightarrow> strip_back s = s"
  by (cases s rule: rev_cases) (simp_all add: strip_back_def)

lemma set_strip_back: "set (strip_back s) \<subseteq> set s"
  unfolding strip_back_def by (rule rev_dropWhile_rev_sublist)

lemma length_strip_back: "length (strip_back s) \<le> length s"
  unfolding strip_back_def by (rule length_rev_dropWhile_rev)

lemma last_dropWhile: "dropWhile p xs \<noteq> [] \<Longrightarrow> last (dropWhile p xs) = last xs"
  by (metis last_appendR takeWhile_dropWhile_id)

lemma sane_Wastelander: "sane_name ''Wastelander''"
  by (simp add: sane_name_def printable_def MAX_PLAYER_NAME_def)

text \<open>Every result is a sane name.\<close>

lemma SanitizeName_sane: "sane_name (SanitizeName name)"
proof (cases "dropWhile is_blank (strip_back (clamped name)) = []")
  case True
  then show ?thesis by (simp add: SanitizeName_stages sane_Wastelander)
next
  case False
  let ?out = "dropWhile is_blank (strip_back (clamped name))"
  have "set ?out \<subseteq> set (clamped name)"
    using set_dropWhileD set_strip_back by fastforce
  moreover have "set (clamped name) \<subseteq> {c. printable c}"
    by (auto simp: clamped_def dest: in_set_takeD)
  ultimately have "list_all printable ?out" by (auto simp: list_all_iff)
  moreover have "length ?out \<le> MAX_PLAYER_NAME"
  proof -
    have "length ?out \<le> length (strip_back (clamped name))" by (rule length_dropWhile_le)
    also have "\<dots> \<le> length (clamped name)" by (rule length_strip_back)
    also have "\<dots> \<le> MAX_PLAYER_NAME" by (simp add: clamped_def)
    finally show ?thesis .
  qed
  moreover have "hd ?out \<noteq> CHR '' ''"
    using hd_dropWhile [OF False] by (simp add: is_blank_def)
  moreover have "last ?out \<noteq> CHR '' ''"
  proof -
    have "strip_back (clamped name) \<noteq> []" using False by auto
    then show ?thesis
      using strip_back_last [of "clamped name"] last_dropWhile [OF False] by (simp add: is_blank_def)
  qed
  ultimately have "sane_name ?out" using False by (simp only: sane_name_def simp_thms)
  then show ?thesis using False by (simp only: SanitizeName_stages Let_def if_False)
qed

text \<open>A sane name is left as it is.\<close>

lemma SanitizeName_id: "sane_name s \<Longrightarrow> SanitizeName s = s"
proof -
  assume s: "sane_name s"
  then have "filter printable s = s"
    by (simp add: sane_name_def list_all_iff)
  with s have "clamped s = s"
    by (simp add: clamped_def sane_name_def)
  moreover from s have "strip_back s = s"
    by (intro strip_back_id) (simp add: sane_name_def is_blank_def)
  moreover from s have "dropWhile is_blank s = s"
    by (cases s) (simp_all add: sane_name_def is_blank_def)
  ultimately show ?thesis using s by (simp add: SanitizeName_stages sane_name_def)
qed

lemma sane_name_iff: "sane_name s \<longleftrightarrow> SanitizeName s = s"
  using SanitizeName_id SanitizeName_sane by metis

lemma SanitizeName_idem: "SanitizeName (SanitizeName s) = SanitizeName s"
  by (simp add: SanitizeName_id SanitizeName_sane)

text \<open>A sane name is short enough for the wire.\<close>

lemma sane_name_cut: "sane_name s \<Longrightarrow> cut s = s"
  by (simp add: sane_name_def cut_id MAX_PLAYER_NAME_def MAX_STRING_BYTES_def)

lemma sane_name_nonempty: "sane_name s \<Longrightarrow> s \<noteq> []"
  by (simp add: sane_name_def)

text \<open>Bytes above ASCII never survive, and neither do control characters.\<close>

lemma SanitizeName_ascii:
  "c \<in> set (SanitizeName name) \<Longrightarrow> 0x20 \<le> (of_char c :: nat) \<and> (of_char c :: nat) < 0x7F"
  using SanitizeName_sane [of name] by (auto simp: sane_name_def list_all_iff printable_def Let_def)

text \<open>C13. The name the server stores is never empty, at most 32 bytes, printable ASCII without a
  blank at either end; a name already of that form, and no other, is left unchanged; and it passes
  the wire uncut, so every client shows the same name.\<close>

theorem SanitizeName_spec:
  "sane_name (SanitizeName name) \<and> (SanitizeName name = name \<longleftrightarrow> sane_name name) \<and>
   receive PlayerJoinedMsg_Read (Encode kPlayerJoined PlayerJoinedMsg_Write
     \<lparr>joined_id = i, joined_name = SanitizeName name\<rparr>) =
     Some (kPlayerJoined, \<lparr>joined_id = i, joined_name = SanitizeName name\<rparr>)"
  by (simp add: SanitizeName_sane sane_name_iff [symmetric] joined_msg.receive_Encode
      PlayerJoinedMsg_canon_def sane_name_cut)

end
