(* ===== verification/F4_Parse.thy ===== *)
theory F4_Parse
  imports F4_Float
begin

text \<open>
  The number parsers of the C++ standard library the program calls, as functions of the
  text: \<open>std::from_chars\<close> for integers and floating-point numbers (the value, or
  \<open>None\<close> for an error code, and the unparsed rest, which is what \<open>ptr\<close> shows) and
  \<open>std::stoul\<close> (\<open>None\<close> for an exception).
\<close>

definition digits_value :: "nat \<Rightarrow> (char \<Rightarrow> nat) \<Rightarrow> string \<Rightarrow> nat" where
  "digits_value base dv ds = foldl (\<lambda>v c. base * v + dv c) 0 ds"

definition decimal_value :: "string \<Rightarrow> nat" where
  "decimal_value = digits_value 10 digit_value"

section \<open>Integers\<close>

text \<open>\<open>from_chars\<close> of a signed type with bounds \<open>lo\<close> and \<open>hi\<close>: an optional minus, then digits.\<close>

definition from_chars_signed :: "int \<Rightarrow> int \<Rightarrow> string \<Rightarrow> int option \<times> string" where
  "from_chars_signed lo hi s =
     (let (neg, t) = (case s of c # cs \<Rightarrow> if c = CHR ''-'' then (True, cs) else (False, s) | [] \<Rightarrow> (False, s));
          ds = takeWhile isdigit t;
          v = (if neg then - int (decimal_value ds) else int (decimal_value ds))
      in if ds = [] then (None, s)
         else (if lo \<le> v \<and> v \<le> hi then Some v else None, dropWhile isdigit t))"

definition from_chars_ll :: "string \<Rightarrow> int option \<times> string" where
  "from_chars_ll = from_chars_signed (- (2 ^ 63)) (2 ^ 63 - 1)"

text \<open>\<open>from_chars\<close> of an unsigned type, in base 10 or 16: no sign is accepted.\<close>

definition isxdigit :: "char \<Rightarrow> bool" where
  "isxdigit c = (let n = (of_char c :: nat) in
     48 \<le> n \<and> n \<le> 57 \<or> 65 \<le> n \<and> n \<le> 70 \<or> 97 \<le> n \<and> n \<le> 102)"

definition xdigit_value :: "char \<Rightarrow> nat" where
  "xdigit_value c = (let n = (of_char c :: nat) in
     if n \<le> 57 then n - 48 else if n \<le> 70 then n - 55 else n - 87)"

definition from_chars_unsigned :: "nat \<Rightarrow> nat \<Rightarrow> string \<Rightarrow> nat option \<times> string" where
  "from_chars_unsigned base hi s =
     (let (p, dv) = (if base = 16 then (isxdigit, xdigit_value) else (isdigit, digit_value));
          ds = takeWhile p s;
          v = digits_value base dv ds
      in if ds = [] then (None, s) else (if v \<le> hi then Some v else None, dropWhile p s))"

text \<open>
  \<open>std::stoul\<close> with an \<open>unsigned long\<close> of \<open>bits\<close> bits (64 on Linux, 32 on Windows):
  leading white space and a sign are accepted, a negative number wraps, a number out of
  range and a text without digits throw; what follows the digits is ignored.
\<close>

definition stoul :: "nat \<Rightarrow> nat \<Rightarrow> string \<Rightarrow> nat option" where
  "stoul bits base s =
     (let t = dropWhile isspace s;
          (neg, t) = (case t of c # cs \<Rightarrow> if c = CHR ''-'' then (True, cs)
                                         else if c = CHR ''+'' then (False, cs) else (False, t)
                       | [] \<Rightarrow> (False, t));
          t = (if base = 16 then
                 (case t of z # x # d # r \<Rightarrow>
                    if z = CHR ''0'' \<and> (x = CHR ''x'' \<or> x = CHR ''X'') \<and> isxdigit d
                    then d # r else t | _ \<Rightarrow> t)
               else t)
      in case from_chars_unsigned base (2 ^ bits - 1) t of
           (None, _) \<Rightarrow> None
         | (Some v, _) \<Rightarrow> Some (if neg \<and> v \<noteq> 0 then 2 ^ bits - v else v))"

section \<open>Floating point\<close>

definition prefix_nocase :: "string \<Rightarrow> string \<Rightarrow> bool" where
  "prefix_nocase p s = (length p \<le> length s \<and> map tolower (take (length p) s) = p)"

text \<open>The exponent part, taken only when a digit follows.\<close>

definition take_exponent :: "string \<Rightarrow> int \<times> string" where
  "take_exponent s =
     (case s of
        [] \<Rightarrow> (0, s)
      | e # t \<Rightarrow>
          if e \<noteq> CHR ''e'' \<and> e \<noteq> CHR ''E'' then (0, s)
          else let (neg, u) = (case t of c # cs \<Rightarrow> if c = CHR ''-'' then (True, cs)
                                                 else if c = CHR ''+'' then (False, cs) else (False, t)
                               | [] \<Rightarrow> (False, t));
                   ds = takeWhile isdigit u
               in if ds = [] then (0, s)
                  else (if neg then - int (decimal_value ds) else int (decimal_value ds),
                        dropWhile isdigit u))"

text \<open>The value of decimal digits scaled by a power of ten, rounded once.\<close>

definition round_decimal :: "fmt \<Rightarrow> bool \<Rightarrow> nat \<Rightarrow> int \<Rightarrow> nat" where
  "round_decimal f s m e =
     (if 0 \<le> e then round_frac f s (m * 10 ^ nat e) 1 0 else round_frac f s m (10 ^ nat (- e)) 0)"

text \<open>What is left behind a NaN; a sequence of letters, digits and underscores in brackets belongs to it.\<close>

definition nan_rest :: "string \<Rightarrow> string" where
  "nan_rest t =
     (if t \<noteq> [] \<and> hd t = CHR ''(''
      then let r = dropWhile (\<lambda>c. isdigit c \<or> c = CHR ''_'' \<or> (let n = (of_char (tolower c) :: nat) in 97 \<le> n \<and> n \<le> 122)) (tl t)
           in if r \<noteq> [] \<and> hd r = CHR '')'' then tl r else t
      else t)"

definition from_chars_float :: "fmt \<Rightarrow> string \<Rightarrow> nat option \<times> string" where
  "from_chars_float f s =
     (let (neg, t) = (case s of c # cs \<Rightarrow> if c = CHR ''-'' then (True, cs) else (False, s) | [] \<Rightarrow> (False, s));
          ip = takeWhile isdigit t;
          t1 = dropWhile isdigit t;
          (fp, t2) = (case t1 of c # cs \<Rightarrow> if c = CHR ''.'' then (takeWhile isdigit cs, dropWhile isdigit cs)
                                         else ([], t1)
                      | [] \<Rightarrow> ([], t1))
      in if ip @ fp = [] then
           (if prefix_nocase ''infinity'' t then (Some (with_sign f neg (inf_bits f)), drop 8 t)
            else if prefix_nocase ''inf'' t then (Some (with_sign f neg (inf_bits f)), drop 3 t)
            else if prefix_nocase ''nan'' t then (Some (with_sign f neg (nan_bits f)), nan_rest (drop 3 t))
            else (None, s))
         else let (e, rest) = take_exponent t2;
                  m = decimal_value (ip @ fp);
                  b = round_decimal f neg m (e - int (length fp));
                  mag = b mod sign_bit f
              in (if mag = inf_bits f \<or> (mag = 0 \<and> m \<noteq> 0) then None else Some b, rest))"

section \<open>Printing and parsing decimals\<close>

lemma digits_value_snoc: "digits_value b dv (ds @ [d]) = b * digits_value b dv ds + dv d"
  by (simp add: digits_value_def)

lemma decimal_value_snoc: "decimal_value (ds @ [d]) = 10 * decimal_value ds + digit_value d"
  by (simp add: decimal_value_def digits_value_snoc)

lemma decimal_value_digits: "decimal_value (dec_digits n) = n"
proof (induction n rule: dec_digits.induct)
  case (1 n)
  show ?case
  proof (cases "n < 10")
    case True
    then show ?thesis
      by (subst dec_digits.simps) (simp add: decimal_value_def digits_value_def)
  next
    case False
    then show ?thesis
      using 1 by (subst dec_digits.simps) (simp add: decimal_value_snoc)
  qed
qed

lemma decimal_value_to_string: "decimal_value (to_string n) = n"
  by (simp add: to_string_def decimal_value_digits)

lemma takeWhile_to_string: "takeWhile isdigit (to_string n) = to_string n"
  using to_string_isdigit [of n] by (simp add: takeWhile_eq_all_conv list_all_iff)

lemma dropWhile_to_string: "dropWhile isdigit (to_string n) = []"
  using to_string_isdigit [of n] by (simp add: dropWhile_eq_Nil_conv list_all_iff)

lemma hd_to_string_digit: "\<exists>c cs. to_string n = c # cs \<and> isdigit c"
  using to_string_isdigit [of n] to_string_not_Nil [of n] by (cases "to_string n") auto

lemma isdigit_not_minus: "isdigit c \<Longrightarrow> c \<noteq> CHR ''-'' \<and> c \<noteq> CHR ''+'' \<and> \<not> isspace c"
  by (auto simp: isdigit_def isspace_def Let_def)

text \<open>A printed number parses back, as \<open>long long\<close> and by \<open>stoul\<close>, where it fits.\<close>

lemma from_chars_ll_to_string:
  "n < 2 ^ 63 \<Longrightarrow> from_chars_ll (to_string n) = (Some (int n), [])"
proof -
  assume n: "n < 2 ^ 63"
  obtain c cs where c: "to_string n = c # cs" "isdigit c" using hd_to_string_digit by blast
  then have t: "takeWhile isdigit cs = cs" "dropWhile isdigit cs = []"
    using takeWhile_to_string [of n] dropWhile_to_string [of n] by simp_all
  have "int n \<le> 2 ^ 63 - 1" using n by simp
  then show ?thesis
    using c isdigit_not_minus [OF c(2)] decimal_value_to_string [of n]
    by (simp add: from_chars_ll_def from_chars_signed_def Let_def t)
qed

lemma stoul_to_string:
  "n < 2 ^ bits \<Longrightarrow> stoul bits 10 (to_string n) = Some n"
proof -
  assume n: "n < 2 ^ bits"
  obtain c cs where c: "to_string n = c # cs" "isdigit c" using hd_to_string_digit by blast
  then have t: "takeWhile isdigit cs = cs" "dropWhile isdigit cs = []"
    using takeWhile_to_string [of n] dropWhile_to_string [of n] by simp_all
  have "n \<le> 2 ^ bits - 1" using n by simp
  moreover have "digits_value 10 digit_value (to_string n) = n"
    using decimal_value_to_string by (simp add: decimal_value_def)
  moreover have "dropWhile isspace (to_string n) = to_string n"
    using c isdigit_not_minus [OF c(2)] by simp
  ultimately show ?thesis
    using c isdigit_not_minus [OF c(2)]
    by (simp add: stoul_def from_chars_unsigned_def Let_def t)
qed

lemma from_chars_unsigned_bound: "from_chars_unsigned base hi s = (Some v, r) \<Longrightarrow> v \<le> hi"
  by (auto simp: from_chars_unsigned_def Let_def split: prod.splits if_splits)

lemma stoul_bound: "stoul bits base s = Some v \<Longrightarrow> v < 2 ^ bits"
proof -
  assume a: "stoul bits base s = Some v"
  then obtain t w r b where w: "from_chars_unsigned base (2 ^ bits - 1) t = (Some w, r)"
    and v: "v = (if b \<and> w \<noteq> 0 then 2 ^ bits - w else w)"
    unfolding stoul_def Let_def by (auto split: prod.splits option.splits simp del: if_split)
  have "w \<le> 2 ^ bits - 1" by (rule from_chars_unsigned_bound [OF w])
  moreover have "(0 :: nat) < 2 ^ bits" by simp
  ultimately have "w < 2 ^ bits" by linarith
  then show ?thesis using v by (auto split: if_splits)
qed

end
