(* ===== verification/F4_Ini.thy ===== *)
theory F4_Ini
  imports F4_Parse F4_Prelude
begin

text \<open>
  \<open>shared/include/f4mp/Ini.hpp\<close>: the INI reader. \<open>Load\<close> takes the text the stream
  delivers (\<open>None\<close> when the file cannot be opened); the values are the code's map from
  \<open>section/key\<close> to the value.
\<close>

type_synonym Ini = "(string \<times> string) list"

section \<open>Text helpers\<close>

definition Trim :: "string \<Rightarrow> string" where
  "Trim s = rev (dropWhile isspace (rev (dropWhile isspace s)))"

definition Lower :: "string \<Rightarrow> string" where
  "Lower s = map tolower s"

definition Numeric :: "string \<Rightarrow> string" where
  "Numeric s = Trim (takeWhile (\<lambda>c. c \<noteq> CHR '';'' \<and> c \<noteq> CHR ''#'') s)"

definition newline :: char where "newline = char_of (10 :: nat)"

text \<open>\<open>std::getline\<close> until it fails: the lines, without an empty one after the last newline.\<close>

function getlines :: "string \<Rightarrow> string list" where
  "getlines s =
     (if s = [] then []
      else takeWhile (\<lambda>c. c \<noteq> newline) s # getlines (drop 1 (dropWhile (\<lambda>c. c \<noteq> newline) s)))"
  by pat_completeness auto
termination
proof (relation "measure length")
  fix s :: string assume "s \<noteq> []"
  then have "length (drop 1 (dropWhile (\<lambda>c. c \<noteq> newline) s)) < length s"
    using length_dropWhile_le [of "\<lambda>c. c \<noteq> newline" s] by (cases s) auto
  then show "(drop 1 (dropWhile (\<lambda>c. c \<noteq> newline) s), s) \<in> measure length" by simp
qed simp

declare getlines.simps [simp del]

section \<open>Loading\<close>

text \<open>One pass of the loop: the current section and the values so far.\<close>

definition Load_line :: "string \<Rightarrow> string \<times> Ini \<Rightarrow> string \<times> Ini" where
  "Load_line line st =
     (let (sec, values) = st; view = Trim line
      in if view = [] \<or> hd view = CHR '';'' \<or> hd view = CHR ''#'' then st
         else if hd view = CHR ''['' \<and> last view = CHR '']''
              then (Lower (take (length view - 2) (drop 1 view)), values)
         else if CHR ''='' \<notin> set view then st
         else let key = Lower (Trim (takeWhile (\<lambda>c. c \<noteq> CHR ''='') view));
                  val = Trim (drop 1 (dropWhile (\<lambda>c. c \<noteq> CHR ''='') view))
              in (sec, AList.update (sec @ ''/'' @ key) val values))"

definition Load :: "string option \<Rightarrow> Ini \<Rightarrow> bool \<times> Ini" where
  "Load file values =
     (case file of None \<Rightarrow> (False, values)
      | Some text \<Rightarrow> (True, snd (fold Load_line (getlines text) ([], values))))"

section \<open>Reading values\<close>

definition Get :: "Ini \<Rightarrow> string \<Rightarrow> string \<Rightarrow> string \<Rightarrow> string" where
  "Get ini sec key fallback =
     (case map_of ini (Lower sec @ ''/'' @ Lower key) of None \<Rightarrow> fallback | Some v \<Rightarrow> v)"

definition GetInt :: "Ini \<Rightarrow> string \<Rightarrow> string \<Rightarrow> int \<Rightarrow> int" where
  "GetInt ini sec key fallback =
     (case from_chars_ll (Numeric (Get ini sec key [])) of
        (Some v, []) \<Rightarrow> v
      | _ \<Rightarrow> fallback)"

definition GetFloat :: "Ini \<Rightarrow> string \<Rightarrow> string \<Rightarrow> f64 \<Rightarrow> f64" where
  "GetFloat ini sec key fallback =
     (case from_chars_float double (Numeric (Get ini sec key [])) of
        (Some v, []) \<Rightarrow> word_of_nat v
      | _ \<Rightarrow> fallback)"

definition GetBool :: "Ini \<Rightarrow> string \<Rightarrow> string \<Rightarrow> bool \<Rightarrow> bool" where
  "GetBool ini sec key fallback =
     (let s = Lower (Numeric (Get ini sec key []))
      in if s \<in> {''1'', ''true'', ''yes'', ''on''} then True
         else if s \<in> {''0'', ''false'', ''no'', ''off''} then False
         else fallback)"

section \<open>Facts about the helpers\<close>

definition trimmed :: "string \<Rightarrow> bool" where
  "trimmed s = (s = [] \<or> (\<not> isspace (hd s) \<and> \<not> isspace (last s)))"

lemma trimmed_Nil [simp]: "trimmed []"
  by (simp add: trimmed_def)

lemma dropWhile_hd_id: "s = [] \<or> \<not> p (hd s) \<Longrightarrow> dropWhile p s = s"
  by (cases s) simp_all

lemma Trim_id: "trimmed s \<Longrightarrow> Trim s = s"
  unfolding Trim_def trimmed_def
  by (cases "s = []") (simp_all add: dropWhile_hd_id hd_rev)

lemma trimmed_Trim: "trimmed (Trim s)"
proof -
  let ?f = "dropWhile isspace s"
  obtain ys where ys: "?f = Trim s @ ys"
    using rev_dropWhile_rev_prefix [of ?f isspace] by (auto simp: Trim_def)
  show ?thesis
  proof (cases "Trim s = []")
    case False
    then have "?f \<noteq> []" using ys by auto
    then have "\<not> isspace (hd ?f)" by (rule hd_dropWhile)
    then have "\<not> isspace (hd (Trim s))" using ys False by simp
    moreover have "\<not> isspace (last (Trim s))"
      using False unfolding Trim_def by (metis hd_dropWhile last_rev rev_is_Nil_conv)
    ultimately show ?thesis by (simp add: trimmed_def)
  qed simp
qed

lemma Trim_idem [simp]: "Trim (Trim s) = Trim s"
  by (rule Trim_id) (rule trimmed_Trim)

lemma set_Trim: "set (Trim s) \<subseteq> set s"
  unfolding Trim_def by (meson order_trans rev_dropWhile_rev_sublist set_dropWhileD subsetI)

lemma Lower_idem [simp]: "Lower (Lower s) = Lower s"
  by (simp add: Lower_def comp_def)

lemma Lower_append: "Lower (s @ t) = Lower s @ Lower t"
  by (simp add: Lower_def)

text \<open>Section and key are case-insensitive.\<close>

lemma Get_nocase:
  "Lower sec = Lower sec' \<Longrightarrow> Lower key = Lower key' \<Longrightarrow> Get ini sec key d = Get ini sec' key' d"
  by (simp add: Get_def)

lemma Get_missing: "map_of ini (Lower sec @ ''/'' @ Lower key) = None \<Longrightarrow> Get ini sec key d = d"
  by (simp add: Get_def)

lemma Load_line_distinct:
  "keys_distinct (snd st) \<Longrightarrow> keys_distinct (snd (Load_line line st))"
  by (auto simp: Load_line_def Let_def alist.valid_put split: prod.splits)

lemma Load_lines_distinct:
  "keys_distinct (snd st) \<Longrightarrow> keys_distinct (snd (fold Load_line ls st))"
  by (induction ls arbitrary: st) (simp_all add: Load_line_distinct)

lemma Load_distinct: "keys_distinct values \<Longrightarrow> keys_distinct (snd (Load file values))"
  by (auto simp: Load_def Load_lines_distinct split: option.split)

section \<open>Rendering and loading back\<close>

text \<open>
  A configuration as a list of sections with their assignments, the text it is written
  as, and the values it means: the last assignment of a key wins.
\<close>

type_synonym ini_doc = "(string \<times> (string \<times> string) list) list"

definition render_entry :: "string \<times> string \<Rightarrow> string list" where
  "render_entry kv = [fst kv @ ''='' @ snd kv]"

definition render_section :: "string \<times> (string \<times> string) list \<Rightarrow> string list" where
  "render_section sec = (''['' @ fst sec @ '']'') # concat (map render_entry (snd sec))"

definition render :: "ini_doc \<Rightarrow> string" where
  "render doc = concat (map (\<lambda>l. l @ [newline]) (concat (map render_section doc)))"

definition doc_entries :: "ini_doc \<Rightarrow> (string \<times> string) list" where
  "doc_entries doc =
     concat (map (\<lambda>(s, kvs). map (\<lambda>(k, v). (Lower s @ ''/'' @ Lower k, v)) kvs) doc)"

definition doc_lookup :: "ini_doc \<Rightarrow> string \<Rightarrow> string \<Rightarrow> string option" where
  "doc_lookup doc sec key = map_of (rev (doc_entries doc)) (Lower sec @ ''/'' @ Lower key)"

text \<open>What can be written: trimmed text without newlines, keys without \<open>=\<close> that do not look like a comment or a section.\<close>

definition ini_text :: "string \<Rightarrow> bool" where
  "ini_text s = (trimmed s \<and> newline \<notin> set s)"

definition ini_key :: "string \<Rightarrow> bool" where
  "ini_key k = (ini_text k \<and> k \<noteq> [] \<and> CHR ''='' \<notin> set k \<and>
     hd k \<notin> {CHR '';'', CHR ''#'', CHR ''[''})"

definition ini_doc_ok :: "ini_doc \<Rightarrow> bool" where
  "ini_doc_ok doc = (\<forall>(s, kvs) \<in> set doc. newline \<notin> set s \<and>
     (\<forall>(k, v) \<in> set kvs. ini_key k \<and> ini_text v))"

lemma getlines_Nil [simp]: "getlines [] = []"
  by (subst getlines.simps) simp

lemma takeWhile_upto: "x \<notin> set l \<Longrightarrow> takeWhile (\<lambda>c. c \<noteq> x) (l @ x # r) = l"
  by (induction l) auto

lemma dropWhile_upto: "x \<notin> set l \<Longrightarrow> dropWhile (\<lambda>c. c \<noteq> x) (l @ x # r) = x # r"
  by (induction l) auto

lemma getlines_line: "newline \<notin> set l \<Longrightarrow> getlines (l @ newline # r) = l # getlines r"
  by (subst getlines.simps) (simp add: takeWhile_upto dropWhile_upto)

lemma getlines_render:
  "\<forall>l \<in> set ls. newline \<notin> set l \<Longrightarrow> getlines (concat (map (\<lambda>l. l @ [newline]) ls)) = ls"
  by (induction ls) (simp_all add: getlines_line)

lemma newline_neq: "of_char c \<noteq> (10 :: nat) \<Longrightarrow> newline \<noteq> c"
  by (auto simp: newline_def)

lemma newline_chars [simp]:
  "newline \<noteq> CHR ''=''" "newline \<noteq> CHR ''[''" "newline \<noteq> CHR '']''"
  "\<not> isspace (CHR ''['')" "\<not> isspace (CHR '']'')" "\<not> isspace (CHR ''='')"
  by (rule newline_neq, simp)+ (simp_all add: isspace_def)

text \<open>The value a key has after the assignments of a document.\<close>

definition put_all :: "(string \<times> string) list \<Rightarrow> Ini \<Rightarrow> Ini" where
  "put_all es m = fold (\<lambda>(k, v). AList.update k v) es m"

lemma map_of_put_all: "map_of (put_all es m) k = map_of (rev es @ m) k"
  unfolding put_all_def
  by (induction es arbitrary: m) (auto simp: update_conv' map_add_def split: option.split)

lemma put_all_append: "put_all (a @ b) m = put_all b (put_all a m)"
  by (simp add: put_all_def)

lemma Load_line_section:
  "Load_line (''['' @ s @ '']'') st = (Lower s, snd st)"
proof -
  have "Trim (''['' @ s @ '']'') = ''['' @ s @ '']''"
    by (rule Trim_id) (simp add: trimmed_def)
  then show ?thesis by (simp add: Load_line_def Let_def split: prod.split)
qed

lemma Load_line_entry:
  assumes k: "ini_key k" and v: "ini_text v"
  shows "Load_line (k @ ''='' @ v) (sec, m) = (sec, AList.update (sec @ ''/'' @ Lower k) v m)"
proof -
  have k': "trimmed k" "k \<noteq> []" "CHR ''='' \<notin> set k" "hd k \<noteq> CHR '';''" "hd k \<noteq> CHR ''#''" "hd k \<noteq> CHR ''[''"
    and v': "trimmed v" using k v by (auto simp: ini_key_def ini_text_def)
  have "trimmed (k @ ''='' @ v)" using k' v' by (auto simp: trimmed_def)
  then have "Trim (k @ ''='' @ v) = k @ ''='' @ v" by (rule Trim_id)
  then show ?thesis using k' v'
    by (simp add: Load_line_def Let_def takeWhile_upto dropWhile_upto Trim_id)
qed

lemma Load_lines_section:
  assumes "\<forall>(k, v) \<in> set kvs. ini_key k \<and> ini_text v"
  shows "fold Load_line (concat (map render_entry kvs)) (sec, m) =
         (sec, put_all (map (\<lambda>(k, v). (sec @ ''/'' @ Lower k, v)) kvs) m)"
  using assms
  by (induction kvs arbitrary: m) (auto simp: render_entry_def put_all_def Load_line_entry [simplified])

lemma Load_lines_doc:
  assumes "ini_doc_ok doc"
  shows "snd (fold Load_line (concat (map render_section doc)) st) = put_all (doc_entries doc) (snd st)"
  using assms
proof (induction doc arbitrary: st)
  case Nil
  then show ?case by (simp add: doc_entries_def put_all_def)
next
  case (Cons e doc)
  obtain s kvs where e: "e = (s, kvs)" by (cases e)
  have kvs: "\<forall>(k, v) \<in> set kvs. ini_key k \<and> ini_text v" and doc: "ini_doc_ok doc"
    using Cons.prems by (auto simp: ini_doc_ok_def e)
  have "concat (map render_section (e # doc)) =
        (''['' @ s @ '']'') # concat (map render_entry kvs) @ concat (map render_section doc)"
    by (simp add: e render_section_def)
  then have "fold Load_line (concat (map render_section (e # doc))) st =
        fold Load_line (concat (map render_section doc))
          (Lower s, put_all (map (\<lambda>(k, v). (Lower s @ ''/'' @ Lower k, v)) kvs) (snd st))"
    using Load_lines_section [OF kvs] by (simp add: Load_line_section [simplified])
  then show ?case
    by (simp add: Cons.IH [OF doc] doc_entries_def put_all_append e)
qed

lemma render_lines:
  assumes "ini_doc_ok doc"
  shows "\<forall>l \<in> set (concat (map render_section doc)). newline \<notin> set l"
  using assms
  by (fastforce simp: ini_doc_ok_def render_section_def render_entry_def ini_key_def ini_text_def)

lemma Load_render:
  "ini_doc_ok doc \<Longrightarrow> Load (Some (render doc)) ini = (True, put_all (doc_entries doc) ini)"
  by (simp add: Load_def render_def getlines_render render_lines Load_lines_doc)



end
