(* ===== verification/F4_Engine.thy ===== *)
theory F4_Engine
  imports F4_Interp F4_Names F4_Ini
begin

text \<open>
  What the client stands on and does not define: the game engine, reached through
  CommonLibF4, and ENet. Both are parameters of the model. A call that changes something is
  recorded, oldest first; an answer is a function of the calls made so far, given by the
  record \<open>World\<close>, and every entry point of the client gets a world of its own, so that the
  engine may have changed arbitrarily in between. Pointers are numbers, and a null pointer
  is \<open>None\<close>.
\<close>

section \<open>Calls\<close>

type_synonym ref = nat
type_synonym npc = nat
type_synonym handle = "nat option"
type_synonym host_peer = nat

datatype sex = kNoSex | kMale | kFemale

text \<open>The fields of \<open>NEW_REFR_DATA\<close> the code sets.\<close>

record NewRef =
  nr_location :: Vec3
  nr_direction :: Vec3
  nr_object :: npc
  nr_interior :: "u32 option"
  nr_world :: "u32 option"
  nr_reference :: "ref option"
  nr_forcePersist :: bool
  nr_clearStillLoadingFlag :: bool
  nr_initializeScripts :: bool
  nr_initiallyDisabled :: bool

text \<open>ENet's side.\<close>

datatype enet_call =
    HostCreate nat nat
  | HostDestroy
  | AddressSetHost string
  | HostConnect u16 nat
  | PeerTimeout host_peer u32 u32 u32
  | PeerDisconnectNow host_peer
  | PeerReset host_peer
  | PeerSend host_peer u8 bool "u8 list"
  | HostService
  | PacketDestroy
  | Deinitialize

text \<open>The entry of a console command in the engine's table, as far as the code sets it; the handler is
  one of the plugin's functions, by name.\<close>

record ScriptParameter =
  sp_paramName :: string
  sp_isChar :: bool
  sp_optional :: bool

record ScriptFunction =
  sf_functionName :: string
  sf_shortName :: string
  sf_helpString :: string
  sf_referenceFunction :: bool
  sf_paramCount :: u16
  sf_parameters :: "ScriptParameter list"
  sf_executeFunction :: string
  sf_conditionFunction :: "string option"
  sf_editorFilter :: bool
  sf_invalidatesCellList :: bool

text \<open>The console, scripts, menus and input, and the registrations with the script extender.\<close>

datatype ui_call =
    ConsoleAdd string
  | RunCommand string
  | InvokeRaceMenu ref int
  | InvokeSpecialMenu
  | InvokeSetInCharGen
  | InvokeSetCharGenHUDMode int
  | InvokeForceFirstPerson
  | HideMenu string
  | ShowMenu string
  | CreateMessage string string string
  | EnableUserEvents nat
  | EnableOtherEvents nat
  | TakeOverFunction string ScriptFunction
  | RegisterListener
  | AddTaskPermanent

text \<open>Base forms.\<close>

datatype form_call =
    DuplicateForm
  | SetGhostBase bool
  | ResetBaseFlags
  | SetPassive
  | SetFullName string

text \<open>References and actors. \<open>TargetedCommand\<close> is a console command with the reference as its target.\<close>

datatype actor_call =
    SetDisplayName string
  | TargetedCommand string
  | DisableRef
  | DeleteRef
  | DoNothingPackage
  | StopCombat
  | SetSneaking bool
  | DrawWeapon bool
  | SetSprinting bool
  | SetPosition Vec3
  | SetHeading f32
  | Update3D
  | MoveActor f32 Vec3
  | SetAlpha f32
  | KillActor
  | ResurrectActor
  | SetGraphFloat string f32
  | SetGraphBool string bool

datatype call =
    Enet enet_call
  | Ui ui_call
  | Form npc form_call
  | CreateReference NewRef
  | Actor ref actor_call

section \<open>Answers\<close>

record Cell =
  cell_form :: u32
  cell_interior :: bool
  cell_world :: "u32 option"

type_synonym history = "call list"

text \<open>The fields of a base form and of an actor that are only printed.\<close>

record BaseFacts =
  bf_form :: u32
  bf_heads :: nat
  bf_skin :: "u32 option"
  bf_sex :: int

record ActorFacts =
  af_form :: u32
  af_node_flags :: "nat option"
  af_ghost :: bool
  af_disabled :: bool
  af_boolFlags :: nat
  af_formFlags :: nat
  af_process_level :: "int option"
  af_niFlags :: nat
  af_inGameFormFlags :: nat
  af_lifeState :: int
  af_weaponState :: int
  af_sneaking :: nat
  af_sprinting :: nat
  af_sitSleepState :: int

text \<open>A read of a variable of the animation graph says whether it exists (\<open>w_graph_float\<close> and the
  like) and may set the variable it is given (\<open>w_float_out\<close> and the like).\<close>

record World =
  w_host_create :: "history \<Rightarrow> bool"
  w_address :: "history \<Rightarrow> bool"
  w_connect :: "history \<Rightarrow> host_peer option"
  w_runtime :: u32
  w_version :: string
  w_round_trip :: "history \<Rightarrow> host_peer \<Rightarrow> u32"
  w_console :: "history \<Rightarrow> bool"
  w_singleton :: "history \<Rightarrow> ref option"
  w_cell :: "history \<Rightarrow> ref \<Rightarrow> Cell option"
  w_base :: "history \<Rightarrow> ref \<Rightarrow> npc option"
  w_full_name :: "history \<Rightarrow> npc \<Rightarrow> string option"
  w_get :: "history \<Rightarrow> nat \<Rightarrow> ref option"
  w_is_actor :: "history \<Rightarrow> ref \<Rightarrow> bool"
  w_npc_form :: "history \<Rightarrow> u32 \<Rightarrow> npc option"
  w_duplicate :: "history \<Rightarrow> npc option"
  w_data_handler :: "history \<Rightarrow> bool"
  w_cell_exists :: "history \<Rightarrow> u32 \<Rightarrow> bool"
  w_world_exists :: "history \<Rightarrow> u32 \<Rightarrow> bool"
  w_created :: "history \<Rightarrow> handle"
  w_process :: "history \<Rightarrow> ref \<Rightarrow> bool"
  w_in_combat :: "history \<Rightarrow> ref \<Rightarrow> bool"
  w_alpha :: "history \<Rightarrow> ref \<Rightarrow> f32"
  w_position :: "history \<Rightarrow> ref \<Rightarrow> Vec3"
  w_angle :: "history \<Rightarrow> ref \<Rightarrow> f32"
  w_sneaking :: "history \<Rightarrow> ref \<Rightarrow> bool"
  w_weapon_drawn :: "history \<Rightarrow> ref \<Rightarrow> bool"
  w_dead :: "history \<Rightarrow> ref \<Rightarrow> bool"
  w_sprinting :: "history \<Rightarrow> ref \<Rightarrow> bool"
  w_health_value :: "history \<Rightarrow> bool"
  w_health :: "history \<Rightarrow> ref \<Rightarrow> f32"
  w_base_health :: "history \<Rightarrow> ref \<Rightarrow> f32"
  w_graph_float :: "history \<Rightarrow> ref \<Rightarrow> string \<Rightarrow> bool"
  w_graph_bool :: "history \<Rightarrow> ref \<Rightarrow> string \<Rightarrow> bool"
  w_stage :: "history \<Rightarrow> u32 \<Rightarrow> u16 option"
  w_ui :: "history \<Rightarrow> bool"
  w_menu_open :: "history \<Rightarrow> string \<Rightarrow> bool option"
  w_ui_queue :: "history \<Rightarrow> bool"
  w_message_manager :: "history \<Rightarrow> bool"
  w_vm :: "history \<Rightarrow> bool"
  w_3d_loaded :: "history \<Rightarrow> ref \<Rightarrow> bool"
  w_sex :: "history \<Rightarrow> ref \<Rightarrow> sex"
  w_input_layers :: "history \<Rightarrow> nat list option"
  w_graph_int :: "history \<Rightarrow> ref \<Rightarrow> string \<Rightarrow> bool"
  w_float_out :: "history \<Rightarrow> ref \<Rightarrow> string \<Rightarrow> f32 option"
  w_int_out :: "history \<Rightarrow> ref \<Rightarrow> string \<Rightarrow> int option"
  w_bool_out :: "history \<Rightarrow> ref \<Rightarrow> string \<Rightarrow> bool option"
  w_base_facts :: "history \<Rightarrow> npc \<Rightarrow> BaseFacts"
  w_actor_facts :: "history \<Rightarrow> ref \<Rightarrow> ActorFacts"
  w_console_function :: "history \<Rightarrow> string \<Rightarrow> bool"

section \<open>The surroundings of the client\<close>

text \<open>The clock as for the server, and the calls made.\<close>

record Env =
  e_clock :: "nat \<Rightarrow> int"
  e_readings :: nat
  e_calls :: history

definition e_now :: "'a Env_scheme \<Rightarrow> int \<times> 'a Env_scheme" where
  "e_now s = (e_clock s (e_readings s), s\<lparr>e_readings := Suc (e_readings s)\<rparr>)"

definition do_call :: "call \<Rightarrow> 'a Env_scheme \<Rightarrow> 'a Env_scheme" where
  "do_call c s = s\<lparr>e_calls := e_calls s @ [c]\<rparr>"

definition do_calls :: "call list \<Rightarrow> 'a Env_scheme \<Rightarrow> 'a Env_scheme" where
  "do_calls cs s = s\<lparr>e_calls := e_calls s @ cs\<rparr>"

lemma do_calls_simps [simp]:
  "do_calls [] s = s" "do_calls cs (do_calls bs s) = do_calls (bs @ cs) s"
  "e_calls (do_calls cs s) = e_calls s @ cs" "e_clock (do_calls cs s) = e_clock s"
  "e_readings (do_calls cs s) = e_readings s" "Env.more (do_calls cs s) = Env.more s"
  by (simp_all add: do_calls_def)

lemma do_call_calls: "do_call c = do_calls [c]"
  by (simp add: do_call_def do_calls_def fun_eq_iff)

end
