(* ===== verification/F4_Format.thy ===== *)
theory F4_Format
  imports F4_Float
begin

text \<open>
  What the client asks of \<open>std::format\<close>: the presentations \<open>{}\<close>, \<open>{:X}\<close>, \<open>{:08X}\<close>,
  \<open>{:<22}\<close> and \<open>{:.2f}\<close> for the types it prints. A floating-point value with a precision is
  its exact value rounded to that many decimals, ties to even; without one it is the
  shortest text that reads back as the same value.
\<close>

section \<open>Integers and booleans\<close>

definition quote :: "string \<Rightarrow> string" where
  "quote s = [CHR 0x22] @ s @ [CHR 0x22]"

definition bool_text :: "bool \<Rightarrow> string" where
  "bool_text b = (if b then ''true'' else ''false'')"

definition int_text :: "int \<Rightarrow> string" where
  "int_text i = (if i < 0 then ''-'' else []) @ to_string (nat \<bar>i\<bar>)"

definition hex_digit :: "nat \<Rightarrow> char" where
  "hex_digit n = (if n < 10 then char_of (48 + n) else char_of (55 + n))"

text \<open>\<open>{:08X}\<close> of 32 bits, and \<open>{:X}\<close>.\<close>

definition hex8 :: "u32 \<Rightarrow> string" where
  "hex8 w = map (\<lambda>i. hex_digit (unat w div 16 ^ i mod 16)) [7, 6, 5, 4, 3, 2, 1, 0]"

fun hex_text :: "nat \<Rightarrow> string" where
  "hex_text n = (if n < 16 then [hex_digit n] else hex_text (n div 16) @ [hex_digit (n mod 16)])"

declare hex_text.simps [simp del]

text \<open>\<open>{:<n}\<close>: filled with blanks on the right; a character is one column.\<close>

definition pad_right :: "nat \<Rightarrow> string \<Rightarrow> string" where
  "pad_right n s = s @ replicate (n - length s) CHR '' ''"

definition pad_zeros :: "nat \<Rightarrow> string \<Rightarrow> string" where
  "pad_zeros n s = replicate (n - length s) CHR ''0'' @ s"

section \<open>A fixed number of decimals\<close>

text \<open>The value \<open>m * 2 ^ e\<close> in units of the last decimal.\<close>

definition fixed_units :: "nat \<Rightarrow> nat \<Rightarrow> int \<Rightarrow> nat" where
  "fixed_units p m e = (if 0 \<le> e then m * 2 ^ nat e * 10 ^ p else rne_div (m * 10 ^ p) (2 ^ nat (- e)))"

definition fixed_text :: "nat \<Rightarrow> nat \<Rightarrow> string" where
  "fixed_text p n =
     to_string (n div 10 ^ p) @ (if p = 0 then [] else CHR ''.'' # pad_zeros p (to_string (n mod 10 ^ p)))"

primrec magnitude_text :: "nat \<Rightarrow> fp \<Rightarrow> string" where
  "magnitude_text p NaN = ''nan''"
| "magnitude_text p (Inf s) = ''inf''"
| "magnitude_text p (Fin s m e) = fixed_text p (fixed_units p m e)"

definition f32_fixed :: "nat \<Rightarrow> f32 \<Rightarrow> string" where
  "f32_fixed p w =
     (if sign_bit single \<le> unat w then ''-'' else []) @ magnitude_text p (decode single (unat w))"

definition f64_fixed :: "nat \<Rightarrow> f64 \<Rightarrow> string" where
  "f64_fixed p w =
     (if sign_bit double \<le> unat w then ''-'' else []) @ magnitude_text p (decode double (unat w))"

section \<open>The shortest text\<close>

text \<open>The decimal exponent of \<open>n / d\<close>, for a positive fraction not below the smallest \<open>float\<close>.\<close>

definition decimal_exponent :: "nat \<Rightarrow> nat \<Rightarrow> int" where
  "decimal_exponent n d =
     (if d \<le> n then int (length (dec_digits (n div d))) - 1
      else case List.find (\<lambda>j. d \<le> n * 10 ^ j) [1..<50] of Some j \<Rightarrow> - int j | None \<Rightarrow> - 50)"

text \<open>\<open>u * 10 ^ q\<close> as the nearest \<open>float\<close>.\<close>

definition read_back :: "nat \<Rightarrow> int \<Rightarrow> f32" where
  "read_back u q = (if 0 \<le> q then f32_lit (u * 10 ^ nat q) 1 else f32_lit u (10 ^ nat (- q)))"

text \<open>With \<open>k\<close> digits: the two decimals around the value, the nearer one first, as far as they read back.\<close>

definition digits_of :: "f32 \<Rightarrow> nat \<Rightarrow> nat \<Rightarrow> nat \<Rightarrow> (nat \<times> int) option" where
  "digits_of w n d k =
     (let q = decimal_exponent n d - int k + 1;
          (n', d') = (if 0 \<le> q then (n, d * 10 ^ nat q) else (n * 10 ^ nat (- q), d));
          lo = n' div d';
          us = (if 2 * (n' mod d') \<le> d' then [lo, lo + 1] else [lo + 1, lo])
      in map_option (\<lambda>u. (u, q)) (List.find (\<lambda>u. read_back u q = w) us))"

definition shortest_digits :: "f32 \<Rightarrow> nat \<Rightarrow> nat \<Rightarrow> (nat \<times> int) option" where
  "shortest_digits w n d =
     fold (\<lambda>k r. case r of Some x \<Rightarrow> Some x | None \<Rightarrow> digits_of w n d k) [1..<10] None"

definition scientific_text :: "string \<Rightarrow> int \<Rightarrow> string" where
  "scientific_text ds x =
     take 1 ds @ (if length ds = 1 then [] else CHR ''.'' # drop 1 ds) @ ''e'' @
     (if x < 0 then ''-'' else ''+'') @ pad_zeros 2 (to_string (nat \<bar>x\<bar>))"

definition positional_text :: "nat \<Rightarrow> string \<Rightarrow> int \<Rightarrow> string" where
  "positional_text whole ds q =
     (let x = q + int (length ds) - 1
      in if 0 \<le> q then to_string whole
         else if 0 \<le> x then take (nat x + 1) ds @ CHR ''.'' # drop (nat x + 1) ds
         else ''0.'' @ replicate (nat (- x - 1)) CHR ''0'' @ ds)"

definition shortest_text :: "f32 \<Rightarrow> nat \<Rightarrow> nat \<Rightarrow> string" where
  "shortest_text w n d =
     (case shortest_digits w n d of
        None \<Rightarrow> []
      | Some (u, q) \<Rightarrow>
          let all = to_string u;
              ds = rev (dropWhile (\<lambda>c. c = CHR ''0'') (rev all));
              q = q + int (length all - length ds);
              plain = positional_text (n div d) ds q;
              sci = scientific_text ds (q + int (length ds) - 1)
          in if length plain \<le> length sci then plain else sci)"

text \<open>\<open>{}\<close> of a \<open>float\<close>.\<close>

definition f32_text :: "f32 \<Rightarrow> string" where
  "f32_text w =
     (if sign_bit single \<le> unat w then ''-'' else []) @
     (case decode single (unat w) of
        NaN \<Rightarrow> ''nan''
      | Inf s \<Rightarrow> ''inf''
      | Fin s m e \<Rightarrow>
          if m = 0 then ''0''
          else let a = f32_abs w
               in if 0 \<le> e then shortest_text a (m * 2 ^ nat e) 1 else shortest_text a m (2 ^ nat (- e)))"

end
