(* ===== verification/F4_GameUtil.thy ===== *)
theory F4_GameUtil
  imports F4_Engine F4_Format
begin

text \<open>
  \<open>client/src/Game/GameUtil.hpp\<close> and \<open>GameUtil.cpp\<close>: the helpers over the engine, and
  \<open>client/src/Sync/LocalPlayer.cpp\<close>, which reads the local player's state with them. Logging
  is left out.
\<close>

definition PLAYER_BASE_FORM_ID :: u32 where "PLAYER_BASE_FORM_ID = 7"

section \<open>Square root\<close>

text \<open>\<open>std::sqrt\<close> of a \<open>float\<close>, correctly rounded: the integer root of the significand with
  enough bits, and one more bit that says whether anything is left.\<close>

fun isqrt :: "nat \<Rightarrow> nat" where
  "isqrt n = (if n = 0 then 0 else let r = 2 * isqrt (n div 4) in if (r + 1) * (r + 1) \<le> n then r + 1 else r)"

declare isqrt.simps [simp del]

lemma isqrt_bounds: "isqrt n * isqrt n \<le> n \<and> n < (isqrt n + 1) * (isqrt n + 1)"
proof (induction n rule: isqrt.induct)
  case (1 n)
  show ?case
  proof (cases "n = 0")
    case False
    let ?q = "isqrt (n div 4)"
    have a: "?q * ?q \<le> n div 4" "n div 4 < (?q + 1) * (?q + 1)" using 1 [OF False] by simp_all
    have "4 * (?q * ?q) \<le> n" using a(1) by linarith
    moreover have "n < 4 * ((?q + 1) * (?q + 1))" using a(2) by linarith
    ultimately show ?thesis using False by (subst (1 2 3 4) isqrt.simps) (simp add: Let_def algebra_simps)
  qed (simp add: isqrt.simps)
qed

fun fp_sqrt :: "fp \<Rightarrow> fp" where
  "fp_sqrt (Fin s m e) =
     (if m = 0 then Fin s 0 e
      else if s then NaN
      else let (m', e') = (if even e then (m, e) else (2 * m, e - 1));
               n = m' * 4 ^ 64;
               r = isqrt n
           in Fin False (2 * r + (if r * r = n then 0 else 1)) (e' div 2 - 65))"
| "fp_sqrt (Inf s) = (if s then NaN else Inf False)"
| "fp_sqrt NaN = NaN"

definition f32_sqrt :: "f32 \<Rightarrow> f32" where
  "f32_sqrt a = word_of_nat (encode single (fp_sqrt (decode single (unat a))))"

section \<open>Where a reference is\<close>

record Space =
  sp_worldspaceId :: u32
  sp_cellId :: u32
  sp_interior :: bool

definition Space_default :: Space where
  "Space_default = \<lparr>sp_worldspaceId = 0, sp_cellId = 0, sp_interior = False\<rparr>"

definition SameArea :: "Space \<Rightarrow> Space \<Rightarrow> bool" where
  "SameArea a b =
     (if sp_interior a \<noteq> sp_interior b then False
      else if sp_interior a then sp_cellId a = sp_cellId b else sp_worldspaceId a = sp_worldspaceId b)"

definition GetPlayer :: "World \<Rightarrow> history \<Rightarrow> ref option" where
  "GetPlayer W h =
     (case w_singleton W h of
        None \<Rightarrow> None
      | Some player \<Rightarrow> if w_cell W h player = None then None else Some player)"

definition GetSpace :: "World \<Rightarrow> history \<Rightarrow> ref option \<Rightarrow> Space option" where
  "GetSpace W h a_ref =
     (case a_ref of
        None \<Rightarrow> None
      | Some r \<Rightarrow>
          (case w_cell W h r of
             None \<Rightarrow> None
           | Some cell \<Rightarrow>
               let space = Space_default\<lparr>sp_cellId := cell_form cell, sp_interior := cell_interior cell\<rparr>
               in Some (case cell_world cell of None \<Rightarrow> space | Some world \<Rightarrow> space\<lparr>sp_worldspaceId := world\<rparr>)))"

definition SpaceFromState :: "PlayerState \<Rightarrow> Space" where
  "SpaceFromState st =
     \<lparr>sp_worldspaceId = worldspaceId st, sp_cellId = cellId st, sp_interior = (worldspaceId st = 0)\<rparr>"

definition GetPlayerName :: "World \<Rightarrow> history \<Rightarrow> string" where
  "GetPlayerName W h =
     (let base = (case w_singleton W h of None \<Rightarrow> None | Some player \<Rightarrow> w_base W h player)
      in case (case base of None \<Rightarrow> None | Some b \<Rightarrow> w_full_name W h b) of
           Some name \<Rightarrow> if name \<noteq> [] then name else ''Wastelander''
         | None \<Rightarrow> ''Wastelander'')"

text \<open>\<open>std::string::c_str()\<close> as the engine reads it: up to the first zero byte.\<close>

definition c_str :: "string \<Rightarrow> string" where
  "c_str s = takeWhile (\<lambda>c. c \<noteq> char_of (0 :: nat)) s"

definition ConsolePrint :: "World \<Rightarrow> string \<Rightarrow> 'a Env_scheme \<Rightarrow> 'a Env_scheme" where
  "ConsolePrint W text s =
     (if \<not> w_console W (e_calls s) then s else do_call (Ui (ConsoleAdd (c_str (text @ [newline])))) s)"

definition ToNi :: "Vec3 \<Rightarrow> Vec3" where
  "ToNi v = \<lparr>vx = vx v, vy = vy v, vz = vz v\<rparr>"

section \<open>Clone base forms\<close>

definition RenameCloneBase :: "npc option \<Rightarrow> string \<Rightarrow> 'a Env_scheme \<Rightarrow> 'a Env_scheme" where
  "RenameCloneBase a_base name s =
     (case a_base of None \<Rightarrow> s | Some b \<Rightarrow> do_call (Form b (SetFullName (c_str name))) s)"

definition CreateCloneBase :: "World \<Rightarrow> u32 \<Rightarrow> string \<Rightarrow> bool \<Rightarrow> 'a Env_scheme \<Rightarrow> npc option \<times> 'a Env_scheme" where
  "CreateCloneBase W a_source name ghost s =
     (case w_npc_form W (e_calls s) a_source of
        None \<Rightarrow> (None, s)
      | Some source \<Rightarrow>
          let s = do_call (Form source DuplicateForm) s
          in case w_duplicate W (e_calls s) of
               None \<Rightarrow> (None, s)
             | Some npc \<Rightarrow>
                 let s = do_call (Form npc (SetGhostBase ghost)) s;
                     s = do_call (Form npc ResetBaseFlags) s;
                     s = do_call (Form npc SetPassive) s
                 in (Some npc, RenameCloneBase (Some npc) name s))"

section \<open>Clone actors\<close>

definition w_resolve :: "World \<Rightarrow> history \<Rightarrow> handle \<Rightarrow> ref option" where
  "w_resolve W h hdl = (case hdl of None \<Rightarrow> None | Some n \<Rightarrow> w_get W h n)"

definition SpawnPlayerClone ::
  "World \<Rightarrow> npc option \<Rightarrow> Vec3 \<Rightarrow> f32 \<Rightarrow> Space \<Rightarrow> 'a Env_scheme \<Rightarrow> handle \<times> 'a Env_scheme" where
  "SpawnPlayerClone W a_base spot a_yaw space s =
     (case a_base of
        None \<Rightarrow> (None, s)
      | Some b \<Rightarrow>
          if \<not> w_data_handler W (e_calls s) then (None, s)
          else
            let interior = (if sp_interior space \<and> w_cell_exists W (e_calls s) (sp_cellId space)
                            then Some (sp_cellId space) else None);
                world = (if \<not> sp_interior space \<and> w_world_exists W (e_calls s) (sp_worldspaceId space)
                         then Some (sp_worldspaceId space) else None)
            in if interior = None \<and> world = None then (None, s)
               else
                 let s = do_call (CreateReference
                       \<lparr>nr_location = spot, nr_direction = \<lparr>vx = 0, vy = 0, vz = a_yaw\<rparr>, nr_object = b,
                        nr_interior = interior, nr_world = world, nr_reference = None,
                        nr_forcePersist = False, nr_clearStillLoadingFlag = True,
                        nr_initializeScripts = False, nr_initiallyDisabled = False\<rparr>) s;
                     hdl = w_created W (e_calls s)
                 in case w_resolve W (e_calls s) hdl of
                      None \<Rightarrow> (hdl, s)
                    | Some r \<Rightarrow> if Some r = w_singleton W (e_calls s) then (None, s) else (hdl, s))"

definition ApplyCloneIdentity :: "ref option \<Rightarrow> string \<Rightarrow> bool \<Rightarrow> 'a Env_scheme \<Rightarrow> 'a Env_scheme" where
  "ApplyCloneIdentity a_ref name ghost s =
     (case a_ref of
        None \<Rightarrow> s
      | Some r \<Rightarrow>
          let s = do_call (Actor r (SetDisplayName (c_str name))) s
          in if ghost then do_call (Actor r (TargetedCommand ''SetGhost 1'')) s else s)"

definition PacifyClone :: "World \<Rightarrow> ref \<Rightarrow> 'a Env_scheme \<Rightarrow> bool \<times> 'a Env_scheme" where
  "PacifyClone W actor s =
     (if \<not> w_process W (e_calls s) actor then (False, s)
      else let s = do_call (Actor actor DoNothingPackage) s
           in (True, if w_in_combat W (e_calls s) actor then do_call (Actor actor StopCombat) s else s))"

definition ApplyStateFlags :: "ref \<Rightarrow> u8 \<Rightarrow> u8 \<Rightarrow> 'a Env_scheme \<Rightarrow> 'a Env_scheme" where
  "ApplyStateFlags actor a_flags a_previous s =
     (let changed = a_flags XOR a_previous;
          s = (if changed AND kStateSneaking \<noteq> 0 then do_call (Actor actor (SetSneaking (a_flags AND kStateSneaking \<noteq> 0))) s else s);
          s = (if changed AND kStateWeaponDrawn \<noteq> 0 then do_call (Actor actor (DrawWeapon (a_flags AND kStateWeaponDrawn \<noteq> 0))) s else s)
      in if changed AND kStateSprinting \<noteq> 0 then do_call (Actor actor (SetSprinting (a_flags AND kStateSprinting \<noteq> 0))) s else s)"

definition DriveClone :: "ref \<Rightarrow> Vec3 \<Rightarrow> f32 \<Rightarrow> 'a Env_scheme \<Rightarrow> 'a Env_scheme" where
  "DriveClone actor spot a_yaw s =
     do_call (Actor actor Update3D) (do_call (Actor actor (SetHeading a_yaw)) (do_call (Actor actor (SetPosition spot)) s))"

definition SNAP_DISTANCE :: f32 where "SNAP_DISTANCE = f32_lit 250 1"

definition DriveCloneByMove :: "World \<Rightarrow> ref \<Rightarrow> Vec3 \<Rightarrow> f32 \<Rightarrow> f32 \<Rightarrow> 'a Env_scheme \<Rightarrow> 'a Env_scheme" where
  "DriveCloneByMove W actor spot a_yaw dt s =
     (let current = w_position W (e_calls s) actor;
          delta = \<lparr>vx = f32_sub (vx spot) (vx current), vy = f32_sub (vy spot) (vy current), vz = f32_sub (vz spot) (vz current)\<rparr>;
          distance = f32_sqrt (f32_add (f32_add (f32_mul (vx delta) (vx delta)) (f32_mul (vy delta) (vy delta)))
                                       (f32_mul (vz delta) (vz delta)))
      in if f32_lt SNAP_DISTANCE distance then DriveClone actor spot a_yaw s
         else do_call (Actor actor (MoveActor dt delta)) (do_call (Actor actor (SetHeading a_yaw)) s))"

section \<open>Variables of the animation graph\<close>

definition ReadGraphFloat :: "World \<Rightarrow> history \<Rightarrow> ref option \<Rightarrow> string \<Rightarrow> f32" where
  "ReadGraphFloat W h a_actor name =
     (let v = f32_neg (f32_lit 1 1)
      in case a_actor of
           None \<Rightarrow> v
         | Some r \<Rightarrow> (case w_float_out W h r name of None \<Rightarrow> v | Some v \<Rightarrow> v))"

definition ReadGraphBool :: "World \<Rightarrow> history \<Rightarrow> ref option \<Rightarrow> string \<Rightarrow> bool" where
  "ReadGraphBool W h a_actor name =
     (case a_actor of
        None \<Rightarrow> False
      | Some r \<Rightarrow> (case w_bool_out W h r name of None \<Rightarrow> False | Some v \<Rightarrow> v))"

record GraphValue =
  gv_asFloat :: bool
  gv_f :: f32
  gv_asInt :: bool
  gv_i :: int
  gv_asBool :: bool
  gv_b :: bool

definition GraphValue_default :: GraphValue where
  "GraphValue_default = \<lparr>gv_asFloat = False, gv_f = 0, gv_asInt = False, gv_i = 0, gv_asBool = False, gv_b = False\<rparr>"

definition Exists :: "GraphValue \<Rightarrow> bool" where
  "Exists v = (gv_asFloat v \<or> gv_asInt v \<or> gv_asBool v)"

definition Describe :: "GraphValue \<Rightarrow> string" where
  "Describe v =
     (if \<not> Exists v then ''-''
      else
        let out = (if gv_asFloat v then ''f='' @ f32_fixed 2 (gv_f v) else []);
            out = (if gv_asInt v then out @ (if out = [] then [] else '' '') @ ''i='' @ int_text (gv_i v) else out)
        in if gv_asBool v then out @ (if out = [] then [] else '' '') @ ''b='' @ bool_text (gv_b v) else out)"

definition ReadGraphValue :: "World \<Rightarrow> history \<Rightarrow> ref option \<Rightarrow> string \<Rightarrow> GraphValue" where
  "ReadGraphValue W h a_actor name =
     (case a_actor of
        None \<Rightarrow> GraphValue_default
      | Some r \<Rightarrow>
          let v = GraphValue_default;
              v = v\<lparr>gv_asFloat := w_graph_float W h r name,
                    gv_f := (case w_float_out W h r name of None \<Rightarrow> gv_f v | Some x \<Rightarrow> x)\<rparr>;
              v = v\<lparr>gv_asInt := w_graph_int W h r name,
                    gv_i := (case w_int_out W h r name of None \<Rightarrow> gv_i v | Some x \<Rightarrow> x)\<rparr>
          in v\<lparr>gv_asBool := w_graph_bool W h r name,
               gv_b := (case w_bool_out W h r name of None \<Rightarrow> gv_b v | Some x \<Rightarrow> x)\<rparr>)"

definition GraphVariableCandidates :: "string list" where
  "GraphVariableCandidates =
     [''Speed'', ''SpeedSampled'', ''SpeedDamped'', ''fSpeed'', ''MoveSpeed'', ''fMoveSpeed'',
      ''Direction'', ''DirectionSampled'', ''DirectionDamped'', ''TurnDelta'', ''fTurnDelta'',
      ''LocomotionSpeed'', ''fLocomotionSpeed'', ''SpeedTarget'', ''DesiredSpeed'',
      ''IsRunning'', ''IsSprinting'', ''IsWalking'', ''IsMoving'', ''bIsMoving'', ''bIsSynced'',
      ''iState'', ''iSyncTurnState'', ''iSyncIdleLocomotion'', ''bMotionDriven'', ''bAnimationDriven'',
      ''iIsInSneak'', ''IsBlocking'', ''IsAttacking'', ''bAimActive'', ''IsDead'', ''bEquipOk'',
      ''bInJumpState'', ''fFallTime'', ''bIsStaggering'', ''IsCasting'', ''iLeftHandType'',
      ''iRightHandType'', ''bWantsToSprint'', ''bIsCrouching'']"

section \<open>Locomotion\<close>

definition STOP_SPEED :: f32 where "STOP_SPEED = f32_lit 8 1"
definition RUN_SPEED :: f32 where "RUN_SPEED = f32_lit 260 1"
definition MAX_SPEED :: f32 where "MAX_SPEED = f32_lit 900 1"

text \<open>The two writers: only a variable the graph has is written.\<close>

definition writeFloat :: "World \<Rightarrow> ref \<Rightarrow> string \<Rightarrow> f32 \<Rightarrow> 'a Env_scheme \<Rightarrow> 'a Env_scheme" where
  "writeFloat W actor name v s =
     (if \<not> gv_asFloat (ReadGraphValue W (e_calls s) (Some actor) name) then s else do_call (Actor actor (SetGraphFloat name v)) s)"

definition writeBool :: "World \<Rightarrow> ref \<Rightarrow> string \<Rightarrow> bool \<Rightarrow> 'a Env_scheme \<Rightarrow> 'a Env_scheme" where
  "writeBool W actor name v s =
     (if \<not> gv_asBool (ReadGraphValue W (e_calls s) (Some actor) name) then s else do_call (Actor actor (SetGraphBool name v)) s)"

definition clone_speed :: "f32 \<Rightarrow> f32" where
  "clone_speed a_speed =
     (let speed = f32_clamp a_speed 0 MAX_SPEED in if f32_lt speed STOP_SPEED then 0 else speed)"

definition SetLocomotion :: "World \<Rightarrow> ref \<Rightarrow> f32 \<Rightarrow> bool \<Rightarrow> bool \<Rightarrow> 'a Env_scheme \<Rightarrow> 'a Env_scheme" where
  "SetLocomotion W actor a_speed sprinting a_first s =
     (let speed = clone_speed a_speed;
          s = (if a_first then writeBool W actor ''bMotionDriven'' False (writeBool W actor ''bAnimationDriven'' False s) else s);
          s = fold (\<lambda>name. writeFloat W actor name speed) [''SpeedSampled'', ''Speed'', ''SpeedDamped'', ''fSpeed'', ''MoveSpeed''] s;
          s = writeFloat W actor ''Direction'' 0 s;
          s = fold (\<lambda>name. writeBool W actor name (f32_le RUN_SPEED speed)) [''IsRunning'', ''bIsRunning''] s
      in fold (\<lambda>name. writeBool W actor name (sprinting \<and> f32_lt 0 speed)) [''IsSprinting'', ''bIsSprinting''] s)"

definition Despawn :: "World \<Rightarrow> handle \<Rightarrow> 'a Env_scheme \<Rightarrow> handle \<times> 'a Env_scheme" where
  "Despawn W hdl s =
     (case w_resolve W (e_calls s) hdl of
        None \<Rightarrow> (None, s)
      | Some r \<Rightarrow>
          if Some r = w_singleton W (e_calls s) then (None, s)
          else (None, do_call (Actor r DeleteRef) (do_call (Actor r DisableRef) s)))"

section \<open>Controls\<close>

definition RestorePlayerControl :: "World \<Rightarrow> 'a Env_scheme \<Rightarrow> 'a Env_scheme" where
  "RestorePlayerControl W s =
     (let s = (case w_input_layers W (e_calls s) of
                 None \<Rightarrow> s
               | Some ids \<Rightarrow> fold (\<lambda>i s. do_call (Ui (EnableOtherEvents i)) (do_call (Ui (EnableUserEvents i)) s)) ids s);
          s = do_call (Ui (RunCommand ''EnablePlayerControls'')) s;
          s = do_call (Ui (RunCommand ''player.ChangeAnimArchetype'')) s;
          s = (if w_vm W (e_calls s)
               then do_call (Ui InvokeForceFirstPerson) (do_call (Ui (InvokeSetCharGenHUDMode 0)) (do_call (Ui InvokeSetInCharGen) s))
               else s)
      in if w_ui W (e_calls s) \<and> w_ui_queue W (e_calls s) \<and>
            \<not> (case w_menu_open W (e_calls s) ''HUDMenu'' of None \<Rightarrow> True | Some b \<Rightarrow> b)
         then do_call (Ui (ShowMenu ''HUDMenu'')) s else s)"

section \<open>The local player\<close>

text \<open>\<open>LocalPlayer::Sample\<close>: the health fields keep their defaults when the engine has no health value.\<close>

definition LocalPlayer_Sample :: "World \<Rightarrow> history \<Rightarrow> PlayerState option" where
  "LocalPlayer_Sample W h =
     (case GetPlayer W h of
        None \<Rightarrow> None
      | Some player \<Rightarrow>
          (case GetSpace W h (Some player) of
             None \<Rightarrow> None
           | Some space \<Rightarrow>
               let p = w_position W h player;
                   fl = kStateNone;
                   fl = (if w_sneaking W h player then fl OR kStateSneaking else fl);
                   fl = (if w_weapon_drawn W h player then fl OR kStateWeaponDrawn else fl);
                   fl = (if w_dead W h player then fl OR kStateDead else fl);
                   fl = (if w_sprinting W h player then fl OR kStateSprinting else fl);
                   st = PlayerState_default\<lparr>position := \<lparr>vx = vx p, vy = vy p, vz = vz p\<rparr>, yaw := w_angle W h player,
                          worldspaceId := sp_worldspaceId space, cellId := sp_cellId space, flags := fl\<rparr>
               in Some (if w_health_value W h
                        then st\<lparr>health := w_health W h player, maxHealth := w_base_health W h player\<rparr> else st)))"

end
