(* ===== verification/F4_NetClient.thy ===== *)
theory F4_NetClient
  imports F4_Engine F4_Protocol
begin

text \<open>
  \<open>client/src/Net/NetClient.hpp\<close> and \<open>NetClient.cpp\<close>: the client's connection. The record
  extends the surroundings; an owner extends it further and hands in the three callbacks,
  which act on the owner's whole state. The events ENet delivers are the argument of
  \<open>Pump\<close>. Logging is left out.
\<close>

section \<open>State\<close>

datatype NetState = kDisconnected | kConnecting | kConnected

definition CONNECT_TIMEOUT :: int where "CONNECT_TIMEOUT = 8 * 10 ^ 9"

record NetClient = Env +
  n_host :: bool
  n_peer :: "host_peer option"
  n_state :: NetState
  n_enetReady :: bool
  n_connectStart :: int

text \<open>A \<open>std::function\<close> may be empty.\<close>

record 's Callbacks =
  onConnected :: "('s \<Rightarrow> 's) option"
  onDisconnected :: "(string \<Rightarrow> 's \<Rightarrow> 's) option"
  onPacket :: "(u8 list \<Rightarrow> 's \<Rightarrow> 's) option"

definition IsConnected :: "'a NetClient_scheme \<Rightarrow> bool" where
  "IsConnected s = (n_state s = kConnected)"

definition enet :: "enet_call \<Rightarrow> 'a Env_scheme \<Rightarrow> 'a Env_scheme" where
  "enet c = do_call (Enet c)"

section \<open>Operations\<close>

definition NetClient_Reset :: "'a NetClient_scheme \<Rightarrow> 'a NetClient_scheme" where
  "NetClient_Reset s =
     (let s = (case n_peer s of
                 None \<Rightarrow> s
               | Some p \<Rightarrow>
                   (if n_state s = kConnected then enet (PeerDisconnectNow p) s else enet (PeerReset p) s)\<lparr>n_peer := None\<rparr>)
      in s\<lparr>n_state := kDisconnected\<rparr>)"

text \<open>The destructor.\<close>

definition NetClient_delete :: "'a NetClient_scheme \<Rightarrow> 'a NetClient_scheme" where
  "NetClient_delete s =
     (let s = NetClient_Reset s;
          s = (if n_host s then (enet HostDestroy s)\<lparr>n_host := False\<rparr> else s)
      in if n_enetReady s then enet Deinitialize s else s)"

definition NetClient_Connect :: "World \<Rightarrow> string \<Rightarrow> u16 \<Rightarrow> 'a NetClient_scheme \<Rightarrow> bool \<times> 'a NetClient_scheme" where
  "NetClient_Connect W a_host a_port s =
     (if \<not> n_enetReady s then (False, s)
      else
        let s = NetClient_Reset s;
            s = (if n_host s then s
                 else let s = enet (HostCreate 1 (unat (channel_number kCount))) s
                      in s\<lparr>n_host := w_host_create W (e_calls s)\<rparr>)
        in if \<not> n_host s then (False, s)
           else
             let s = enet (AddressSetHost (takeWhile (\<lambda>c. c \<noteq> char_of (0 :: nat)) a_host)) s
             in if \<not> w_address W (e_calls s) then (False, s)
                else
                  let s = enet (HostConnect a_port (unat (channel_number kCount))) s;
                      s = s\<lparr>n_peer := w_connect W (e_calls s)\<rparr>
                  in case n_peer s of
                       None \<Rightarrow> (False, s)
                     | Some p \<Rightarrow>
                         let s = enet (PeerTimeout p 0 60000 180000) s;
                             s = s\<lparr>n_state := kConnecting\<rparr>;
                             (t, s) = e_now s
                         in (True, s\<lparr>n_connectStart := t\<rparr>))"

definition notify_disconnected :: "'a NetClient_scheme Callbacks \<Rightarrow> string \<Rightarrow> 'a NetClient_scheme \<Rightarrow> 'a NetClient_scheme" where
  "notify_disconnected cb reason s = (case onDisconnected cb of None \<Rightarrow> s | Some f \<Rightarrow> f reason s)"

definition NetClient_Disconnect :: "'a NetClient_scheme Callbacks \<Rightarrow> 'a NetClient_scheme \<Rightarrow> 'a NetClient_scheme" where
  "NetClient_Disconnect cb s =
     (if n_state s = kDisconnected then s
      else notify_disconnected cb ''Disconnected'' (NetClient_Reset s))"

definition NetClient_Fail :: "'a NetClient_scheme Callbacks \<Rightarrow> string \<Rightarrow> 'a NetClient_scheme \<Rightarrow> 'a NetClient_scheme" where
  "NetClient_Fail cb reason s = notify_disconnected cb reason (NetClient_Reset s)"

datatype net_client_event = CliConnect | CliReceive "u8 list" | CliDisconnect | CliNone

definition pump_event :: "'a NetClient_scheme Callbacks \<Rightarrow> net_client_event \<Rightarrow> 'a NetClient_scheme \<Rightarrow> 'a NetClient_scheme" where
  "pump_event cb e s =
     (case e of
        CliConnect \<Rightarrow>
          let s = s\<lparr>n_state := kConnected\<rparr>
          in (case onConnected cb of None \<Rightarrow> s | Some f \<Rightarrow> f s)
      | CliReceive bytes \<Rightarrow>
          enet PacketDestroy (case onPacket cb of None \<Rightarrow> s | Some f \<Rightarrow> f bytes s)
      | CliDisconnect \<Rightarrow>
          let wasConnecting = (n_state s = kConnecting);
              s = s\<lparr>n_peer := None, n_state := kDisconnected\<rparr>
          in notify_disconnected cb (if wasConnecting then ''Connection refused'' else ''Connection closed'') s
      | CliNone \<Rightarrow> s)"

text \<open>The loop: the events, then a call of \<open>enet_host_service\<close> that returns none.\<close>

definition pump_loop :: "'a NetClient_scheme Callbacks \<Rightarrow> net_client_event list \<Rightarrow> 'a NetClient_scheme \<Rightarrow> 'a NetClient_scheme" where
  "pump_loop cb es s = enet HostService (fold (\<lambda>e s. pump_event cb e (enet HostService s)) es s)"

text \<open>The clock is read only while connecting.\<close>

definition NetClient_Pump :: "'a NetClient_scheme Callbacks \<Rightarrow> net_client_event list \<Rightarrow> 'a NetClient_scheme \<Rightarrow> 'a NetClient_scheme" where
  "NetClient_Pump cb es s =
     (if \<not> n_host s then s
      else
        let s = pump_loop cb es s
        in if n_state s = kConnecting
           then let (t, s) = e_now s
                in if t - n_connectStart s > CONNECT_TIMEOUT then NetClient_Fail cb ''Connection timed out'' s else s
           else s)"

definition NetClient_Send :: "Channel \<Rightarrow> u8 list \<Rightarrow> 'a NetClient_scheme \<Rightarrow> 'a NetClient_scheme" where
  "NetClient_Send a_channel bytes s =
     (case n_peer s of
        None \<Rightarrow> s
      | Some p \<Rightarrow>
          if n_state s \<noteq> kConnected then s
          else enet (PeerSend p (channel_number a_channel) (a_channel = kReliable) bytes) s)"

definition GetPingMs :: "World \<Rightarrow> 'a NetClient_scheme \<Rightarrow> u32" where
  "GetPingMs W s = (case n_peer s of None \<Rightarrow> 0 | Some p \<Rightarrow> w_round_trip W (e_calls s) p)"

end
