(* ===== verification/F4_RemotePlayers.thy ===== *)
theory F4_RemotePlayers
  imports F4_GameUtil F4_NetClient
begin

text \<open>
  \<open>client/src/Sync/RemotePlayers.hpp\<close> and \<open>RemotePlayers.cpp\<close>: the other players as the
  client keeps them, by id in a container with one fixed iteration order, with their
  snapshots, the estimate of the server's clock, and the actor each of them is given in
  the game. Logging is left out.
\<close>

definition SPAWN_RETRY_INTERVAL :: int where "SPAWN_RETRY_INTERVAL = 10 ^ 9"
definition MAX_SNAPSHOTS :: nat where "MAX_SNAPSHOTS = 64"
definition SNAPSHOT_KEEP_MS :: f64 where "SNAPSHOT_KEEP_MS = f64_lit 1500 1"

section \<open>State\<close>

record RemotePlayer =
  rp_id :: PlayerId
  rp_name :: string
  rp_snapshots :: "TimedState list"
  rp_base :: "npc option"
  rp_baseFailed :: bool
  rp_actor :: handle
  rp_actorSpace :: Space
  rp_actorDead :: bool
  rp_actorPacified :: bool
  rp_locomotionInit :: bool
  rp_appliedFlags :: u8
  rp_lastSpawnAttempt :: int
  rp_hasLastRender :: bool
  rp_lastRenderPos :: Vec3
  rp_lastRenderTime :: int
  rp_speed :: f32

definition RemotePlayer_default :: RemotePlayer where
  "RemotePlayer_default =
     \<lparr>rp_id = INVALID_PLAYER_ID, rp_name = [], rp_snapshots = [], rp_base = None, rp_baseFailed = False,
      rp_actor = None, rp_actorSpace = Space_default, rp_actorDead = False, rp_actorPacified = False,
      rp_locomotionInit = False, rp_appliedFlags = kStateNone, rp_lastSpawnAttempt = 0,
      rp_hasLastRender = False, rp_lastRenderPos = Vec3_default, rp_lastRenderTime = 0, rp_speed = 0\<rparr>"

definition HasState :: "RemotePlayer \<Rightarrow> bool" where
  "HasState p = (rp_snapshots p \<noteq> [])"

definition Latest :: "RemotePlayer \<Rightarrow> PlayerState" where
  "Latest p = ts_state (last (rp_snapshots p))"

definition IsSpawned :: "World \<Rightarrow> history \<Rightarrow> RemotePlayer \<Rightarrow> bool" where
  "IsSpawned W h p = (w_resolve W h (rp_actor p) \<noteq> None)"

record RemotePlayers = NetClient +
  r_players :: "(PlayerId \<times> RemotePlayer) list"
  r_interpDelayMs :: f32
  r_baseFormId :: u32
  r_drive :: bool
  r_pacify :: bool
  r_ghost :: bool
  r_duplicate :: bool
  r_move :: bool
  r_hasOffset :: bool
  r_offsetMs :: f64
  r_serverClock :: ServerClock

definition put_remote :: "PlayerId \<Rightarrow> RemotePlayer \<Rightarrow> 'a RemotePlayers_scheme \<Rightarrow> 'a RemotePlayers_scheme" where
  "put_remote i p s = s\<lparr>r_players := AList.update i p (r_players s)\<rparr>"

section \<open>Bookkeeping\<close>

definition RemotePlayers_Add :: "PlayerId \<Rightarrow> string \<Rightarrow> 'a RemotePlayers_scheme \<Rightarrow> 'a RemotePlayers_scheme" where
  "RemotePlayers_Add i name s =
     (let p = (case map_of (r_players s) i of None \<Rightarrow> RemotePlayer_default | Some p \<Rightarrow> p);
          p = p\<lparr>rp_id := i, rp_name := name\<rparr>
      in RenameCloneBase (rp_base p) (rp_name p) (put_remote i p s))"

definition RemotePlayers_Rename :: "World \<Rightarrow> PlayerId \<Rightarrow> string \<Rightarrow> 'a RemotePlayers_scheme \<Rightarrow> 'a RemotePlayers_scheme" where
  "RemotePlayers_Rename W i name s =
     (case map_of (r_players s) i of
        None \<Rightarrow> RemotePlayers_Add i name s
      | Some p \<Rightarrow>
          let p = p\<lparr>rp_name := name\<rparr>;
              s = RenameCloneBase (rp_base p) (rp_name p) (put_remote i p s)
          in case w_resolve W (e_calls s) (rp_actor p) of
               None \<Rightarrow> s
             | Some r \<Rightarrow> ApplyCloneIdentity (Some r) (rp_name p) False s)"

definition RemotePlayers_Remove :: "World \<Rightarrow> PlayerId \<Rightarrow> 'a RemotePlayers_scheme \<Rightarrow> 'a RemotePlayers_scheme" where
  "RemotePlayers_Remove W i s =
     (case map_of (r_players s) i of
        None \<Rightarrow> s
      | Some p \<Rightarrow>
          let (_, s) = Despawn W (rp_actor p) s
          in s\<lparr>r_players := AList.delete i (r_players s)\<rparr>)"

section \<open>The clock\<close>

definition LocalMs :: "'a RemotePlayers_scheme \<Rightarrow> f64 \<times> 'a RemotePlayers_scheme" where
  "LocalMs s = (let (t, s) = e_now s in (millis_of_ns t, s))"

definition NoteServerTime :: "int \<Rightarrow> 'a RemotePlayers_scheme \<Rightarrow> 'a RemotePlayers_scheme" where
  "NoteServerTime a_serverMs s =
     (let (local_ms, s) = LocalMs s;
          sample = f64_sub local_ms (f64_of_int a_serverMs)
      in if \<not> r_hasOffset s then s\<lparr>r_hasOffset := True, r_offsetMs := sample\<rparr>
         else if f64_lt sample (r_offsetMs s) then s\<lparr>r_offsetMs := sample\<rparr>
         else s\<lparr>r_offsetMs := f64_add (r_offsetMs s) (f64_mul (f64_sub sample (r_offsetMs s)) (f64_lit 2 100))\<rparr>)"

text \<open>Storing a snapshot: a stale one is dropped, and the oldest make room.\<close>

definition push_snapshot :: "TimedState \<Rightarrow> TimedState list \<Rightarrow> TimedState list" where
  "push_snapshot t snapshots =
     (if snapshots \<noteq> [] \<and> ts_timeMs t \<le> ts_timeMs (last snapshots) then snapshots
      else let snapshots = snapshots @ [t]
           in if MAX_SNAPSHOTS < length snapshots then drop (length snapshots - MAX_SNAPSHOTS) snapshots else snapshots)"

definition RemotePlayers_ApplyState ::
  "PlayerId \<Rightarrow> PlayerState \<Rightarrow> u32 \<Rightarrow> 'a RemotePlayers_scheme \<Rightarrow> 'a RemotePlayers_scheme" where
  "RemotePlayers_ApplyState i st a_serverMs s =
     (let s = (if map_of (r_players s) i = None then RemotePlayers_Add i (CHR ''#'' # to_string (unat i)) s else s);
          (timeMs, c) = Unwrap a_serverMs (r_serverClock s);
          s = NoteServerTime timeMs (s\<lparr>r_serverClock := c\<rparr>)
      in case map_of (r_players s) i of
           None \<Rightarrow> s
         | Some p \<Rightarrow> put_remote i (p\<lparr>rp_snapshots := push_snapshot \<lparr>ts_state = st, ts_timeMs = timeMs\<rparr> (rp_snapshots p)\<rparr>) s)"

section \<open>Every frame\<close>

text \<open>History well behind the render time goes, but two snapshots stay.\<close>

fun forget_history :: "f64 \<Rightarrow> TimedState list \<Rightarrow> TimedState list" where
  "forget_history r (a # b # c # rest) =
     (if f64_lt (f64_add (f64_of_int (ts_timeMs b)) SNAPSHOT_KEEP_MS) r then forget_history r (b # c # rest)
      else a # b # c # rest)"
| "forget_history r snapshots = snapshots"

definition actor_of :: "World \<Rightarrow> history \<Rightarrow> handle \<Rightarrow> ref option" where
  "actor_of W h hdl =
     (case w_resolve W h hdl of None \<Rightarrow> None | Some r \<Rightarrow> if w_is_actor W h r then Some r else None)"

text \<open>The actor so far: none when the handle leads to the local player, and none any more when
  the remote player is out of sight or has changed area.\<close>

definition keep_actor ::
  "World \<Rightarrow> Space \<Rightarrow> bool \<Rightarrow> RemotePlayer \<Rightarrow> 'a RemotePlayers_scheme \<Rightarrow> ref option \<times> RemotePlayer \<times> 'a RemotePlayers_scheme" where
  "keep_actor W targetSpace visible p s =
     (let actor = actor_of W (e_calls s) (rp_actor p);
          (actor, p) = (if actor \<noteq> None \<and> actor = w_singleton W (e_calls s) then (None, p\<lparr>rp_actor := None\<rparr>)
                        else (actor, p))
      in if actor \<noteq> None \<and> (\<not> visible \<or> \<not> SameArea (rp_actorSpace p) targetSpace)
         then let (hdl, s) = Despawn W (rp_actor p) s in (None, p\<lparr>rp_actor := hdl\<rparr>, s)
         else (actor, p, s))"

text \<open>The base form to copy.\<close>

definition pick_base ::
  "World \<Rightarrow> RemotePlayer \<Rightarrow> 'a RemotePlayers_scheme \<Rightarrow> npc option \<times> RemotePlayer \<times> 'a RemotePlayers_scheme" where
  "pick_base W p s =
     (if r_duplicate s then
        (let (p, s) = (if rp_base p = None \<and> \<not> rp_baseFailed p
                       then let (b, s) = CreateCloneBase W (r_baseFormId s) (rp_name p) (r_ghost s) s
                            in (p\<lparr>rp_base := b, rp_baseFailed := (b = None)\<rparr>, s)
                       else (p, s))
         in (rp_base p, p, s))
      else
        (let b = w_npc_form W (e_calls s) (r_baseFormId s)
         in (b, (if b = None \<and> \<not> rp_baseFailed p then p\<lparr>rp_baseFailed := True\<rparr> else p), s)))"

text \<open>A new actor, or none: not visible, too early for another attempt, no base form, or the
  engine gave none.\<close>

definition spawn_actor ::
  "World \<Rightarrow> Space \<Rightarrow> bool \<Rightarrow> int \<Rightarrow> RemotePlayer \<Rightarrow> 'a RemotePlayers_scheme \<Rightarrow> ref option \<times> RemotePlayer \<times> 'a RemotePlayers_scheme" where
  "spawn_actor W targetSpace visible a_now p s =
     (if \<not> visible \<or> a_now - rp_lastSpawnAttempt p < SPAWN_RETRY_INTERVAL then (None, p, s)
      else
        let p = p\<lparr>rp_lastSpawnAttempt := a_now\<rparr>;
            (b, p, s) = pick_base W p s
        in if b = None then (None, p, s)
           else
             let (hdl, s) = SpawnPlayerClone W b (ToNi (position (Latest p))) (yaw (Latest p)) targetSpace s;
                 p = p\<lparr>rp_actor := hdl\<rparr>;
                 actor = actor_of W (e_calls s) (rp_actor p)
             in if actor = None then (None, p, s)
                else
                  let s = (if r_duplicate s then s else ApplyCloneIdentity actor (rp_name p) (r_ghost s) s)
                  in (actor, p\<lparr>rp_actorSpace := targetSpace, rp_actorDead := False, rp_actorPacified := False,
                               rp_locomotionInit := False, rp_hasLastRender := False, rp_speed := 0,
                               rp_appliedFlags := kStateNone\<rparr>, s))"

text \<open>The smoothed speed of the rendered motion.\<close>

definition smooth_speed :: "Vec3 \<Rightarrow> f32 \<Rightarrow> RemotePlayer \<Rightarrow> f32" where
  "smooth_speed spot dt p =
     (if rp_hasLastRender p \<and> f32_lt 0 dt then
        let dx = f32_sub (vx spot) (vx (rp_lastRenderPos p));
            dy = f32_sub (vy spot) (vy (rp_lastRenderPos p));
            instant = f32_div (f32_sqrt (f32_add (f32_mul dx dx) (f32_mul dy dy))) dt
        in f32_add (rp_speed p)
             (f32_mul (f32_sub instant (rp_speed p)) (f32_clamp (f32_mul dt (f32_lit 12 1)) 0 (f32_lit 1 1)))
      else rp_speed p)"

definition apply_dead :: "ref \<Rightarrow> bool \<Rightarrow> RemotePlayer \<Rightarrow> 'a RemotePlayers_scheme \<Rightarrow> RemotePlayer \<times> 'a RemotePlayers_scheme" where
  "apply_dead actor dead p s =
     (if dead \<noteq> rp_actorDead p
      then (p\<lparr>rp_actorDead := dead\<rparr>, do_call (Actor actor (if dead then KillActor else ResurrectActor)) s)
      else (p, s))"

definition apply_flags ::
  "World \<Rightarrow> ref \<Rightarrow> PlayerState \<Rightarrow> RemotePlayer \<Rightarrow> 'a RemotePlayers_scheme \<Rightarrow> RemotePlayer \<times> 'a RemotePlayers_scheme" where
  "apply_flags W actor latest p s =
     (let fl = flags latest AND NOT kStateDead;
          s = ApplyStateFlags actor fl (rp_appliedFlags p) s;
          p = p\<lparr>rp_appliedFlags := fl\<rparr>;
          s = SetLocomotion W actor (rp_speed p) (fl AND kStateSprinting \<noteq> 0) (\<not> rp_locomotionInit p) s
      in (p\<lparr>rp_locomotionInit := True\<rparr>, s))"

text \<open>The pose at the render time, the speed it amounts to, and the latest flags.\<close>

definition render_actor ::
  "World \<Rightarrow> ref \<Rightarrow> int \<Rightarrow> f64 \<Rightarrow> RemotePlayer \<Rightarrow> 'a RemotePlayers_scheme \<Rightarrow> RemotePlayer \<times> 'a RemotePlayers_scheme" where
  "render_actor W actor a_now a_renderMs p s =
     (let sample = SampleAt (rp_snapshots p) a_renderMs;
          spot = ToNi (position sample);
          frameDt = (if rp_hasLastRender p then seconds_of_ns (a_now - rp_lastRenderTime p) else 0);
          s = (if r_move s \<and> f32_lt 0 frameDt
               then DriveCloneByMove W actor spot (yaw sample) (f32_min frameDt (f32_lit 1 10)) s
               else DriveClone actor spot (yaw sample) s);
          p = p\<lparr>rp_speed := smooth_speed spot frameDt p\<rparr>;
          p = p\<lparr>rp_lastRenderPos := spot, rp_lastRenderTime := a_now, rp_hasLastRender := True\<rparr>;
          dead = (flags (Latest p) AND kStateDead \<noteq> 0);
          (p, s) = apply_dead actor dead p s
      in if dead then (p, s) else apply_flags W actor (Latest p) p s)"

definition drive_actor ::
  "World \<Rightarrow> ref \<Rightarrow> int \<Rightarrow> f64 \<Rightarrow> RemotePlayer \<Rightarrow> 'a RemotePlayers_scheme \<Rightarrow> RemotePlayer \<times> 'a RemotePlayers_scheme" where
  "drive_actor W actor a_now a_renderMs p s =
     (let (pacified, s) = (if r_pacify s \<and> \<not> rp_actorPacified p then PacifyClone W actor s else (rp_actorPacified p, s));
          p = p\<lparr>rp_actorPacified := pacified\<rparr>;
          s = (if f32_lt (w_alpha W (e_calls s) actor) (f32_lit 1 1) then do_call (Actor actor (SetAlpha (f32_lit 1 1))) s else s)
      in if \<not> r_drive s then (p, s) else render_actor W actor a_now a_renderMs p s)"

definition UpdateOne ::
  "World \<Rightarrow> Space \<Rightarrow> int \<Rightarrow> f64 \<Rightarrow> RemotePlayer \<Rightarrow> 'a RemotePlayers_scheme \<Rightarrow> RemotePlayer \<times> 'a RemotePlayers_scheme" where
  "UpdateOne W localSpace a_now a_renderMs p s =
     (if \<not> HasState p then (p, s)
      else
        let p = p\<lparr>rp_snapshots := forget_history a_renderMs (rp_snapshots p)\<rparr>;
            targetSpace = SpaceFromState (Latest p);
            visible = SameArea targetSpace localSpace;
            (actor, p, s) = keep_actor W targetSpace visible p s;
            (actor, p, s) = (if actor = None then spawn_actor W targetSpace visible a_now p s else (actor, p, s))
        in case actor of None \<Rightarrow> (p, s) | Some r \<Rightarrow> drive_actor W r a_now a_renderMs p s)"

primrec Update_loop ::
  "World \<Rightarrow> Space \<Rightarrow> int \<Rightarrow> f64 \<Rightarrow> (PlayerId \<times> RemotePlayer) list \<Rightarrow> 'a RemotePlayers_scheme \<Rightarrow>
    (PlayerId \<times> RemotePlayer) list \<times> 'a RemotePlayers_scheme" where
  "Update_loop W localSpace a_now a_renderMs [] s = ([], s)"
| "Update_loop W localSpace a_now a_renderMs (e # es) s =
     (let (p, s) = UpdateOne W localSpace a_now a_renderMs (snd e) s;
          (ps, s) = Update_loop W localSpace a_now a_renderMs es s
      in ((fst e, p) # ps, s))"

definition RemotePlayers_Update :: "World \<Rightarrow> 'a RemotePlayers_scheme \<Rightarrow> 'a RemotePlayers_scheme" where
  "RemotePlayers_Update W s =
     (case GetSpace W (e_calls s) (GetPlayer W (e_calls s)) of
        None \<Rightarrow> s
      | Some localSpace \<Rightarrow>
          let (t, s) = e_now s;
              (local_ms, s) = LocalMs s;
              renderMs = f64_sub (f64_sub local_ms (r_offsetMs s)) (f64_of_f32 (r_interpDelayMs s));
              (ps, s) = Update_loop W localSpace t renderMs (r_players s) s
          in s\<lparr>r_players := ps\<rparr>)"

section \<open>Lifecycle\<close>

primrec Despawn_loop ::
  "World \<Rightarrow> (PlayerId \<times> RemotePlayer) list \<Rightarrow> 'a RemotePlayers_scheme \<Rightarrow>
    (PlayerId \<times> RemotePlayer) list \<times> 'a RemotePlayers_scheme" where
  "Despawn_loop W [] s = ([], s)"
| "Despawn_loop W (e # es) s =
     (let (hdl, s) = Despawn W (rp_actor (snd e)) s;
          (ps, s) = Despawn_loop W es s
      in ((fst e, (snd e)\<lparr>rp_actor := hdl\<rparr>) # ps, s))"

definition DespawnAll :: "World \<Rightarrow> 'a RemotePlayers_scheme \<Rightarrow> 'a RemotePlayers_scheme" where
  "DespawnAll W s = (let (ps, s) = Despawn_loop W (r_players s) s in s\<lparr>r_players := ps\<rparr>)"

text \<open>What a spawned actor left behind is forgotten.\<close>

definition reset_actor :: "RemotePlayer \<Rightarrow> RemotePlayer" where
  "reset_actor p =
     p\<lparr>rp_base := None, rp_baseFailed := False, rp_actorDead := False, rp_actorPacified := False,
       rp_locomotionInit := False, rp_hasLastRender := False, rp_speed := 0, rp_appliedFlags := kStateNone\<rparr>"

definition Respawn :: "World \<Rightarrow> 'a RemotePlayers_scheme \<Rightarrow> 'a RemotePlayers_scheme" where
  "Respawn W s =
     (let s = DespawnAll W s
      in s\<lparr>r_players := map (\<lambda>(i, p). (i, (reset_actor p)\<lparr>rp_lastSpawnAttempt := 0\<rparr>)) (r_players s)\<rparr>)"

definition RemotePlayers_SetCloneBase :: "World \<Rightarrow> u32 \<Rightarrow> 'a RemotePlayers_scheme \<Rightarrow> 'a RemotePlayers_scheme" where
  "RemotePlayers_SetCloneBase W i s = Respawn W (s\<lparr>r_baseFormId := i\<rparr>)"

definition SetPacify :: "World \<Rightarrow> bool \<Rightarrow> 'a RemotePlayers_scheme \<Rightarrow> 'a RemotePlayers_scheme" where
  "SetPacify W b s = Respawn W (s\<lparr>r_pacify := b\<rparr>)"

definition SetGhost :: "World \<Rightarrow> bool \<Rightarrow> 'a RemotePlayers_scheme \<Rightarrow> 'a RemotePlayers_scheme" where
  "SetGhost W b s = Respawn W (s\<lparr>r_ghost := b\<rparr>)"

definition SetDuplicate :: "World \<Rightarrow> bool \<Rightarrow> 'a RemotePlayers_scheme \<Rightarrow> 'a RemotePlayers_scheme" where
  "SetDuplicate W b s = Respawn W (s\<lparr>r_duplicate := b\<rparr>)"

definition ForgetActors :: "'a RemotePlayers_scheme \<Rightarrow> 'a RemotePlayers_scheme" where
  "ForgetActors s = s\<lparr>r_players := map (\<lambda>(i, p). (i, (reset_actor p)\<lparr>rp_actor := None\<rparr>)) (r_players s)\<rparr>"

definition RemotePlayers_Clear :: "World \<Rightarrow> 'a RemotePlayers_scheme \<Rightarrow> 'a RemotePlayers_scheme" where
  "RemotePlayers_Clear W s =
     (let s = DespawnAll W s
      in s\<lparr>r_players := [], r_hasOffset := False, r_serverClock := ServerClock_Reset (r_serverClock s)\<rparr>)"

definition RemotePlayers_Find :: "PlayerId \<Rightarrow> 'a RemotePlayers_scheme \<Rightarrow> RemotePlayer option" where
  "RemotePlayers_Find i s = map_of (r_players s) i"

definition NameOf :: "PlayerId \<Rightarrow> 'a RemotePlayers_scheme \<Rightarrow> string" where
  "NameOf i s = (case RemotePlayers_Find i s of Some p \<Rightarrow> rp_name p | None \<Rightarrow> CHR ''#'' # to_string (unat i))"

end
