(* ===== verification/F4_PrologueSkip.thy ===== *)
theory F4_PrologueSkip
  imports F4_RemotePlayers F4_FloatFacts
begin

text \<open>
  \<open>client/src/Game/PrologueSkip.hpp\<close> and \<open>PrologueSkip.cpp\<close>: the state machine that skips the
  prologue of a new game. The answer of the message box, a global the engine's callback
  sets, is a field of the state. Logging is left out; a console command the skip runs is a
  call of the engine, whatever it does.
\<close>

definition MQ101_ID :: u32 where "MQ101_ID = 0x0001ED86"
definition MQ102_ID :: u32 where "MQ102_ID = 0x0001CC2A"
definition MQ101_STARTED :: u16 where "MQ101_STARTED = 10"
definition MQ101_POD_OPENS :: u16 where "MQ101_POD_OPENS = 900"
definition LOOKS_MENU :: string where "LOOKS_MENU = ''LooksMenu''"
definition SPECIAL_MENU :: string where "SPECIAL_MENU = ''SPECIALMenu''"
definition MENU_GRACE :: f32 where "MENU_GRACE = f32_lit 3 1"
definition QUEST_START_FALLBACK :: f32 where "QUEST_START_FALLBACK = f32_lit 45 1"
definition SEX_CHANGE_SETTLE :: f32 where "SEX_CHANGE_SETTLE = f32_lit 3 1"

text \<open>\<open>duration_cast\<close> of float seconds to nanoseconds: a product, then the conversion to a 64-bit
  integer, which truncates. A value out of range, which the standard leaves undefined, is
  what the x86-64 instruction gives.\<close>

definition i64_of_f32 :: "f32 \<Rightarrow> int" where
  "i64_of_f32 a =
     (case decode single (unat a) of
        Fin s m e \<Rightarrow>
          let v = signed s (if 0 \<le> e then m * 2 ^ nat e else m div 2 ^ nat (- e))
          in if - (2 ^ 63) \<le> v \<and> v < 2 ^ 63 then v else - (2 ^ 63)
      | _ \<Rightarrow> - (2 ^ 63))"

definition Seconds :: "f32 \<Rightarrow> int" where
  "Seconds a = i64_of_f32 (f32_mul a (f32_of_int (10 ^ 9)))"

definition StartsWithIgnoreCase :: "string \<Rightarrow> string \<Rightarrow> bool" where
  "StartsWithIgnoreCase s pre =
     (if length s < length pre then False
      else list_all2 (\<lambda>a b. tolower a = tolower b) (take (length pre) s) pre)"

section \<open>State\<close>

datatype SkipState = kIdle | kArmed | kSexChoice | kRunning | kWaitForPod | kFaceMenu | kSpecialMenu | kDone

record Settings =
  set_enabled :: bool
  set_startDelay :: f32
  set_podTimeout :: f32
  set_commands :: "string list"
  set_chargen :: bool
  set_chargenMode :: int

record PrologueSkip = RemotePlayers +
  k_settings :: Settings
  k_state :: SkipState
  k_next :: nat
  k_armedAt :: int
  k_questStartedAt :: int
  k_stateSince :: int
  k_waitUntil :: int
  k_faceMenuSeen :: bool
  k_specialMenuSeen :: bool
  k_loggedWaiting :: bool
  k_sexChanged :: bool
  k_sexChoice :: int

definition IsActive :: "'a PrologueSkip_scheme \<Rightarrow> bool" where
  "IsActive s = (k_state s \<noteq> kIdle \<and> k_state s \<noteq> kDone)"

definition Configure :: "Settings \<Rightarrow> 'a PrologueSkip_scheme \<Rightarrow> 'a PrologueSkip_scheme" where
  "Configure c s = s\<lparr>k_settings := c\<rparr>"

definition Skip_OnNewGame :: "'a PrologueSkip_scheme \<Rightarrow> 'a PrologueSkip_scheme" where
  "Skip_OnNewGame s =
     (if \<not> set_enabled (k_settings s) then s\<lparr>k_state := kDone\<rparr>
      else let s = s\<lparr>k_state := kArmed\<rparr>;
               (t, s) = e_now s
           in s\<lparr>k_armedAt := t, k_questStartedAt := 0, k_next := 0, k_faceMenuSeen := False,
                k_specialMenuSeen := False, k_loggedWaiting := False, k_sexChanged := False, k_sexChoice := - 1\<rparr>)"

definition Skip_OnLeaveWorld :: "'a PrologueSkip_scheme \<Rightarrow> 'a PrologueSkip_scheme" where
  "Skip_OnLeaveWorld s = s\<lparr>k_state := kIdle\<rparr>"

text \<open>\<open>SexChoiceCallback\<close>.\<close>

definition SexChoiceCallback :: "u8 \<Rightarrow> 'a PrologueSkip_scheme \<Rightarrow> 'a PrologueSkip_scheme" where
  "SexChoiceCallback i s = s\<lparr>k_sexChoice := uint i\<rparr>"

section \<open>Helpers\<close>

definition StageOf :: "World \<Rightarrow> history \<Rightarrow> u32 \<Rightarrow> u16" where
  "StageOf W h quest = (case w_stage W h quest of None \<Rightarrow> 0 | Some st \<Rightarrow> st)"

definition IsMenuOpen :: "World \<Rightarrow> history \<Rightarrow> string \<Rightarrow> bool" where
  "IsMenuOpen W h menu =
     (if \<not> w_ui W h then False else (case w_menu_open W h menu of None \<Rightarrow> False | Some b \<Rightarrow> b))"

section \<open>Steps\<close>

definition Finish :: "'a PrologueSkip_scheme \<Rightarrow> 'a PrologueSkip_scheme" where
  "Finish s = s\<lparr>k_state := kDone\<rparr>"

definition BeginCommands :: "'a PrologueSkip_scheme \<Rightarrow> 'a PrologueSkip_scheme" where
  "BeginCommands s =
     (let s = s\<lparr>k_next := 0\<rparr>;
          (t, s) = e_now s;
          s = s\<lparr>k_waitUntil := t\<rparr>;
          (t, s) = e_now s
      in s\<lparr>k_stateSince := t, k_state := kRunning\<rparr>)"

definition AskSex :: "World \<Rightarrow> 'a PrologueSkip_scheme \<Rightarrow> 'a PrologueSkip_scheme" where
  "AskSex W s =
     (if \<not> w_message_manager W (e_calls s) then BeginCommands s
      else
        let s = s\<lparr>k_sexChoice := - 1\<rparr>;
            s = do_call (Ui (CreateMessage (''F4MP'' @ [newline, newline] @ ''Who are you?'') ''Male'' ''Female'')) s;
            (t, s) = e_now s;
            s = s\<lparr>k_waitUntil := t\<rparr>;
            (t, s) = e_now s
        in s\<lparr>k_stateSince := t, k_state := kSexChoice\<rparr>)"

definition Skip_Start :: "World \<Rightarrow> 'a PrologueSkip_scheme \<Rightarrow> 'a PrologueSkip_scheme" where
  "Skip_Start W s =
     (if MQ101_POD_OPENS \<le> StageOf W (e_calls s) MQ101_ID \<or> 1 \<le> StageOf W (e_calls s) MQ102_ID
      then Finish s
      else
        let s = ConsolePrint W ''[F4MP] Skipping the prologue...'' s;
            s = (if IsMenuOpen W (e_calls s) LOOKS_MENU \<and> w_ui_queue W (e_calls s)
                 then do_call (Ui (HideMenu LOOKS_MENU)) s else s)
        in if set_chargen (k_settings s) \<and> set_chargenMode (k_settings s) = 0 then AskSex W s else BeginCommands s)"

definition ApplySexChoice :: "World \<Rightarrow> int \<Rightarrow> 'a PrologueSkip_scheme \<Rightarrow> 'a PrologueSkip_scheme" where
  "ApplySexChoice W choice s =
     (let wanted = (if choice = 1 then kFemale else kMale);
          current = (case w_singleton W (e_calls s) of None \<Rightarrow> kNoSex | Some player \<Rightarrow> w_sex W (e_calls s) player)
      in if current \<noteq> wanted \<and> \<not> k_sexChanged s
         then let s = s\<lparr>k_sexChanged := True\<rparr>;
                  s = do_call (Ui (RunCommand ''player.sexchange'')) s;
                  (t, s) = e_now s
              in s\<lparr>k_waitUntil := t + Seconds SEX_CHANGE_SETTLE\<rparr>
         else BeginCommands s)"

definition RunNextCommand :: "'a PrologueSkip_scheme \<Rightarrow> bool \<times> 'a PrologueSkip_scheme" where
  "RunNextCommand s =
     (if length (set_commands (k_settings s)) \<le> k_next s
      then let (t, s) = e_now s;
               s = s\<lparr>k_stateSince := t\<rparr>
           in (False, if set_chargen (k_settings s) then s\<lparr>k_state := kWaitForPod\<rparr> else Finish s)
      else
        let cmd = set_commands (k_settings s) ! k_next s;
            s = s\<lparr>k_next := k_next s + 1\<rparr>
        in if StartsWithIgnoreCase cmd ''wait ''
           then let seconds = (case from_chars_float single (drop 5 cmd) of
                                 (Some b, _) \<Rightarrow> word_of_nat b | (None, _) \<Rightarrow> f32_lit 1 1);
                    (t, s) = e_now s
                in (False, s\<lparr>k_waitUntil := t + Seconds seconds\<rparr>)
           else (True, do_call (Ui (RunCommand cmd)) s))"

lemma RunNextCommand_next:
  "RunNextCommand s = (True, s') \<Longrightarrow>
    k_next s' = Suc (k_next s) \<and> k_next s < length (set_commands (k_settings s)) \<and> k_settings s' = k_settings s \<and>
    k_state s' = k_state s"
  by (auto simp: RunNextCommand_def e_now_def do_call_def Let_def split: if_splits)

text \<open>\<open>while (_state == kRunning && RunNextCommand())\<close>.\<close>

function run_commands :: "'a PrologueSkip_scheme \<Rightarrow> 'a PrologueSkip_scheme" where
  "run_commands s =
     (if k_state s \<noteq> kRunning then s
      else case RunNextCommand s of (False, s') \<Rightarrow> s' | (True, s') \<Rightarrow> run_commands s')"
  by pat_completeness auto
termination
  by (relation "measure (\<lambda>s. length (set_commands (k_settings s)) - k_next s)")
    (auto dest!: RunNextCommand_next [OF sym])

declare run_commands.simps [simp del]

definition OpenFaceMenu :: "World \<Rightarrow> 'a PrologueSkip_scheme \<Rightarrow> 'a PrologueSkip_scheme" where
  "OpenFaceMenu W s =
     (case w_singleton W (e_calls s) of
        None \<Rightarrow> Finish s
      | Some player \<Rightarrow>
          if \<not> w_vm W (e_calls s) then Finish s
          else let s = do_call (Ui (InvokeRaceMenu player 1)) s;
                   s = s\<lparr>k_faceMenuSeen := False\<rparr>;
                   (t, s) = e_now s
               in s\<lparr>k_stateSince := t, k_state := kFaceMenu\<rparr>)"

definition OpenSpecialMenu :: "World \<Rightarrow> 'a PrologueSkip_scheme \<Rightarrow> 'a PrologueSkip_scheme" where
  "OpenSpecialMenu W s =
     (if IsMenuOpen W (e_calls s) SPECIAL_MENU then s
      else if \<not> w_vm W (e_calls s) then s
      else do_call (Ui InvokeSpecialMenu) s)"

section \<open>Every frame\<close>

definition update_armed :: "World \<Rightarrow> int \<Rightarrow> 'a PrologueSkip_scheme \<Rightarrow> 'a PrologueSkip_scheme" where
  "update_armed W t s =
     (if GetPlayer W (e_calls s) = None then s
      else
        let late = (MQ101_STARTED \<le> StageOf W (e_calls s) MQ101_ID);
            s = (if late then s else s\<lparr>k_loggedWaiting := True\<rparr>)
        in if \<not> late \<and> t - k_armedAt s < Seconds QUEST_START_FALLBACK then s
           else
             let s = (if k_questStartedAt s = 0 then s\<lparr>k_questStartedAt := t\<rparr> else s)
             in if t - k_questStartedAt s < Seconds (set_startDelay (k_settings s)) then s else Skip_Start W s)"

definition update_sex_choice :: "World \<Rightarrow> int \<Rightarrow> 'a PrologueSkip_scheme \<Rightarrow> 'a PrologueSkip_scheme" where
  "update_sex_choice W t s =
     (if t < k_waitUntil s then s
      else if k_sexChanged s \<and> (case w_singleton W (e_calls s) of None \<Rightarrow> False | Some player \<Rightarrow> \<not> w_3d_loaded W (e_calls s) player)
      then s
      else if k_sexChoice s < 0
      then (if Seconds (set_podTimeout (k_settings s)) < t - k_stateSince s then BeginCommands s else s)
      else ApplySexChoice W (k_sexChoice s) s)"

definition update_wait_for_pod :: "World \<Rightarrow> int \<Rightarrow> 'a PrologueSkip_scheme \<Rightarrow> 'a PrologueSkip_scheme" where
  "update_wait_for_pod W t s =
     (if 1 \<le> StageOf W (e_calls s) MQ102_ID \<or> 1000 \<le> StageOf W (e_calls s) MQ101_ID
      then (if set_chargen (k_settings s) then OpenFaceMenu W s else Finish s)
      else if Seconds (set_podTimeout (k_settings s)) < t - k_stateSince s then Finish s
      else s)"

definition update_face_menu :: "World \<Rightarrow> int \<Rightarrow> 'a PrologueSkip_scheme \<Rightarrow> 'a PrologueSkip_scheme" where
  "update_face_menu W t s =
     (if IsMenuOpen W (e_calls s) LOOKS_MENU then s\<lparr>k_faceMenuSeen := True\<rparr>
      else if \<not> k_faceMenuSeen s \<and> t - k_stateSince s < Seconds MENU_GRACE then s
      else (OpenSpecialMenu W s)\<lparr>k_specialMenuSeen := False, k_stateSince := t, k_state := kSpecialMenu\<rparr>)"

definition update_special_menu :: "World \<Rightarrow> int \<Rightarrow> 'a PrologueSkip_scheme \<Rightarrow> 'a PrologueSkip_scheme" where
  "update_special_menu W t s =
     (if IsMenuOpen W (e_calls s) SPECIAL_MENU then s\<lparr>k_specialMenuSeen := True\<rparr>
      else if \<not> k_specialMenuSeen s \<and> t - k_stateSince s < Seconds MENU_GRACE then s
      else Finish (RestorePlayerControl W s))"

definition Skip_Update :: "World \<Rightarrow> 'a PrologueSkip_scheme \<Rightarrow> 'a PrologueSkip_scheme" where
  "Skip_Update W s =
     (let (t, s) = e_now s
      in case k_state s of
           kIdle \<Rightarrow> s
         | kDone \<Rightarrow> s
         | kArmed \<Rightarrow> update_armed W t s
         | kSexChoice \<Rightarrow> update_sex_choice W t s
         | kRunning \<Rightarrow> if t < k_waitUntil s then s else run_commands s
         | kWaitForPod \<Rightarrow> update_wait_for_pod W t s
         | kFaceMenu \<Rightarrow> update_face_menu W t s
         | kSpecialMenu \<Rightarrow> update_special_menu W t s)"

end
