(* ===== verification/F4_ServerConfig.thy ===== *)
theory F4_ServerConfig
  imports F4_Ini
begin

text \<open>
  \<open>server/src/Config.hpp\<close> and \<open>Config.cpp\<close>: the server's settings, their defaults and how
  a file overrides them.
\<close>

record Config =
  cfg_name :: string
  cfg_motd :: string
  cfg_port :: u16
  cfg_maxPlayers :: u32
  cfg_tickRate :: u32
  cfg_logFile :: string
  cfg_logLevel :: string

definition Config_default :: Config where
  "Config_default =
     \<lparr>cfg_name = ''F4MP Server'', cfg_motd = ''Welcome to the Commonwealth.'', cfg_port = 27015,
      cfg_maxPlayers = 16, cfg_tickRate = 30, cfg_logFile = ''server.log'', cfg_logLevel = ''info''\<rparr>"

text \<open>\<open>std::clamp\<close> of integers.\<close>

definition clamp_int :: "int \<Rightarrow> int \<Rightarrow> int \<Rightarrow> int" where
  "clamp_int v lo hi = (if v < lo then lo else if hi < v then hi else v)"

definition Config_Load :: "string option \<Rightarrow> Config \<Rightarrow> bool \<times> Config" where
  "Config_Load file c =
     (case Load file [] of
        (False, _) \<Rightarrow> (False, c)
      | (True, ini) \<Rightarrow>
          let c = c\<lparr>cfg_name := Get ini ''Server'' ''Name'' (cfg_name c)\<rparr>;
              c = c\<lparr>cfg_motd := Get ini ''Server'' ''Motd'' (cfg_motd c)\<rparr>;
              c = c\<lparr>cfg_port := word_of_int (clamp_int (GetInt ini ''Server'' ''Port'' (uint (cfg_port c))) 1 65535)\<rparr>;
              c = c\<lparr>cfg_maxPlayers := word_of_int (clamp_int (GetInt ini ''Server'' ''MaxPlayers'' (uint (cfg_maxPlayers c))) 1 4095)\<rparr>;
              c = c\<lparr>cfg_tickRate := word_of_int (clamp_int (GetInt ini ''Server'' ''TickRate'' (uint (cfg_tickRate c))) 1 240)\<rparr>;
              c = c\<lparr>cfg_logFile := Get ini ''Logging'' ''File'' (cfg_logFile c)\<rparr>;
              c = c\<lparr>cfg_logLevel := Get ini ''Logging'' ''Level'' (cfg_logLevel c)\<rparr>
          in (True, c))"

text \<open>The main loop's tick, \<open>std::max<uint32>(1, 1000 / tickRate)\<close>.\<close>

definition tickMs :: "Config \<Rightarrow> u32" where
  "tickMs c = max 1 (1000 div cfg_tickRate c)"

section \<open>The loaded values are usable\<close>

definition Config_ok :: "Config \<Rightarrow> bool" where
  "Config_ok c = (1 \<le> cfg_port c \<and> 1 \<le> cfg_maxPlayers c \<and> cfg_maxPlayers c \<le> 4095 \<and>
     1 \<le> cfg_tickRate c \<and> cfg_tickRate c \<le> 240)"

lemma Config_default_ok: "Config_ok Config_default"
  by (simp add: Config_ok_def Config_default_def)

lemma clamp_int_bounds: "lo \<le> hi \<Longrightarrow> lo \<le> clamp_int v lo hi \<and> clamp_int v lo hi \<le> hi"
  by (simp add: clamp_int_def)

lemma clamped_word:
  assumes "1 \<le> hi" and "hi < 2 ^ LENGTH('a)"
  shows "1 \<le> (word_of_int (clamp_int v 1 hi) :: 'a::len word) \<and>
    uint (word_of_int (clamp_int v 1 hi) :: 'a word) \<le> hi"
proof -
  have c: "1 \<le> clamp_int v 1 hi" "clamp_int v 1 hi \<le> hi" using clamp_int_bounds assms(1) by blast+
  then have "uint (word_of_int (clamp_int v 1 hi) :: 'a word) = clamp_int v 1 hi"
    using assms(2) by (simp add: uint_word_of_int)
  then show ?thesis using c by (simp add: word_le_def)
qed

text \<open>Whatever the file contains, the port is not 0, between 1 and 4095 connections are allowed,
  and the tick rate is between 1 and 240, so the tick is computed without a division by zero and
  lasts between 4 and 1000 ms.\<close>

theorem Config_Load_ok:
  assumes "Config_ok c"
  shows "Config_ok (snd (Config_Load file c)) \<and>
    4 \<le> tickMs (snd (Config_Load file c)) \<and> tickMs (snd (Config_Load file c)) \<le> 1000"
proof -
  have ok: "Config_ok (snd (Config_Load file c))"
    using assms clamped_word [of 65535, where 'a = 16] clamped_word [of 4095, where 'a = 32]
      clamped_word [of 240, where 'a = 32]
    by (auto simp: Config_ok_def Config_Load_def Let_def word_le_def split: prod.split bool.split)
  moreover have "1 \<le> 1000 div t \<and> 4 \<le> 1000 div t \<and> 1000 div t \<le> 1000" if "1 \<le> t" "t \<le> 240" for t :: u32
  proof -
    have t: "1 \<le> uint t" "uint t \<le> 240" using that by (simp_all add: word_le_def)
    have u: "uint (1000 div t) = 1000 div uint t" by (simp add: uint_div)
    have "(4 :: int) \<le> 1000 div uint t"
      using t zdiv_mono2 [of 1000 "uint t" 240] by simp
    moreover have "1000 div uint t \<le> (1000 :: int)"
      using t zdiv_mono2 [of 1000 1 "uint t"] by simp
    ultimately show ?thesis by (simp add: word_le_def u)
  qed
  ultimately show ?thesis by (auto simp: tickMs_def Config_ok_def max_def)
qed

theorem Config_Load_ok_witness:
  "4 \<le> tickMs (snd (Config_Load (Some ''[Server] '') Config_default))"
  using Config_Load_ok [OF Config_default_ok] by blast

section \<open>Writing a configuration and loading it\<close>

definition config_doc :: "Config \<Rightarrow> ini_doc" where
  "config_doc c =
     [(''Server'', [(''Name'', cfg_name c), (''Motd'', cfg_motd c), (''Port'', to_string (unat (cfg_port c))),
        (''MaxPlayers'', to_string (unat (cfg_maxPlayers c))), (''TickRate'', to_string (unat (cfg_tickRate c)))]),
      (''Logging'', [(''File'', cfg_logFile c), (''Level'', cfg_logLevel c)])]"

lemma isdigit_plain: "isdigit c \<Longrightarrow> \<not> isspace c \<and> c \<noteq> newline \<and> c \<noteq> CHR '';'' \<and> c \<noteq> CHR ''#''"
  by (auto simp: isdigit_def isspace_def newline_def of_char_of Let_def)

lemma to_string_plain: "c \<in> set (to_string n) \<Longrightarrow> isdigit c"
  using to_string_isdigit [of n] by (auto simp: list_all_iff)

lemma ini_text_to_string: "ini_text (to_string n)"
  using to_string_plain [of _ n] isdigit_plain to_string_not_Nil [of n]
  unfolding ini_text_def trimmed_def by (metis hd_in_set last_in_set)

lemma Numeric_to_string: "Numeric (to_string n) = to_string n"
proof -
  have "takeWhile (\<lambda>c. c \<noteq> CHR '';'' \<and> c \<noteq> CHR ''#'') (to_string n) = to_string n"
    using to_string_plain [of _ n] isdigit_plain by (intro takeWhile_eq_all_conv [THEN iffD2]) blast
  moreover have "trimmed (to_string n)" using ini_text_to_string by (simp add: ini_text_def)
  ultimately show ?thesis by (simp only: Numeric_def Trim_id)
qed

lemma GetInt_to_string:
  "Get ini sec key [] = to_string n \<Longrightarrow> n < 2 ^ 63 \<Longrightarrow> GetInt ini sec key d = int n"
  by (simp add: GetInt_def Numeric_to_string from_chars_ll_to_string)

lemma config_doc_ok:
  assumes "ini_text (cfg_name c)" "ini_text (cfg_motd c)" "ini_text (cfg_logFile c)" "ini_text (cfg_logLevel c)"
  shows "ini_doc_ok (config_doc c)"
proof -
  have "ini_key k" if "k \<in> {''Name'', ''Motd'', ''Port'', ''MaxPlayers'', ''TickRate'', ''File'', ''Level''}" for k
    using that by (auto simp: ini_key_def ini_text_def trimmed_def newline_neq isspace_def)
  moreover have "newline \<notin> set ''Server''" "newline \<notin> set ''Logging''"
    by (auto simp: newline_neq)
  ultimately show ?thesis
    using assms by (simp add: ini_doc_ok_def config_doc_def ini_text_to_string)
qed

lemma config_lookups:
  "doc_lookup (config_doc c) ''Server'' ''Name'' = Some (cfg_name c)"
  "doc_lookup (config_doc c) ''Server'' ''Motd'' = Some (cfg_motd c)"
  "doc_lookup (config_doc c) ''Server'' ''Port'' = Some (to_string (unat (cfg_port c)))"
  "doc_lookup (config_doc c) ''Server'' ''MaxPlayers'' = Some (to_string (unat (cfg_maxPlayers c)))"
  "doc_lookup (config_doc c) ''Server'' ''TickRate'' = Some (to_string (unat (cfg_tickRate c)))"
  "doc_lookup (config_doc c) ''Logging'' ''File'' = Some (cfg_logFile c)"
  "doc_lookup (config_doc c) ''Logging'' ''Level'' = Some (cfg_logLevel c)"
  by (simp_all add: doc_lookup_def doc_entries_def config_doc_def Lower_def tolower_def)

lemma clamp_int_id: "lo \<le> v \<Longrightarrow> v \<le> hi \<Longrightarrow> clamp_int v lo hi = v"
  by (simp add: clamp_int_def)

text \<open>C40. A configuration written out under its documented keys is the configuration the server
  loads: no setting is lost, mixed up or clamped, whatever the settings were before.\<close>

theorem Config_roundtrip:
  assumes "Config_ok c" and "ini_text (cfg_name c)" and "ini_text (cfg_motd c)"
    and "ini_text (cfg_logFile c)" and "ini_text (cfg_logLevel c)"
  shows "Config_Load (Some (render (config_doc c))) d = (True, c)"
proof -
  let ?ini = "put_all (doc_entries (config_doc c)) []"
  have load: "Load (Some (render (config_doc c))) [] = (True, ?ini)"
    by (rule Load_render) (rule config_doc_ok [OF assms(2-5)])
  have get: "Get ?ini sec key x = (case doc_lookup (config_doc c) sec key of None \<Rightarrow> x | Some v \<Rightarrow> v)"
    for sec key x by (simp add: Get_def doc_lookup_def map_of_put_all)
  have small: "unat (w :: 16 word) < 2 ^ 63" "unat (v :: 32 word) < 2 ^ 63" for w v
    using unsigned_less [of w, where ?'a = nat] unsigned_less [of v, where ?'a = nat] by simp_all
  have int: "GetInt ?ini ''Server'' ''Port'' x = uint (cfg_port c)"
    "GetInt ?ini ''Server'' ''MaxPlayers'' x = uint (cfg_maxPlayers c)"
    "GetInt ?ini ''Server'' ''TickRate'' x = uint (cfg_tickRate c)" for x
    using GetInt_to_string [OF _ small(1)] GetInt_to_string [OF _ small(2)]
    by (auto simp add: get config_lookups)
  have clamp: "clamp_int (uint (cfg_port c)) 1 65535 = uint (cfg_port c)"
    "clamp_int (uint (cfg_maxPlayers c)) 1 4095 = uint (cfg_maxPlayers c)"
    "clamp_int (uint (cfg_tickRate c)) 1 240 = uint (cfg_tickRate c)"
    using assms(1) unsigned_less [of "cfg_port c", where ?'a = int]
    by (auto intro!: clamp_int_id simp: Config_ok_def word_le_def)
  show ?thesis
    unfolding Config_Load_def load by (simp add: Let_def int clamp get config_lookups)
qed

theorem Config_roundtrip_witness:
  "Config_Load (Some (render (config_doc Config_default))) Config_default = (True, Config_default)"
  by (rule Config_roundtrip)
    (simp_all add: Config_default_ok, simp_all add: Config_default_def ini_text_def trimmed_def isspace_def newline_neq)

end
