(* ===== verification/F4_ClientConfig.thy ===== *)
theory F4_ClientConfig
  imports F4_ServerConfig F4_Protocol F4_FloatFacts
begin

text \<open>
  \<open>client/src/Config.hpp\<close> and \<open>Config.cpp\<close>: the client's settings, their defaults and how
  \<open>F4MP.ini\<close> overrides them. \<open>ulong\<close> is the number of bits of \<open>unsigned long\<close>. Logging is
  left out.
\<close>

record ClientConfig =
  cc_host :: string
  cc_port :: u16
  cc_autoConnect :: bool
  cc_sendRate :: u32
  cc_interpDelayMs :: f32
  cc_playerName :: string
  cc_consoleMessages :: bool
  cc_skipPrologue :: bool
  cc_skipDelay :: f32
  cc_podTimeout :: f32
  cc_skipCommands :: "string list"
  cc_chargen :: bool
  cc_chargenMode :: int
  cc_cloneBase :: u32
  cc_path :: string

definition ClientConfig_default :: ClientConfig where
  "ClientConfig_default =
     \<lparr>cc_host = ''127.0.0.1'', cc_port = DEFAULT_PORT, cc_autoConnect = True, cc_sendRate = 20,
      cc_interpDelayMs = f32_lit 100 1, cc_playerName = [], cc_consoleMessages = True,
      cc_skipPrologue = True, cc_skipDelay = f32_lit 2 1, cc_podTimeout = f32_lit 120 1,
      cc_skipCommands = [''setstage MQ101 900'', ''removemusic 1A8676''], cc_chargen = True,
      cc_chargenMode = 0, cc_cloneBase = 7, cc_path = []\<rparr>"

section \<open>The list of commands\<close>

definition semicolon :: char where "semicolon = CHR '';''"

text \<open>The pieces between the semicolons, the last one included even when it is empty.\<close>

function split_list :: "string \<Rightarrow> string list" where
  "split_list s =
     (let item = takeWhile (\<lambda>c. c \<noteq> semicolon) s; rest = dropWhile (\<lambda>c. c \<noteq> semicolon) s
      in if rest = [] then [item] else item # split_list (tl rest))"
  by pat_completeness auto
termination
proof (relation "measure length")
  fix s x assume "x = dropWhile (\<lambda>c. c \<noteq> semicolon) s" and ne: "x \<noteq> []"
  then have "length x \<le> length s" by (simp add: length_dropWhile_le)
  moreover have "length (tl x) < length x" using ne by simp
  ultimately show "(tl x, s) \<in> measure length" by simp
qed simp_all

declare split_list.simps [simp del]

definition blank_or_tab :: "char \<Rightarrow> bool" where
  "blank_or_tab c = (c = CHR '' '' \<or> c = char_of (9 :: nat))"

text \<open>An item from its first to its last character that is neither a blank nor a tab.\<close>

definition strip_item :: "string \<Rightarrow> string" where
  "strip_item s = rev (dropWhile blank_or_tab (rev (dropWhile blank_or_tab s)))"

definition skip_items :: "string \<Rightarrow> string list" where
  "skip_items s = filter (\<lambda>item. item \<noteq> []) (map strip_item (split_list s))"

section \<open>Loading\<close>

definition no_value :: string where "no_value = [char_of (1 :: nat)]"

definition ClientConfig_Load :: "nat \<Rightarrow> string \<Rightarrow> string option \<Rightarrow> ClientConfig" where
  "ClientConfig_Load ulong path file =
     (let c = ClientConfig_default\<lparr>cc_path := path\<rparr>
      in case Load file [] of
           (False, _) \<Rightarrow> c
         | (True, ini) \<Rightarrow>
             let c = c\<lparr>cc_host := Get ini ''Network'' ''Host'' (cc_host c)\<rparr>;
                 c = c\<lparr>cc_port := word_of_int (clamp_int (GetInt ini ''Network'' ''Port'' (uint (cc_port c))) 1 65535)\<rparr>;
                 c = c\<lparr>cc_autoConnect := GetBool ini ''Network'' ''AutoConnect'' (cc_autoConnect c)\<rparr>;
                 c = c\<lparr>cc_sendRate := word_of_int (clamp_int (GetInt ini ''Network'' ''SendRate'' (uint (cc_sendRate c))) 1 60)\<rparr>;
                 c = c\<lparr>cc_interpDelayMs := f32_of_f64 (f64_clamp (GetFloat ini ''Network'' ''InterpDelayMs''
                         (f64_of_f32 (cc_interpDelayMs c))) 0 (f64_lit 1000 1))\<rparr>;
                 c = c\<lparr>cc_playerName := Get ini ''Player'' ''Name'' (cc_playerName c)\<rparr>;
                 c = c\<lparr>cc_consoleMessages := GetBool ini ''Debug'' ''ConsoleMessages'' (cc_consoleMessages c)\<rparr>;
                 c = c\<lparr>cc_skipPrologue := GetBool ini ''NewGame'' ''SkipPrologue'' (cc_skipPrologue c)\<rparr>;
                 c = c\<lparr>cc_skipDelay := f32_of_f64 (f64_clamp (GetFloat ini ''NewGame'' ''SkipDelay''
                         (f64_of_f32 (cc_skipDelay c))) 0 (f64_lit 60 1))\<rparr>;
                 c = c\<lparr>cc_podTimeout := f32_of_f64 (f64_clamp (GetFloat ini ''NewGame'' ''PodTimeout''
                         (f64_of_f32 (cc_podTimeout c))) (f64_lit 5 1) (f64_lit 600 1))\<rparr>;
                 c = c\<lparr>cc_chargen := GetBool ini ''NewGame'' ''Chargen'' (cc_chargen c)\<rparr>;
                 c = c\<lparr>cc_chargenMode := clamp_int (GetInt ini ''NewGame'' ''ChargenMode'' (cc_chargenMode c)) 0 1\<rparr>;
                 items = Get ini ''NewGame'' ''SkipCommands'' no_value;
                 c = (if items \<noteq> no_value then c\<lparr>cc_skipCommands := skip_items items\<rparr> else c);
                 text = Get ini ''Sync'' ''CloneBase'' []
             in if text = [] then c
                else (case stoul ulong 16 text of None \<Rightarrow> c | Some n \<Rightarrow> c\<lparr>cc_cloneBase := word_of_nat n\<rparr>))"

end
