(* ===== verification/F4_Session.thy ===== *)
theory F4_Session
  imports F4_PrologueSkip F4_ClientConfig
begin

text \<open>
  \<open>client/src/Session.hpp\<close> and \<open>Session.cpp\<close>: the session, which owns the connection, the
  remote players and the prologue skip and ties them to the game. Its record is the last
  of the chain of extensions, so the operations of the parts work on it directly. Logging
  is left out; \<open>PrintDebug\<close> and \<open>PrintGraph\<close> are in \<open>F4_Debug\<close>.
\<close>

definition RECONNECT_INTERVAL :: int where "RECONNECT_INTERVAL = 10 * 10 ^ 9"
definition HEARTBEAT_INTERVAL :: int where "HEARTBEAT_INTERVAL = 10 ^ 9"
definition NAME_CHECK_INTERVAL :: int where "NAME_CHECK_INTERVAL = 2 * 10 ^ 9"
definition MOVE_EPSILON :: f32 where "MOVE_EPSILON = f32_lit 1 2"
definition YAW_EPSILON :: f32 where "YAW_EPSILON = f32_lit 5 1000"
definition HEALTH_EPSILON :: f32 where "HEALTH_EPSILON = f32_lit 1 2"

definition Changed :: "PlayerState \<Rightarrow> PlayerState \<Rightarrow> bool" where
  "Changed a b =
     (let dx = f32_sub (vx (position a)) (vx (position b));
          dy = f32_sub (vy (position a)) (vy (position b));
          dz = f32_sub (vz (position a)) (vz (position b))
      in if f32_lt (f32_mul MOVE_EPSILON MOVE_EPSILON) (f32_add (f32_add (f32_mul dx dx) (f32_mul dy dy)) (f32_mul dz dz))
         then True
         else f32_lt YAW_EPSILON (f32_abs (f32_sub (yaw a) (yaw b))) \<or>
              worldspaceId a \<noteq> worldspaceId b \<or> cellId a \<noteq> cellId b \<or> flags a \<noteq> flags b \<or>
              f32_lt HEALTH_EPSILON (f32_abs (f32_sub (health a) (health b))))"

section \<open>State\<close>

record Session = PrologueSkip +
  s_config :: ClientConfig
  s_myId :: PlayerId
  s_serverName :: string
  s_sentName :: string
  s_lastNameCheck :: int
  s_inWorld :: bool
  s_welcomed :: bool
  s_manualDisconnect :: bool
  s_lastSend :: int
  s_lastReconnectAttempt :: int
  s_lastSent :: PlayerState
  s_hasLastSent :: bool

definition Session_IsConnected :: "Session \<Rightarrow> bool" where
  "Session_IsConnected s = (IsConnected s \<and> s_welcomed s)"

definition Print :: "World \<Rightarrow> string \<Rightarrow> Session \<Rightarrow> Session" where
  "Print W text s = (if cc_consoleMessages (s_config s) then ConsolePrint W text s else s)"

definition ServerAddress :: "Session \<Rightarrow> string" where
  "ServerAddress s = cc_host (s_config s) @ '':'' @ to_string (unat (cc_port (s_config s)))"

text \<open>The name to use: the configured one, else the character's.\<close>

definition wanted_name :: "World \<Rightarrow> Session \<Rightarrow> string" where
  "wanted_name W s =
     (if cc_playerName (s_config s) = [] then GetPlayerName W (e_calls s) else cc_playerName (s_config s))"

section \<open>Sending\<close>

definition SyncName :: "World \<Rightarrow> Session \<Rightarrow> Session" where
  "SyncName W s =
     (let (t, s) = e_now s
      in if t - s_lastNameCheck s < NAME_CHECK_INTERVAL then s
         else
           let s = s\<lparr>s_lastNameCheck := t\<rparr>;
               name = wanted_name W s
           in if name = s_sentName s then s
              else NetClient_Send kReliable (Encode kSetName SetNameMsg_Write \<lparr>setname_name = name\<rparr>)
                     (s\<lparr>s_sentName := name\<rparr>))"

definition SendState :: "World \<Rightarrow> bool \<Rightarrow> Session \<Rightarrow> Session" where
  "SendState W force s =
     (case LocalPlayer_Sample W (e_calls s) of
        None \<Rightarrow> s
      | Some st \<Rightarrow>
          let (t, s) = e_now s;
              interval = uint (1000 div max 1 (cc_sendRate (s_config s))) * 10 ^ 6
          in if \<not> force \<and> t - s_lastSend s < interval then s
             else
               let heartbeat = (HEARTBEAT_INTERVAL \<le> t - s_lastSend s)
               in if \<not> force \<and> \<not> heartbeat \<and> s_hasLastSent s \<and> \<not> Changed st (s_lastSent s) then s
                  else (NetClient_Send kUnreliable (Encode kPlayerState PlayerStateMsg_Write \<lparr>psm_state = st\<rparr>) s)
                         \<lparr>s_lastSent := st, s_hasLastSent := True, s_lastSend := t\<rparr>)"

section \<open>Incoming packets\<close>

definition Session_HandlePacket :: "World \<Rightarrow> u8 list \<Rightarrow> Session \<Rightarrow> Session" where
  "Session_HandlePacket W bytes s =
     (let ((i, success), r) = run_state ReadHeader (Reader_new bytes)
      in if \<not> success then s
         else if i = kWelcome then
           (let ((msg, success), _) = run_state WelcomeMsg_Read r
            in if \<not> success then s
               else
                 let s = s\<lparr>s_myId := welcome_id msg, s_serverName := welcome_serverName msg, s_welcomed := True\<rparr>;
                     s = Print W (''[F4MP] Connected to '' @ welcome_serverName msg @ '' as player #'' @
                           to_string (unat (welcome_id msg))) s;
                     s = (if welcome_motd msg \<noteq> [] then Print W (''[F4MP] '' @ welcome_motd msg) s else s)
                 in SendState W True s)
         else if i = kReject then
           (let ((msg, success), _) = run_state RejectMsg_Read r
            in if success then Print W (''[F4MP] Rejected: '' @ reject_reason msg) s else s)
         else if i = kPlayerJoined then
           (let ((msg, success), _) = run_state PlayerJoinedMsg_Read r
            in if success \<and> joined_id msg \<noteq> s_myId s then RemotePlayers_Add (joined_id msg) (joined_name msg) s else s)
         else if i = kPlayerLeft then
           (let ((msg, success), _) = run_state PlayerLeftMsg_Read r
            in if success then RemotePlayers_Remove W (left_id msg) s else s)
         else if i = kPlayerRenamed then
           (let ((msg, success), _) = run_state PlayerRenamedMsg_Read r
            in if \<not> success then s
               else if renamed_id msg = s_myId s
               then Print W (''[F4MP] You are now known as '' @ renamed_name msg) s
               else let old = NameOf (renamed_id msg) s;
                        s = RemotePlayers_Rename W (renamed_id msg) (renamed_name msg) s
                    in Print W (''[F4MP] '' @ old @ '' is now known as '' @ renamed_name msg) s)
         else if i = kPlayerStateUpdate then
           (let ((msg, success), _) = run_state PlayerStateUpdateMsg_Read r
            in if success \<and> psu_id msg \<noteq> s_myId s
               then RemotePlayers_ApplyState (psu_id msg) (psu_state msg) (psu_timeMs msg) s else s)
         else if i = kChatBroadcast then
           (let ((msg, success), _) = run_state ChatBroadcastMsg_Read r
            in if \<not> success then s
               else if cb_from msg = SERVER_ID then Print W (''[Server] '' @ cb_text msg) s
               else let name = (if cb_from msg = s_myId s then ''You'' else NameOf (cb_from msg) s)
                    in Print W (name @ '': '' @ cb_text msg) s)
         else s)"

section \<open>Set-up\<close>

definition on_connected :: "World \<Rightarrow> Session \<Rightarrow> Session" where
  "on_connected W s =
     (let name = wanted_name W s;
          s = s\<lparr>s_sentName := name\<rparr>
      in NetClient_Send kReliable (Encode kHello HelloMsg_Write
           \<lparr>hello_protocolVersion = PROTOCOL_VERSION, hello_gameVersion = w_runtime W, hello_name = name\<rparr>) s)"

definition on_disconnected :: "World \<Rightarrow> string \<Rightarrow> Session \<Rightarrow> Session" where
  "on_disconnected W reason s =
     (let s = s\<lparr>s_welcomed := False, s_myId := INVALID_PLAYER_ID, s_serverName := [], s_hasLastSent := False\<rparr>;
          s = RemotePlayers_Clear W s
      in Print W (''[F4MP] '' @ reason) s)"

text \<open>The callbacks \<open>Init\<close> installs.\<close>

definition callbacks :: "World \<Rightarrow> Session Callbacks" where
  "callbacks W = \<lparr>onConnected = Some (on_connected W), onDisconnected = Some (on_disconnected W),
     onPacket = Some (Session_HandlePacket W)\<rparr>"

definition Session_Init :: "World \<Rightarrow> ClientConfig \<Rightarrow> Session \<Rightarrow> Session" where
  "Session_Init W c s =
     (let s = s\<lparr>s_config := c\<rparr>;
          s = s\<lparr>r_interpDelayMs := cc_interpDelayMs c\<rparr>;
          s = RemotePlayers_SetCloneBase W (cc_cloneBase c) s
      in Configure \<lparr>set_enabled = cc_skipPrologue c, set_startDelay = cc_skipDelay c, set_podTimeout = cc_podTimeout c,
           set_commands = cc_skipCommands c, set_chargen = cc_chargen c, set_chargenMode = cc_chargenMode c\<rparr> s)"

text \<open>The members' initial values, and the state after construction.\<close>

definition Settings_default :: Settings where
  "Settings_default = \<lparr>set_enabled = True, set_startDelay = f32_lit 2 1, set_podTimeout = f32_lit 120 1,
     set_commands = [], set_chargen = True, set_chargenMode = 0\<rparr>"

definition Session_new :: "bool \<Rightarrow> (nat \<Rightarrow> int) \<Rightarrow> Session" where
  "Session_new initialized clk =
     \<lparr>e_clock = clk, e_readings = 0, e_calls = [],
      n_host = False, n_peer = None, n_state = kDisconnected, n_enetReady = initialized, n_connectStart = 0,
      r_players = [], r_interpDelayMs = f32_lit 100 1, r_baseFormId = PLAYER_BASE_FORM_ID, r_drive = True,
      r_pacify = True, r_ghost = True, r_duplicate = False, r_move = False, r_hasOffset = False,
      r_offsetMs = 0, r_serverClock = ServerClock_new,
      k_settings = Settings_default, k_state = kIdle, k_next = 0, k_armedAt = 0, k_questStartedAt = 0,
      k_stateSince = 0, k_waitUntil = 0, k_faceMenuSeen = False, k_specialMenuSeen = False,
      k_loggedWaiting = False, k_sexChanged = False, k_sexChoice = - 1,
      s_config = ClientConfig_default, s_myId = INVALID_PLAYER_ID, s_serverName = [], s_sentName = [],
      s_lastNameCheck = 0, s_inWorld = False, s_welcomed = False, s_manualDisconnect = False, s_lastSend = 0,
      s_lastReconnectAttempt = 0, s_lastSent = PlayerState_default, s_hasLastSent = False\<rparr>"

section \<open>Connecting\<close>

definition Session_Connect :: "World \<Rightarrow> bool \<Rightarrow> Session \<Rightarrow> Session" where
  "Session_Connect W manual s =
     (if \<not> s_inWorld s
      then (if manual then ConsolePrint W ''[F4MP] Load a save or start a new game first.'' s else s)
      else if \<not> manual \<and> n_state s \<noteq> kDisconnected then s
      else
        let s = (if manual
                 then let (t, s) = e_now (s\<lparr>s_manualDisconnect := False\<rparr>);
                          s = s\<lparr>s_lastReconnectAttempt := t\<rparr>
                      in if n_state s \<noteq> kDisconnected then NetClient_Disconnect (callbacks W) s else s
                 else s);
            s = Print W (''[F4MP] Connecting to '' @ ServerAddress s @ ''...'') s;
            (started, s) = NetClient_Connect W (cc_host (s_config s)) (cc_port (s_config s)) s
        in if started then s else Print W ''[F4MP] Could not start connection (see F4MP.log)'' s)"

definition Session_Disconnect :: "World \<Rightarrow> bool \<Rightarrow> Session \<Rightarrow> Session" where
  "Session_Disconnect W manual s =
     (let s = (if manual then s\<lparr>s_manualDisconnect := True\<rparr> else s)
      in if manual \<and> n_state s = kDisconnected then ConsolePrint W ''[F4MP] Not connected.'' s
         else NetClient_Disconnect (callbacks W) s)"

definition SendChat :: "World \<Rightarrow> string \<Rightarrow> Session \<Rightarrow> Session" where
  "SendChat W text s =
     (if text = [] then s
      else if \<not> Session_IsConnected s then ConsolePrint W ''[F4MP] Not connected.'' s
      else
        let text = (if MAX_CHAT_BYTES < length text then take MAX_CHAT_BYTES text else text)
        in NetClient_Send kReliable (Encode kChat ChatMsg_Write \<lparr>chat_text = text\<rparr>) s)"

section \<open>The game's events\<close>

definition OnEnterWorld :: "Session \<Rightarrow> Session" where
  "OnEnterWorld s =
     ForgetActors (s\<lparr>s_inWorld := True, s_hasLastSent := False, s_manualDisconnect := False, s_lastReconnectAttempt := 0\<rparr>)"

definition OnNewGame :: "Session \<Rightarrow> Session" where
  "OnNewGame s = Skip_OnNewGame (OnEnterWorld s)"

definition OnLeaveWorld :: "Session \<Rightarrow> Session" where
  "OnLeaveWorld s = ForgetActors (Skip_OnLeaveWorld (s\<lparr>s_inWorld := False\<rparr>))"

definition OnPreSave :: "World \<Rightarrow> Session \<Rightarrow> Session" where
  "OnPreSave W s = DespawnAll W s"

text \<open>Once per frame, with the events ENet has by then.\<close>

definition auto_reconnect :: "World \<Rightarrow> Session \<Rightarrow> Session" where
  "auto_reconnect W s =
     (if n_state s = kDisconnected \<and> cc_autoConnect (s_config s) \<and> \<not> s_manualDisconnect s
      then let (t, s) = e_now s
           in if RECONNECT_INTERVAL \<le> t - s_lastReconnectAttempt s
              then Session_Connect W False (s\<lparr>s_lastReconnectAttempt := t\<rparr>) else s
      else s)"

definition Tick :: "World \<Rightarrow> net_client_event list \<Rightarrow> Session \<Rightarrow> Session" where
  "Tick W es s =
     (let s = NetClient_Pump (callbacks W) es s
      in if \<not> s_inWorld s then s
         else
           let s = Skip_Update W s;
               s = auto_reconnect W s
           in if Session_IsConnected s then RemotePlayers_Update W (SyncName W (SendState W False s)) else s)"

section \<open>Console helpers\<close>

text \<open>\<open>host:port\<close>; with no colon, or more than one, the whole text is the host.\<close>

definition SetServer :: "string \<Rightarrow> Session \<Rightarrow> bool \<times> Session" where
  "SetServer hostPort s =
     (let colon = CHR '':'';
          parsed =
            (if count_list hostPort colon = 1
             then case from_chars_unsigned 10 (2 ^ 32 - 1) (drop 1 (dropWhile (\<lambda>c. c \<noteq> colon) hostPort)) of
                    (Some v, []) \<Rightarrow>
                      if v = 0 \<or> 65535 < v then None
                      else Some (takeWhile (\<lambda>c. c \<noteq> colon) hostPort, word_of_nat v)
                  | _ \<Rightarrow> None
             else Some (hostPort, cc_port (s_config s)))
      in case parsed of
           None \<Rightarrow> (False, s)
         | Some (h, p) \<Rightarrow>
             if h = [] then (False, s)
             else (True, s\<lparr>s_config := (s_config s)\<lparr>cc_host := h, cc_port := p\<rparr>\<rparr>))"

definition SetPlayerName :: "World \<Rightarrow> string \<Rightarrow> Session \<Rightarrow> Session" where
  "SetPlayerName W name s =
     (let s = s\<lparr>s_config := (s_config s)\<lparr>cc_playerName := SanitizeName name\<rparr>\<rparr>;
          s = ConsolePrint W (''[F4MP] Name set to '' @ [CHR 0x22] @ cc_playerName (s_config s) @ [CHR 0x22] @ ''.'') s
      in s\<lparr>s_lastNameCheck := 0\<rparr>)"

definition Session_SetCloneBase :: "World \<Rightarrow> u32 \<Rightarrow> Session \<Rightarrow> Session" where
  "Session_SetCloneBase W i s =
     ConsolePrint W (''[F4MP] Clone base set to 0x'' @ hex8 i @ ''; clones respawn.'') (RemotePlayers_SetCloneBase W i s)"

definition clone_option :: "World \<Rightarrow> string \<Rightarrow> bool \<Rightarrow> Session \<Rightarrow> Session option" where
  "clone_option W opt b s =
     (if opt = ''sync'' then Some (s\<lparr>r_drive := b\<rparr>)
      else if opt = ''pacify'' then Some (SetPacify W b s)
      else if opt = ''ghost'' then Some (SetGhost W b s)
      else if opt = ''duplicate'' then Some (SetDuplicate W b s)
      else if opt = ''move'' then Some (s\<lparr>r_move := b\<rparr>)
      else if opt = ''respawn'' then Some (Respawn W s)
      else None)"

definition SetCloneOption :: "World \<Rightarrow> string \<Rightarrow> bool \<Rightarrow> Session \<Rightarrow> bool \<times> Session" where
  "SetCloneOption W opt b s =
     (case clone_option W opt b s of
        None \<Rightarrow> (False, s)
      | Some s \<Rightarrow>
          (True, ConsolePrint W (''[F4MP] clones: sync '' @ bool_text (r_drive s) @ '' pacify '' @ bool_text (r_pacify s) @
             '' ghost '' @ bool_text (r_ghost s) @ '' duplicate '' @ bool_text (r_duplicate s) @ '' move '' @
             bool_text (r_move s)) s))"

definition PrintStatus :: "World \<Rightarrow> Session \<Rightarrow> Session" where
  "PrintStatus W s =
     ConsolePrint W (''[F4MP] '' @
       (case n_state s of
          kConnected \<Rightarrow>
            if s_welcomed s
            then ''Connected to '' @ quote (s_serverName s) @ '' ('' @ ServerAddress s @ '') as #'' @
                 to_string (unat (s_myId s)) @ '', ping '' @ to_string (unat (GetPingMs W s)) @ '' ms, '' @
                 to_string (length (r_players s)) @ '' other player(s)''
            else ''Connected to '' @ ServerAddress s @ '', waiting for the server to answer''
        | kConnecting \<Rightarrow> ''Connecting to '' @ ServerAddress s @ ''...''
        | kDisconnected \<Rightarrow>
            ''Disconnected ('' @ ServerAddress s @ '')'' @
            (if \<not> s_inWorld s then '', not in a game yet''
             else if s_manualDisconnect s then '', auto-connect paused until '' @ quote ''f4mp connect''
             else if cc_autoConnect (s_config s) then '', auto-connect on'' else []))) s"

definition PrintPlayers :: "World \<Rightarrow> Session \<Rightarrow> Session" where
  "PrintPlayers W s =
     (if \<not> Session_IsConnected s then ConsolePrint W ''[F4MP] Not connected.'' s
      else
        let s = ConsolePrint W (''[F4MP] Players on '' @ quote (s_serverName s) @ '':'') s;
            s = ConsolePrint W (''  #'' @ to_string (unat (s_myId s)) @ '' '' @ wanted_name W s @ '' (you)'') s
        in fold (\<lambda>(i, p) s.
             ConsolePrint W (''  #'' @ to_string (unat i) @ '' '' @ rp_name p @ '' ('' @
               (if HasState p then (if IsSpawned W (e_calls s) p then ''in view'' else ''elsewhere'') else ''no position yet'') @
               '')'') s)
             (r_players s) s)"

end
