(* ===== verification/F4_Debug.thy ===== *)
theory F4_Debug
  imports F4_Session
begin

text \<open>
  \<open>Session::PrintDebug\<close> and \<open>Session::PrintGraph\<close>: what \<open>f4mp debug\<close> and \<open>f4mp graph\<close> print,
  line by line. The lines are the only effect; everything in them is asked of the engine when
  the line is made.
\<close>

section \<open>Facts of the engine\<close>

definition base_form_id :: "World \<Rightarrow> history \<Rightarrow> npc option \<Rightarrow> u32" where
  "base_form_id W h b = (case b of None \<Rightarrow> 0 | Some b \<Rightarrow> bf_form (w_base_facts W h b))"

definition base_heads :: "World \<Rightarrow> history \<Rightarrow> npc option \<Rightarrow> nat" where
  "base_heads W h b = (case b of None \<Rightarrow> 0 | Some b \<Rightarrow> bf_heads (w_base_facts W h b))"

definition base_skin :: "World \<Rightarrow> history \<Rightarrow> npc option \<Rightarrow> u32" where
  "base_skin W h b =
     (case b of None \<Rightarrow> 0 | Some b \<Rightarrow> (case bf_skin (w_base_facts W h b) of None \<Rightarrow> 0 | Some i \<Rightarrow> i))"

definition base_sex :: "World \<Rightarrow> history \<Rightarrow> npc option \<Rightarrow> int" where
  "base_sex W h b = (case b of None \<Rightarrow> - 1 | Some b \<Rightarrow> bf_sex (w_base_facts W h b))"

definition distance_text :: "World \<Rightarrow> history \<Rightarrow> ref option \<Rightarrow> Vec3 \<Rightarrow> string" where
  "distance_text W h local spot =
     f32_fixed 0
       (case local of
          None \<Rightarrow> f32_neg (f32_lit 1 1)
        | Some l \<Rightarrow>
            let lp = w_position W h l;
                dx = f32_sub (vx spot) (vx lp); dy = f32_sub (vy spot) (vy lp); dz = f32_sub (vz spot) (vz lp)
            in f32_sqrt (f32_add (f32_add (f32_mul dx dx) (f32_mul dy dy)) (f32_mul dz dz)))"

text \<open>The actor a handle leads to, if it is one.\<close>

definition handle_actor :: "World \<Rightarrow> history \<Rightarrow> handle \<Rightarrow> ref option" where
  "handle_actor W h hdl =
     (case w_resolve W h hdl of None \<Rightarrow> None | Some r \<Rightarrow> if w_is_actor W h r then Some r else None)"

section \<open>\<open>f4mp debug\<close>\<close>

definition debug_header :: "Session \<Rightarrow> string" where
  "debug_header s =
     ''[F4MP] clone base 0x'' @ hex8 (r_baseFormId s) @ '', '' @ to_string (length (r_players s)) @
     '' remote(s), interp '' @ f32_text (cc_interpDelayMs (s_config s)) @ '' ms, clock offset '' @
     f64_fixed 0 (r_offsetMs s) @ '' ms, sync '' @ bool_text (r_drive s) @ '' pacify '' @ bool_text (r_pacify s) @
     '' ghost '' @ bool_text (r_ghost s) @ '' duplicate '' @ bool_text (r_duplicate s)"

definition debug_local :: "World \<Rightarrow> history \<Rightarrow> ref \<Rightarrow> string" where
  "debug_local W h l =
     (let b = w_base W h l
      in ''  you: base 0x'' @ hex8 (base_form_id W h b) @ '' heads '' @ to_string (base_heads W h b) @
         '' skin 0x'' @ hex8 (base_skin W h b) @ '' sex '' @ int_text (base_sex W h b) @
         '' 3D '' @ bool_text (w_3d_loaded W h l) @ '' alpha '' @ f32_fixed 2 (w_alpha W h l))"

definition debug_missing :: "World \<Rightarrow> history \<Rightarrow> PlayerId \<Rightarrow> RemotePlayer \<Rightarrow> string" where
  "debug_missing W h i p =
     ''  #'' @ to_string (unat i) @ '' '' @ rp_name p @ '': snapshots '' @ to_string (length (rp_snapshots p)) @
     '' base '' @ (case rp_base p of None \<Rightarrow> ''none'' | Some b \<Rightarrow> ''0x'' @ hex8 (bf_form (w_base_facts W h b))) @
     '' baseFailed '' @ bool_text (rp_baseFailed p) @ '' actor none''"

definition debug_actor1 :: "World \<Rightarrow> history \<Rightarrow> PlayerId \<Rightarrow> RemotePlayer \<Rightarrow> ref \<Rightarrow> string" where
  "debug_actor1 W h i p r =
     (let a = w_actor_facts W h r
      in ''  #'' @ to_string (unat i) @ '' '' @ rp_name p @ '': actor 0x'' @ hex8 (af_form a) @
         '' base 0x'' @ hex8 (base_form_id W h (w_base W h r)) @ '' 3Dloaded '' @ bool_text (w_3d_loaded W h r) @
         '' node '' @ bool_text (af_node_flags a \<noteq> None) @
         '' nodeFlags 0x'' @ hex_text (case af_node_flags a of None \<Rightarrow> 0 | Some n \<Rightarrow> n) @
         '' alpha '' @ f32_fixed 2 (w_alpha W h r) @ '' ghost '' @ bool_text (af_ghost a) @
         '' disabled '' @ bool_text (af_disabled a) @ '' dead '' @ bool_text (w_dead W h r) @
         '' pacified '' @ bool_text (rp_actorPacified p) @ '' boolFlags 0x'' @ hex_text (af_boolFlags a))"

definition debug_actor2 :: "World \<Rightarrow> history \<Rightarrow> ref option \<Rightarrow> ref \<Rightarrow> string" where
  "debug_actor2 W h local r =
     (let a = w_actor_facts W h r; b = w_base W h r; spot = w_position W h r
      in ''      pos ('' @ f32_fixed 0 (vx spot) @ '', '' @ f32_fixed 0 (vy spot) @ '', '' @ f32_fixed 0 (vz spot) @
         '') dist '' @ distance_text W h local spot @
         '' cell 0x'' @ hex8 (case w_cell W h r of None \<Rightarrow> 0 | Some c \<Rightarrow> cell_form c) @
         '' heads '' @ to_string (base_heads W h b) @ '' skin 0x'' @ hex8 (base_skin W h b) @
         '' sex '' @ int_text (base_sex W h b) @ '' flags 0x'' @ hex_text (af_formFlags a) @
         '' process '' @ int_text (case af_process_level a of None \<Rightarrow> - 1 | Some l \<Rightarrow> l) @
         '' niFlags 0x'' @ hex_text (af_niFlags a))"

definition debug_actor3 :: "World \<Rightarrow> history \<Rightarrow> RemotePlayer \<Rightarrow> ref \<Rightarrow> string" where
  "debug_actor3 W h p r =
     (let a = w_actor_facts W h r
      in ''      inGameFlags 0x'' @ hex_text (af_inGameFormFlags a) @ '' lifeState '' @ int_text (af_lifeState a) @
         '' weaponState '' @ int_text (af_weaponState a) @ '' sneaking '' @ to_string (af_sneaking a) @
         '' sprinting '' @ to_string (af_sprinting a) @ '' sitSleep '' @ int_text (af_sitSleepState a) @
         '' snapshots '' @ to_string (length (rp_snapshots p)) @ '' speed '' @ f32_fixed 0 (rp_speed p) @ '' u/s'')"

definition debug_actor4 :: "World \<Rightarrow> history \<Rightarrow> RemotePlayer \<Rightarrow> ref \<Rightarrow> string" where
  "debug_actor4 W h p r =
     ''      graph now: SpeedSampled '' @ f32_fixed 1 (ReadGraphFloat W h (Some r) ''SpeedSampled'') @
     '' Direction '' @ f32_fixed 2 (ReadGraphFloat W h (Some r) ''Direction'') @
     '' IsRunning '' @ bool_text (ReadGraphBool W h (Some r) ''IsRunning'') @
     '' IsSprinting '' @ bool_text (ReadGraphBool W h (Some r) ''IsSprinting'') @
     '' bAnimationDriven '' @ bool_text (ReadGraphBool W h (Some r) ''bAnimationDriven'') @
     '' (we write speed '' @ f32_fixed 0 (rp_speed p) @ '')''"

definition debug_remote :: "World \<Rightarrow> ref option \<Rightarrow> PlayerId \<times> RemotePlayer \<Rightarrow> Session \<Rightarrow> Session" where
  "debug_remote W local ip s =
     (let (i, p) = ip
      in case handle_actor W (e_calls s) (rp_actor p) of
           None \<Rightarrow> ConsolePrint W (debug_missing W (e_calls s) i p) s
         | Some r \<Rightarrow>
             let s = ConsolePrint W (debug_actor1 W (e_calls s) i p r) s;
                 s = ConsolePrint W (debug_actor2 W (e_calls s) local r) s;
                 s = ConsolePrint W (debug_actor3 W (e_calls s) p r) s
             in ConsolePrint W (debug_actor4 W (e_calls s) p r) s)"

definition PrintDebug :: "World \<Rightarrow> Session \<Rightarrow> Session" where
  "PrintDebug W s =
     (let local = GetPlayer W (e_calls s);
          s = ConsolePrint W (debug_header s) s;
          s = (case local of None \<Rightarrow> s | Some l \<Rightarrow> ConsolePrint W (debug_local W (e_calls s) l) s)
      in fold (debug_remote W local) (r_players s) s)"

section \<open>\<open>f4mp graph\<close>\<close>

text \<open>The first clone there is, with its name.\<close>

primrec first_clone :: "World \<Rightarrow> history \<Rightarrow> (PlayerId \<times> RemotePlayer) list \<Rightarrow> (ref \<times> string) option" where
  "first_clone W h [] = None"
| "first_clone W h (ip # ps) =
     (case handle_actor W h (rp_actor (snd ip)) of
        None \<Rightarrow> first_clone W h ps
      | Some r \<Rightarrow> Some (r, rp_name (snd ip)))"

definition graph_line :: "string \<Rightarrow> GraphValue \<Rightarrow> GraphValue \<Rightarrow> string" where
  "graph_line name mine theirs =
     ''  '' @ pad_right 22 name @ '' you ['' @ Describe mine @ '']  clone ['' @ Describe theirs @ '']''"

definition graph_name :: "World \<Rightarrow> ref option \<Rightarrow> ref option \<Rightarrow> string \<Rightarrow> nat \<times> Session \<Rightarrow> nat \<times> Session" where
  "graph_name W local clone name st =
     (let (found, s) = st;
          mine = ReadGraphValue W (e_calls s) local name;
          theirs = ReadGraphValue W (e_calls s) clone name
      in if \<not> Exists mine \<and> \<not> Exists theirs then (found, s)
         else (Suc found, ConsolePrint W (graph_line name mine theirs) s))"

definition PrintGraph :: "World \<Rightarrow> string list \<Rightarrow> Session \<Rightarrow> Session" where
  "PrintGraph W a_names s =
     (let local = GetPlayer W (e_calls s);
          clone = first_clone W (e_calls s) (r_players s);
          s = ConsolePrint W (''[F4MP] graph variables: you'' @
                (case clone of
                   None \<Rightarrow> '' (no clone spawned)''
                 | Some (_, name) \<Rightarrow> '' vs clone '' @ quote name)) s;
          names = (if a_names = [] then GraphVariableCandidates else map c_str a_names);
          (found, s) = fold (graph_name W local (map_option fst clone)) names (0, s)
      in ConsolePrint W (''  '' @ to_string found @ '' of '' @ to_string (length names) @
           '' name(s) exist in a behaviour graph'') s)"

end
