(* ===== verification/F4_ConsoleCommands.thy ===== *)
theory F4_ConsoleCommands
  imports F4_Debug
begin

text \<open>
  \<open>client/src/Game/ConsoleCommands.cpp\<close>: the \<open>f4mp\<close> command of the game's console, from
  taking over an entry of the engine's table of commands, and from the raw line to the call of
  the session; and \<open>client/src/Main.cpp\<close>. \<open>unsigned long\<close> has \<open>ulong\<close> bits.
\<close>

section \<open>Words\<close>

definition Console_Trim :: "string \<Rightarrow> string" where
  "Console_Trim s = rev (dropWhile isspace (rev (dropWhile isspace s)))"

definition NextToken :: "string \<Rightarrow> string \<times> string" where
  "NextToken s =
     (let s = Console_Trim s
      in (takeWhile (\<lambda>c. \<not> isspace c) s, Console_Trim (dropWhile (\<lambda>c. \<not> isspace c) s)))"

definition IEquals :: "string \<Rightarrow> string \<Rightarrow> bool" where
  "IEquals a b = (length a = length b \<and> list_all2 (\<lambda>x y. tolower x = tolower y) a b)"

text \<open>The part after the last dot.\<close>

definition IsCommandToken :: "string \<Rightarrow> bool" where
  "IsCommandToken token = IEquals (rev (takeWhile (\<lambda>c. c \<noteq> CHR ''.'') (rev token))) ''f4mp''"

definition StripQuotes :: "string \<Rightarrow> string" where
  "StripQuotes s =
     Console_Trim (if 2 \<le> length s \<and> hd s = CHR 0x22 \<and> last s = CHR 0x22 then butlast (tl s) else s)"

text \<open>The words of \<open>f4mp graph\<close>.\<close>

lemma length_Console_Trim: "length (Console_Trim s) \<le> length s"
  unfolding Console_Trim_def using length_dropWhile_le [of isspace "rev (dropWhile isspace s)"]
    length_dropWhile_le [of isspace s] by simp

lemma NextToken_shorter: "fst (NextToken s) \<noteq> [] \<Longrightarrow> length (snd (NextToken s)) < length s"
proof -
  let ?t = "Console_Trim s" and ?P = "\<lambda>c. \<not> isspace c"
  assume "fst (NextToken s) \<noteq> []"
  then have "takeWhile ?P ?t \<noteq> []" by (simp add: NextToken_def Let_def)
  then have "0 < length (takeWhile ?P ?t)" by simp
  moreover have "length (takeWhile ?P ?t) + length (dropWhile ?P ?t) = length ?t"
    by (metis length_append takeWhile_dropWhile_id)
  ultimately show ?thesis
    using length_Console_Trim [of "dropWhile ?P ?t"] length_Console_Trim [of s]
    unfolding NextToken_def Let_def snd_conv by linarith
qed

function tokens :: "string \<Rightarrow> string list" where
  "tokens s =
     (if s = [] \<or> fst (NextToken s) = [] then [] else fst (NextToken s) # tokens (snd (NextToken s)))"
  by pat_completeness auto
termination
  by (relation "measure length") (simp_all add: NextToken_shorter)

declare tokens.simps [simp del]

section \<open>Commands\<close>

definition usage_lines :: "World \<Rightarrow> string list" where
  "usage_lines W =
     [''F4MP v'' @ w_version W @ '' commands:'',
      ''  f4mp status                  connection state'',
      ''  f4mp connect [host[:port]]   connect, optionally to another server'',
      ''  f4mp disconnect              leave the server (no auto-reconnect)'',
      ''  f4mp say <text>              chat (quote very long messages: f4mp say '' @ quote ''...'' @ '')'',
      ''  f4mp list                    players on the server'',
      ''  f4mp name <name>             change your name'',
      ''  f4mp unstick                 restore controls, HUD and camera after a menu froze you'',
      ''  f4mp debug                   engine facts about every clone (3D, alpha, base record)'',
      ''  f4mp graph [names...]        animation variables, you vs a clone; run it while moving'',
      ''  f4mp clonebase <hex id>      NPC record to copy clones from (default 7), respawns them'',
      ''  f4mp sync|pacify|ghost|duplicate|move on|off   clone experiments; f4mp respawn recreates them'']"

definition Usage :: "World \<Rightarrow> Session \<Rightarrow> Session" where
  "Usage W s = fold (ConsolePrint W) (usage_lines W) s"

definition clone_options :: "string list" where
  "clone_options = [''sync'', ''pacify'', ''ghost'', ''duplicate'', ''move'', ''respawn'']"

definition Execute_clonebase :: "World \<Rightarrow> nat \<Rightarrow> string \<Rightarrow> Session \<Rightarrow> Session" where
  "Execute_clonebase W ulong args s =
     (let text = StripQuotes args;
          text = (if 2 < length text \<and> (take 2 text = ''0x'' \<or> take 2 text = ''0X'') then drop 2 text else text)
      in case from_chars_unsigned 16 (2 ^ ulong - 1) text of
           (Some v, []) \<Rightarrow> Session_SetCloneBase W (word_of_nat v) s
         | _ \<Rightarrow> ConsolePrint W ''[F4MP] Usage: f4mp clonebase <NPC form id in hex, e.g. 7 or A7D34>'' s)"

definition Execute_command :: "World \<Rightarrow> nat \<Rightarrow> string \<Rightarrow> string \<Rightarrow> Session \<Rightarrow> Session" where
  "Execute_command W ulong cmd args s =
     (if cmd = [] \<or> IEquals cmd ''help'' then Usage W s
      else if IEquals cmd ''status'' then PrintStatus W s
      else if IEquals cmd ''connect'' then
        (if args = [] then Session_Connect W True s
         else let (valid, s) = SetServer (StripQuotes args) s
              in if \<not> valid then ConsolePrint W ''[F4MP] Usage: f4mp connect [host[:port]]'' s
                 else Session_Connect W True s)
      else if IEquals cmd ''disconnect'' then Session_Disconnect W True s
      else if IEquals cmd ''say'' then
        (let text = StripQuotes args
         in if text = [] then ConsolePrint W ''[F4MP] Usage: f4mp say <text>'' s else SendChat W text s)
      else if IEquals cmd ''list'' \<or> IEquals cmd ''players'' then PrintPlayers W s
      else if IEquals cmd ''name'' then
        (let name = StripQuotes args
         in if name = [] then ConsolePrint W ''[F4MP] Usage: f4mp name <name>'' s else SetPlayerName W name s)
      else if IEquals cmd ''unstick'' then
        ConsolePrint W ''[F4MP] Controls, HUD and camera restored.'' (RestorePlayerControl W s)
      else if IEquals cmd ''debug'' then PrintDebug W s
      else if IEquals cmd ''graph'' then PrintGraph W (tokens args) s
      else if list_ex (IEquals cmd) clone_options then
        (let (word, _) = NextToken args;
             on = (\<not> (IEquals word ''off'' \<or> IEquals word ''0'' \<or> IEquals word ''false''))
         in snd (SetCloneOption W (map tolower cmd) on s))
      else if IEquals cmd ''clonebase'' then Execute_clonebase W ulong args s
      else Usage W (ConsolePrint W (''[F4MP] Unknown command '' @ quote cmd) s))"

definition Execute :: "World \<Rightarrow> nat \<Rightarrow> string \<Rightarrow> Session \<Rightarrow> Session" where
  "Execute W ulong line s =
     (let rest = Console_Trim line;
          (token, probe) = NextToken rest;
          rest = (if IsCommandToken token then probe else rest);
          (cmd, args) = NextToken rest
      in Execute_command W ulong cmd args s)"

text \<open>The handler in the engine's table: it ignores the compiled words and reads the raw line, which a
  script without one does not have.\<close>

definition Console_ExecuteCommand :: "World \<Rightarrow> nat \<Rightarrow> string option \<Rightarrow> Session \<Rightarrow> Session" where
  "Console_ExecuteCommand W ulong script_text s = Execute W ulong (case script_text of None \<Rightarrow> [] | Some line \<Rightarrow> line) s"

section \<open>The entry in the table of commands\<close>

definition HIJACKED_COMMAND :: string where "HIJACKED_COMMAND = ''TestSeenData''"
definition COMMAND_NAME :: string where "COMMAND_NAME = ''F4MP''"
definition COMMAND_SHORT :: string where "COMMAND_SHORT = ''f4mp''"
definition COMMAND_HELP :: string where
  "COMMAND_HELP = ''F4MP multiplayer. Usage: f4mp help | status | connect [host[:port]] | disconnect | say <text> | list | name <name> | unstick''"
definition MAX_WORDS :: nat where "MAX_WORDS = 24"

definition InitParameters :: "ScriptParameter list" where
  "InitParameters = replicate MAX_WORDS \<lparr>sp_paramName = ''Word'', sp_isChar = True, sp_optional = True\<rparr>"

definition command_entry :: ScriptFunction where
  "command_entry =
     \<lparr>sf_functionName = COMMAND_NAME, sf_shortName = COMMAND_SHORT, sf_helpString = COMMAND_HELP,
      sf_referenceFunction = False, sf_paramCount = word_of_nat (length InitParameters),
      sf_parameters = InitParameters, sf_executeFunction = ''ExecuteCommand'', sf_conditionFunction = None,
      sf_editorFilter = False, sf_invalidatesCellList = False\<rparr>"

definition Register :: "World \<Rightarrow> 'a Env_scheme \<Rightarrow> bool \<times> 'a Env_scheme" where
  "Register W s =
     (if \<not> w_console_function W (e_calls s) HIJACKED_COMMAND then (False, s)
      else (True, do_call (Ui (TakeOverFunction HIJACKED_COMMAND command_entry)) s))"

section \<open>The client as a machine\<close>

text \<open>What the game and the network can make the client do: \<open>Main.cpp\<close>.\<close>

datatype client_input =
    InTick "net_client_event list"
  | InGameDataReady
  | InPostLoadGame
  | InNewGame
  | InPreLoadGame
  | InPreSaveGame
  | InConsole "string option"
  | InSexAnswer u8

definition client_step :: "nat \<Rightarrow> World \<Rightarrow> client_input \<Rightarrow> Session \<Rightarrow> Session" where
  "client_step ulong W i s =
     (case i of
        InTick es \<Rightarrow> Tick W es s
      | InGameDataReady \<Rightarrow> s
      | InPostLoadGame \<Rightarrow> OnEnterWorld s
      | InNewGame \<Rightarrow> OnNewGame s
      | InPreLoadGame \<Rightarrow> OnLeaveWorld s
      | InPreSaveGame \<Rightarrow> OnPreSave W s
      | InConsole line \<Rightarrow> Console_ExecuteCommand W ulong line s
      | InSexAnswer b \<Rightarrow> SexChoiceCallback b s)"

text \<open>Loading the plugin: ENet is initialised or not, the file of settings is read, the console command
  installed, and the two functions of \<open>Main.cpp\<close> handed to the script extender.\<close>

definition plugin_load :: "World \<Rightarrow> nat \<Rightarrow> bool \<Rightarrow> (nat \<Rightarrow> int) \<Rightarrow> string \<Rightarrow> string option \<Rightarrow> Session" where
  "plugin_load W ulong initialized clk path file =
     (let s = Session_Init W (ClientConfig_Load ulong path file) (Session_new initialized clk);
          (_, s) = Register W s;
          s = do_call (Ui RegisterListener) s
      in do_call (Ui AddTaskPermanent) s)"

end
