(* ===== verification/F4_ClientFacts.thy ===== *)
theory F4_ClientFacts
  imports F4_ConsoleCommands
begin

text \<open>
  What the client's operations leave alone, and which calls they make. Most helpers only
  call the engine and read the clock: everything but the surroundings is as before, and the
  new calls satisfy a given predicate. The relation \<open>calls_only\<close> says so and composes, so
  the proofs about a handler only see the update it makes itself.
\<close>

named_theorems call_rules \<open>operations that only make calls\<close>

section \<open>Only calls\<close>

definition calls_only :: "(call \<Rightarrow> bool) \<Rightarrow> 'a Env_scheme \<Rightarrow> 'a Env_scheme \<Rightarrow> bool" where
  "calls_only P s s' =
     (Env.more s' = Env.more s \<and> e_clock s' = e_clock s \<and> e_readings s \<le> e_readings s' \<and> (\<exists>cs. e_calls s' = e_calls s @ cs \<and> list_all P cs))"

abbreviation any_call :: "call \<Rightarrow> bool" where
  "any_call c \<equiv> True"

lemma calls_only_refl [call_rules]: "calls_only P s s"
  by (simp add: calls_only_def)

lemma calls_only_trans:
  assumes "calls_only P s t" and "calls_only P t u"
  shows "calls_only P s u"
proof -
  obtain cs ds where "e_calls t = e_calls s @ cs" "list_all P cs" "e_calls u = e_calls t @ ds" "list_all P ds"
    using assms unfolding calls_only_def by blast
  then have "e_calls u = e_calls s @ (cs @ ds)" "list_all P (cs @ ds)" by simp_all
  then show ?thesis using assms unfolding calls_only_def by (metis le_trans)
qed

lemma calls_only_mono: "calls_only P s t \<Longrightarrow> (\<And>c. P c \<Longrightarrow> Q c) \<Longrightarrow> calls_only Q s t"
  unfolding calls_only_def by (metis list_all_iff)

lemma calls_only_time: "calls_only P s t \<Longrightarrow> e_clock t = e_clock s \<and> e_readings s \<le> e_readings t"
  by (simp add: calls_only_def)

lemma calls_only_do: "P c \<Longrightarrow> calls_only P s (do_call c s)"
  by (simp add: calls_only_def do_call_def)

lemma calls_only_then: "P c \<Longrightarrow> calls_only P s t \<Longrightarrow> calls_only P s (do_call c t)"
  by (rule calls_only_trans [OF _ calls_only_do])

lemma calls_only_now: "calls_only P s (snd (e_now s))"
  by (simp add: calls_only_def e_now_def)

lemma calls_only_if: "calls_only P s t \<Longrightarrow> calls_only P s u \<Longrightarrow> calls_only P s (if b then t else u)"
  by simp

lemma calls_only_fold:
  "(\<And>x t. x \<in> set xs \<Longrightarrow> calls_only P t (f x t)) \<Longrightarrow> calls_only P s (fold f xs s)"
proof (induction xs arbitrary: s)
  case (Cons x xs)
  then have "calls_only P s (f x s)" "calls_only P (f x s) (fold f xs (f x s))" by simp_all
  then show ?case by (simp add: calls_only_trans [of P s "f x s"])
qed (simp add: calls_only_refl)

text \<open>The fields of every part of the client survive.\<close>

lemma calls_only_net:
  "calls_only P s s' \<Longrightarrow> n_state s' = n_state s \<and> n_peer s' = n_peer s \<and> n_host s' = n_host s \<and>
    n_enetReady s' = n_enetReady s \<and> n_connectStart s' = n_connectStart s"
  by (cases s; cases s') (simp add: calls_only_def)

lemma calls_only_remotes:
  "calls_only P s s' \<Longrightarrow> r_players s' = r_players s \<and> r_serverClock s' = r_serverClock s \<and> r_hasOffset s' = r_hasOffset s \<and>
    r_offsetMs s' = r_offsetMs s \<and> r_interpDelayMs s' = r_interpDelayMs s \<and> r_drive s' = r_drive s \<and>
    r_duplicate s' = r_duplicate s"
  by (cases s; cases s') (simp add: calls_only_def)

lemma calls_only_skip:
  "calls_only P s s' \<Longrightarrow> k_settings s' = k_settings s \<and> k_state s' = k_state s \<and> k_next s' = k_next s"
  by (cases s; cases s') (simp add: calls_only_def)

lemma calls_only_session:
  fixes s :: Session
  shows "calls_only P s s' \<Longrightarrow> s_myId s' = s_myId s \<and> s_welcomed s' = s_welcomed s \<and> s_config s' = s_config s \<and>
    s_inWorld s' = s_inWorld s"
  by (cases s; cases s') (simp add: calls_only_def)

lemma calls_only_parts:
  fixes s :: Session
  assumes "calls_only P s s'"
  shows "n_state s' = n_state s" "n_peer s' = n_peer s" "n_host s' = n_host s"
    "r_players s' = r_players s" "r_serverClock s' = r_serverClock s"
    "s_myId s' = s_myId s" "s_welcomed s' = s_welcomed s" "s_config s' = s_config s" "s_inWorld s' = s_inWorld s"
  using calls_only_net [OF assms] calls_only_remotes [OF assms] calls_only_session [OF assms] by simp_all

section \<open>The helpers over the engine\<close>

definition acts_on :: "ref \<Rightarrow> (call \<Rightarrow> bool) \<Rightarrow> bool" where
  "acts_on r P = (\<forall>x. P (Actor r x))"

definition ui_free :: "(call \<Rightarrow> bool) \<Rightarrow> bool" where
  "ui_free P = (\<forall>x. P (Ui x))"

definition form_free :: "(call \<Rightarrow> bool) \<Rightarrow> bool" where
  "form_free P = ((\<forall>b x. P (Form b x)) \<and> (\<forall>d. P (CreateReference d)))"

lemma calls_ConsolePrint [call_rules]: "ui_free P \<Longrightarrow> calls_only P s (ConsolePrint W text s)"
  by (simp add: ConsolePrint_def calls_only_refl calls_only_do ui_free_def)

lemma calls_Print [call_rules]: "ui_free P \<Longrightarrow> calls_only P s (Print W text s)"
  by (simp add: Print_def calls_ConsolePrint calls_only_refl)

lemma calls_prints [call_rules]: "ui_free P \<Longrightarrow> calls_only P s (fold (ConsolePrint W) xs s)"
  by (rule calls_only_fold) (rule calls_ConsolePrint)

lemma calls_debug_remote: "ui_free P \<Longrightarrow> calls_only P s (debug_remote W l ip s)"
  unfolding debug_remote_def Let_def case_prod_beta
  by (auto intro!: calls_only_trans [OF _ calls_ConsolePrint] calls_ConsolePrint split: option.split)

lemma calls_PrintDebug [call_rules]: "ui_free P \<Longrightarrow> calls_only P s (PrintDebug W s)"
  unfolding PrintDebug_def Let_def
  by (auto intro!: calls_only_trans [OF _ calls_only_fold [OF calls_debug_remote]] calls_only_trans [OF _ calls_ConsolePrint]
      calls_ConsolePrint split: option.split)

lemma calls_graph_names: "ui_free P \<Longrightarrow> calls_only P (snd st) (snd (fold (graph_name W l c) names st))"
proof (induction names arbitrary: st)
  case (Cons n names)
  have "calls_only P (snd st) (snd (graph_name W l c n st))"
    using Cons.prems by (auto simp: graph_name_def case_prod_beta Let_def intro: calls_only_refl calls_ConsolePrint)
  then show ?case using Cons by (simp add: calls_only_trans [of P "snd st"])
qed (simp add: calls_only_refl)

lemma calls_PrintGraph [call_rules]: "ui_free P \<Longrightarrow> calls_only P s (PrintGraph W names s)"
  unfolding PrintGraph_def Let_def case_prod_beta
  by (rule calls_only_trans [OF calls_only_trans [OF calls_ConsolePrint calls_graph_names [of P "(0, t)" for t, simplified]] calls_ConsolePrint])

lemma calls_Register [call_rules]: "ui_free P \<Longrightarrow> calls_only P s (snd (Register W s))"
  by (simp add: Register_def calls_only_refl calls_only_do ui_free_def)

lemma calls_RenameCloneBase [call_rules]: "form_free P \<Longrightarrow> calls_only P s (RenameCloneBase b name s)"
  by (auto simp: RenameCloneBase_def form_free_def intro: calls_only_refl calls_only_do split: option.split)

lemma calls_CreateCloneBase [call_rules]:
  "form_free P \<Longrightarrow> calls_only P s (snd (CreateCloneBase W i name ghost s))"
  by (auto simp: CreateCloneBase_def RenameCloneBase_def Let_def form_free_def
      intro!: calls_only_refl calls_only_then split: option.split)

lemma calls_ApplyCloneIdentity [call_rules]:
  "(\<And>r. a_ref = Some r \<Longrightarrow> acts_on r P) \<Longrightarrow> calls_only P s (ApplyCloneIdentity a_ref name ghost s)"
  by (auto simp: ApplyCloneIdentity_def Let_def acts_on_def intro!: calls_only_refl calls_only_then split: option.split)

lemma calls_PacifyClone [call_rules]: "acts_on r P \<Longrightarrow> calls_only P s (snd (PacifyClone W r s))"
  by (auto simp: PacifyClone_def Let_def acts_on_def intro!: calls_only_refl calls_only_then)

lemma calls_ApplyStateFlags [call_rules]: "acts_on r P \<Longrightarrow> calls_only P s (ApplyStateFlags r a b s)"
  by (auto simp: ApplyStateFlags_def Let_def acts_on_def intro!: calls_only_refl calls_only_then)

lemma calls_DriveClone [call_rules]: "acts_on r P \<Longrightarrow> calls_only P s (DriveClone r spot a s)"
  by (auto simp: DriveClone_def acts_on_def intro!: calls_only_refl calls_only_then)

lemma calls_DriveCloneByMove [call_rules]: "acts_on r P \<Longrightarrow> calls_only P s (DriveCloneByMove W r spot a dt s)"
  by (auto simp: DriveCloneByMove_def Let_def calls_DriveClone) (auto simp: acts_on_def intro!: calls_only_refl calls_only_then)

lemma calls_writes:
  "acts_on r P \<Longrightarrow> calls_only P s (writeFloat W r name v s)" "acts_on r P \<Longrightarrow> calls_only P s (writeBool W r name b s)"
  by (auto simp: writeFloat_def writeBool_def acts_on_def intro!: calls_only_refl calls_only_do)

lemma calls_SetLocomotion [call_rules]:
  assumes "acts_on r P"
  shows "calls_only P s (SetLocomotion W r v sprinting a_first s)"
  unfolding SetLocomotion_def Let_def
  by (rule calls_only_fold calls_writes assms calls_only_refl calls_only_trans [OF _ calls_only_fold]
      calls_only_trans [OF _ calls_writes(1)] calls_only_trans [OF _ calls_writes(2)] calls_only_if | assumption)+

lemma calls_NetClient_Send [call_rules]:
  "(\<And>p n. P (Enet (PeerSend p n (ch = kReliable) bytes))) \<Longrightarrow> calls_only P s (NetClient_Send ch bytes s)"
  by (auto simp: NetClient_Send_def enet_def intro!: calls_only_refl calls_only_do split: option.split)

text \<open>A despawn never touches the local player.\<close>

lemma calls_Despawn [call_rules]:
  assumes "\<And>r. w_resolve W (e_calls s) h = Some r \<Longrightarrow> Some r \<noteq> w_singleton W (e_calls s) \<Longrightarrow> acts_on r P"
  shows "calls_only P s (snd (Despawn W h s)) \<and> fst (Despawn W h s) = None"
  using assms
  by (auto simp: Despawn_def acts_on_def intro!: calls_only_refl calls_only_then split: option.split)

lemma any_call_rules [simp]: "acts_on r (\<lambda>_. True)" "ui_free (\<lambda>_. True)" "form_free (\<lambda>_. True)"
  by (simp_all add: acts_on_def ui_free_def form_free_def)

lemma calls_RestorePlayerControl [call_rules]: "ui_free P \<Longrightarrow> calls_only P s (RestorePlayerControl W s)"
  unfolding RestorePlayerControl_def Let_def ui_free_def
  by (cases "w_input_layers W (e_calls s)")
    (auto intro!: calls_only_refl calls_only_then calls_only_fold)

section \<open>One remote player's frame\<close>

text \<open>Placing and driving an actor changes neither the player's identity nor the snapshots.\<close>

definition same_remote :: "RemotePlayer \<Rightarrow> RemotePlayer \<Rightarrow> bool" where
  "same_remote p q = (rp_id q = rp_id p \<and> rp_name q = rp_name p \<and> rp_snapshots q = rp_snapshots p)"

lemma same_remote_refl [simp]: "same_remote p p"
  by (simp add: same_remote_def)

text \<open>The calls that are allowed: on base forms, on new references, and on every actor that is not the
  local player when the code looks.\<close>

definition allows :: "World \<Rightarrow> (call \<Rightarrow> bool) \<Rightarrow> bool" where
  "allows W P = (form_free P \<and> (\<forall>h r. Some r \<noteq> w_singleton W h \<longrightarrow> acts_on r P))"

lemma allows_any [simp]: "allows W (\<lambda>_. True)"
  by (simp add: allows_def)

lemma allowsD: "allows W P \<Longrightarrow> form_free P" "allows W P \<Longrightarrow> Some r \<noteq> w_singleton W h \<Longrightarrow> acts_on r P"
  by (auto simp: allows_def)

lemma actor_of_resolve: "actor_of W h hdl = Some r \<Longrightarrow> w_resolve W h hdl = Some r"
  by (simp add: actor_of_def split: option.splits if_splits)

lemma calls_Despawn_allowed:
  "allows W P \<Longrightarrow> calls_only P s (snd (Despawn W hdl s)) \<and> fst (Despawn W hdl s) = None"
  by (rule calls_Despawn) (rule allowsD(2))

lemma keep_actor_frame:
  assumes "allows W P" and "keep_actor W space vis p s = (a, p', s')"
  shows "same_remote p p' \<and> calls_only P s s' \<and> (\<forall>r. a = Some r \<longrightarrow> acts_on r P)"
  using assms(2) calls_Despawn_allowed [OF assms(1), of s "rp_actor p"] unfolding keep_actor_def
  by (auto simp: Let_def same_remote_def case_prod_beta calls_only_refl
      intro: allowsD(2) [OF assms(1), of _ "e_calls s"] split: if_splits)

lemma pick_base_frame:
  assumes "form_free P" and "pick_base W p s = (b, p', s')"
  shows "same_remote p p' \<and> calls_only P s s'"
  using assms(2) calls_CreateCloneBase [OF assms(1), of s W "r_baseFormId s" "rp_name p" "r_ghost s"]
  by (auto simp: pick_base_def Let_def same_remote_def case_prod_beta calls_only_refl split: if_splits)

lemma SpawnPlayerClone_frame:
  assumes "form_free P" and "SpawnPlayerClone W b spot a space s = (hdl, s')"
  shows "calls_only P s s'"
  using assms unfolding SpawnPlayerClone_def Let_def form_free_def
  by (auto simp: calls_only_refl intro: calls_only_do split: option.splits if_splits)

lemma SpawnPlayerClone_spares:
  assumes "SpawnPlayerClone W b spot a space s = (hdl, s')" and "w_resolve W (e_calls s') hdl = Some r"
  shows "Some r \<noteq> w_singleton W (e_calls s')"
  using assms unfolding SpawnPlayerClone_def Let_def
  by (auto simp: w_resolve_def split: option.splits if_splits)

lemma spawn_actor_frame:
  assumes "allows W P" and "spawn_actor W space vis t p s = (a, p', s')"
  shows "same_remote p p' \<and> calls_only P s s' \<and> (\<forall>r. a = Some r \<longrightarrow> acts_on r P)"
proof (cases "\<not> vis \<or> t - rp_lastSpawnAttempt p < SPAWN_RETRY_INTERVAL")
  case True
  then show ?thesis using assms(2) by (auto simp: spawn_actor_def calls_only_refl)
next
  case False
  obtain b q u where b: "pick_base W (p\<lparr>rp_lastSpawnAttempt := t\<rparr>) s = (b, q, u)" by (metis prod_cases3)
  have q: "same_remote p q" "calls_only P s u"
    using pick_base_frame [OF allowsD(1) [OF assms(1)] b] by (simp_all add: same_remote_def)
  obtain hdl v where v: "SpawnPlayerClone W b (ToNi (position (Latest q))) (yaw (Latest q)) space u = (hdl, v)" by fastforce
  have uv: "calls_only P u v" by (rule SpawnPlayerClone_frame [OF allowsD(1) [OF assms(1)] v])
  have sv: "calls_only P s v" by (rule calls_only_trans [OF q(2) uv])
  show ?thesis
  proof (cases "actor_of W (e_calls v) hdl")
    case None
    then show ?thesis using assms(2) False q sv
      by (auto simp: spawn_actor_def b v same_remote_def split: if_splits)
  next
    case (Some r)
    have r: "acts_on r P"
      using SpawnPlayerClone_spares [OF v actor_of_resolve [OF Some]] by (rule allowsD(2) [OF assms(1)])
    have "calls_only P s (ApplyCloneIdentity (Some r) (rp_name q) (r_ghost v) v)"
      using r by (intro calls_only_trans [OF sv] calls_ApplyCloneIdentity) simp
    then show ?thesis using assms(2) False q sv Some r
      by (auto simp: spawn_actor_def b v same_remote_def Let_def split: if_splits)
  qed
qed

lemma calls_Actor: "acts_on r P \<Longrightarrow> calls_only P s (do_call (Actor r x) s)"
  by (simp add: acts_on_def calls_only_do)

lemma apply_dead_frame:
  assumes "acts_on r P"
  shows "same_remote p (fst (apply_dead r d p s)) \<and> calls_only (P) s (snd (apply_dead r d p s))"
  using assms by (simp add: apply_dead_def same_remote_def calls_only_refl calls_Actor)

lemma apply_flags_frame:
  assumes "acts_on r P"
  shows "same_remote p (fst (apply_flags W r st p s)) \<and> calls_only (P) s (snd (apply_flags W r st p s))"
proof -
  note r = assms
  show ?thesis
    unfolding apply_flags_def Let_def
    by (simp add: same_remote_def calls_only_trans [OF calls_ApplyStateFlags [OF r] calls_SetLocomotion [OF r]])
qed

text \<open>Frames of a pair of a player and a state compose.\<close>

definition frames :: "(call \<Rightarrow> bool) \<Rightarrow> RemotePlayer \<Rightarrow> 'a RemotePlayers_scheme \<Rightarrow> RemotePlayer \<times> 'a RemotePlayers_scheme \<Rightarrow> bool" where
  "frames P p s x = (same_remote p (fst x) \<and> calls_only (P) s (snd x))"

lemma frames_trans: "frames P p s x \<Longrightarrow> frames P (fst x) (snd x) y \<Longrightarrow> frames P p s y"
  by (auto simp: frames_def same_remote_def intro: calls_only_trans)

lemma render_actor_frame:
  assumes "acts_on r P"
  shows "frames P p s (render_actor W r t m p s)"
proof -
  note r = assms
  obtain sample where sample: "sample = SampleAt (rp_snapshots p) m" by blast
  obtain spot where spot: "spot = ToNi (position sample)" by blast
  obtain dt where dt: "dt = (if rp_hasLastRender p then seconds_of_ns (t - rp_lastRenderTime p) else 0)" by blast
  obtain u where u: "u = (if r_move s \<and> f32_lt 0 dt
      then DriveCloneByMove W r spot (yaw sample) (f32_min dt (f32_lit 1 10)) s else DriveClone r spot (yaw sample) s)" by blast
  obtain q where q: "q = p\<lparr>rp_speed := smooth_speed spot dt p, rp_lastRenderPos := spot, rp_lastRenderTime := t,
      rp_hasLastRender := True\<rparr>" by blast
  have 1: "frames P p s (q, u)"
    unfolding frames_def u by (simp add: q same_remote_def calls_DriveCloneByMove [OF r] calls_DriveClone [OF r])
  obtain d where d: "d = (flags (Latest q) AND kStateDead \<noteq> 0)" by blast
  obtain x where x: "x = apply_dead r d q u" by blast
  have 2: "frames P p s x"
    using frames_trans [OF 1] apply_dead_frame [OF assms, of q d u] by (simp add: x frames_def)
  have 3: "frames P p s (apply_flags W r st (fst x) (snd x))" for st
    using frames_trans [OF 2] apply_flags_frame [OF assms, of "fst x" W st "snd x"] by (simp add: frames_def)
  have "render_actor W r t m p s = (if d then x else apply_flags W r (Latest (fst x)) (fst x) (snd x))"
    unfolding render_actor_def Let_def sample [symmetric] spot [symmetric] dt [symmetric] u [symmetric]
    by (simp add: q [symmetric] d [symmetric] x [symmetric] case_prod_beta)
  then show ?thesis using 2 3 by simp
qed

lemma drive_actor_frame:
  assumes "acts_on r P"
  shows "frames P p s (drive_actor W r t m p s)"
proof -
  note r = assms
  obtain b u where u: "(if r_pacify s \<and> \<not> rp_actorPacified p then PacifyClone W r s else (rp_actorPacified p, s)) = (b, u)"
    by fastforce
  have su: "calls_only (P) s u" using u calls_PacifyClone [OF r, of s W] by (auto simp: calls_only_refl split: if_splits)
  obtain v where v: "v = (if f32_lt (w_alpha W (e_calls u) r) (f32_lit 1 1) then do_call (Actor r (SetAlpha (f32_lit 1 1))) u else u)"
    by blast
  have 1: "frames P p s (p\<lparr>rp_actorPacified := b\<rparr>, v)"
    unfolding frames_def v by (simp add: same_remote_def su calls_only_trans [OF su calls_Actor [OF r]])
  have "drive_actor W r t m p s =
      (if \<not> r_drive v then (p\<lparr>rp_actorPacified := b\<rparr>, v) else render_actor W r t m (p\<lparr>rp_actorPacified := b\<rparr>) v)"
    unfolding drive_actor_def u Let_def prod.case v [symmetric] ..
  moreover have "frames P p s (render_actor W r t m (p\<lparr>rp_actorPacified := b\<rparr>) v)"
    by (rule frames_trans [OF 1]) (simp add: render_actor_frame [OF assms])
  ultimately show ?thesis using 1 by simp
qed

lemma UpdateOne_frame:
  assumes "allows W P"
  shows "same_remote (p\<lparr>rp_snapshots := (if HasState p then forget_history m (rp_snapshots p) else rp_snapshots p)\<rparr>)
      (fst (UpdateOne W space t m p s)) \<and> calls_only (P) s (snd (UpdateOne W space t m p s))"
proof (cases "HasState p")
  case True
  let ?p = "p\<lparr>rp_snapshots := forget_history m (rp_snapshots p)\<rparr>"
  let ?sp = "SpaceFromState (Latest ?p)"
  let ?vis = "SameArea ?sp space"
  obtain a q u where k: "keep_actor W ?sp ?vis ?p s = (a, q, u)" by (metis prod_cases3)
  obtain b r v where f: "(if a = None then spawn_actor W ?sp ?vis t q u else (a, q, u)) = (b, r, v)" by (metis prod_cases3)
  have 1: "same_remote ?p q" "calls_only (P) s u" "\<forall>x. a = Some x \<longrightarrow> acts_on x P"
    using keep_actor_frame [OF assms k] by simp_all
  have 2: "same_remote q r \<and> calls_only (P) u v \<and> (\<forall>x. b = Some x \<longrightarrow> acts_on x P)"
    using f 1(3) spawn_actor_frame [OF assms, of ?sp ?vis t q u]
    by (cases a) (auto simp: calls_only_refl)
  have 3: "same_remote ?p r" "calls_only (P) s v"
    using 1 2 by (auto simp: same_remote_def intro: calls_only_trans)
  show ?thesis
  proof (cases b)
    case None
    then show ?thesis using 3 True by (simp add: UpdateOne_def Let_def k f)
  next
    case (Some x)
    then have "frames P r v (drive_actor W x t m r v)"
      using 2 by (intro drive_actor_frame) simp
    then show ?thesis using 3 True Some
      by (auto simp: UpdateOne_def Let_def k f frames_def same_remote_def intro: calls_only_trans)
  qed
qed (simp add: UpdateOne_def same_remote_def calls_only_refl)

section \<open>All remote players\<close>

text \<open>The loops over the players change each in place.\<close>

definition in_place :: "(RemotePlayer \<Rightarrow> RemotePlayer \<Rightarrow> bool) \<Rightarrow> (PlayerId \<times> RemotePlayer) list \<Rightarrow> (PlayerId \<times> RemotePlayer) list \<Rightarrow> bool" where
  "in_place R ps qs = list_all2 (\<lambda>(i, p) (j, q). i = j \<and> R p q) ps qs"

lemma Update_loop_frame:
  assumes "allows W P"
  shows "in_place (\<lambda>p q. same_remote (p\<lparr>rp_snapshots := (if HasState p then forget_history m (rp_snapshots p) else rp_snapshots p)\<rparr>) q)
      ps (fst (Update_loop W space t m ps s)) \<and> calls_only (P) s (snd (Update_loop W space t m ps s))"
proof (induction ps arbitrary: s)
  case (Cons e ps)
  show ?case
    using Cons.IH [of "snd (UpdateOne W space t m (snd e) s)"] UpdateOne_frame [OF assms, of "snd e" m space t s]
    by (auto simp: in_place_def Let_def case_prod_beta intro: calls_only_trans)
qed (simp add: in_place_def calls_only_refl)

lemma Despawn_loop_frame:
  assumes "allows W P"
  shows "fst (Despawn_loop W ps s) = map (\<lambda>(i, p). (i, p\<lparr>rp_actor := None\<rparr>)) ps \<and>
    calls_only P s (snd (Despawn_loop W ps s))"
proof (induction ps arbitrary: s)
  case (Cons e ps)
  show ?case
    using Cons.IH [of "snd (Despawn W (rp_actor (snd e)) s)"] calls_Despawn_allowed [OF assms, of s "rp_actor (snd e)"]
    by (auto simp: Let_def case_prod_beta intro: calls_only_trans)
qed (simp add: calls_only_refl)

end
