(* ===== verification/F4_Server.thy ===== *)
theory F4_Server
  imports F4_Names F4_ServerConfig F4_FloatFacts "HOL-Library.Signed_Division"
begin

text \<open>
  \<open>server/src/Server.hpp\<close> and \<open>Server.cpp\<close>: the server's state and its operations on
  connections and packets. A peer of ENet is a number; the players are the code's map from
  peers to players, a container with one fixed iteration order. What the server asks of
  ENet is the list of effects, oldest first. \<open>steady_clock\<close> is the sequence of the values
  its successive readings give (nanoseconds), and every reading takes the next one. Logging
  and the printed address of a peer are not modelled.
\<close>

definition CHAT_WINDOW :: int where "CHAT_WINDOW = 5 * 10 ^ 9"
definition CHAT_BURST :: u32 where "CHAT_BURST = 6"
definition PEER_TIMEOUT_MIN_MS :: u32 where "PEER_TIMEOUT_MIN_MS = 60000"
definition PEER_TIMEOUT_MAX_MS :: u32 where "PEER_TIMEOUT_MAX_MS = 180000"

definition Finite :: "Vec3 \<Rightarrow> bool" where
  "Finite v = (f32_isfinite (vx v) \<and> f32_isfinite (vy v) \<and> f32_isfinite (vz v))"

definition Plausible :: "PlayerState \<Rightarrow> bool" where
  "Plausible st = (Finite (position st) \<and> f32_isfinite (yaw st) \<and> f32_isfinite (health st) \<and>
     f32_isfinite (maxHealth st))"

section \<open>State\<close>

type_synonym peer = nat

record Player =
  p_id :: PlayerId
  p_name :: string
  p_peer :: peer
  p_state :: PlayerState
  p_handshaked :: bool
  p_hasState :: bool
  p_gameVersion :: u32
  p_joinedAt :: int
  p_chatWindowStart :: int
  p_chatWindowCount :: u32

definition Player_new :: "peer \<Rightarrow> Player" where
  "Player_new a_peer =
     \<lparr>p_id = INVALID_PLAYER_ID, p_name = [], p_peer = a_peer, p_state = PlayerState_default,
      p_handshaked = False, p_hasState = False, p_gameVersion = 0, p_joinedAt = 0,
      p_chatWindowStart = 0, p_chatWindowCount = 0\<rparr>"

datatype Mode = kMirror | kOrbit

record Bot =
  b_id :: PlayerId
  b_name :: string
  b_mode :: Mode
  b_follow :: PlayerId
  b_hasState :: bool
  b_state :: PlayerState
  b_phase :: f32

text \<open>The calls into ENet that change something.\<close>

datatype effect =
    ENetInitialize
  | ENetDeinitialize
  | ENetHostCreate u16 u32 nat
  | ENetHostDestroy
  | ENetHostService u32
  | ENetHostFlush
  | ENetPeerTimeout peer u32 u32 u32
  | ENetPeerSend peer u8 bool "u8 list"
  | ENetPeerDisconnectLater peer
  | ENetPeerDisconnectNow peer
  | ENetPacketDestroy

record Server =
  config :: Config
  host :: bool
  players :: "(peer \<times> Player) list"
  bots :: "Bot list"
  lastBotUpdate :: int
  startTime :: int
  nextId :: PlayerId
  clock :: "nat \<Rightarrow> int"
  readings :: nat
  out :: "effect list"

text \<open>\<open>steady_clock::now()\<close>.\<close>

definition now :: "Server \<Rightarrow> int \<times> Server" where
  "now s = (clock s (readings s), s\<lparr>readings := Suc (readings s)\<rparr>)"

definition emit :: "effect \<Rightarrow> Server \<Rightarrow> Server" where
  "emit e s = s\<lparr>out := out s @ [e]\<rparr>"

definition put_player :: "Player \<Rightarrow> Server \<Rightarrow> Server" where
  "put_player p s = s\<lparr>players := AList.update (p_peer p) p (players s)\<rparr>"

definition Server_new :: "Config \<Rightarrow> (nat \<Rightarrow> int) \<Rightarrow> Server" where
  "Server_new cfg clk =
     (let (t, s) = now \<lparr>config = cfg, host = False, players = [], bots = [], lastBotUpdate = 0,
                        startTime = 0, nextId = 1, clock = clk, readings = 0, out = []\<rparr>
      in s\<lparr>startTime := t\<rparr>)"

text \<open>\<open>Start\<close>: ENet's two calls succeed or fail.\<close>

definition Start :: "bool \<Rightarrow> bool \<Rightarrow> Server \<Rightarrow> bool \<times> Server" where
  "Start initialized created s =
     (let s = emit ENetInitialize s
      in if \<not> initialized then (False, s)
         else let s = emit (ENetHostCreate (cfg_port (config s)) (cfg_maxPlayers (config s)) (unat (channel_number kCount))) s
              in if \<not> created then (False, emit ENetDeinitialize (s\<lparr>host := False\<rparr>))
                 else (True, s\<lparr>host := True\<rparr>))"

definition Stop :: "Server \<Rightarrow> Server" where
  "Stop s =
     (if \<not> host s then s
      else let s = fold (\<lambda>(k, _). emit (ENetPeerDisconnectNow k)) (players s) s;
               s = emit ENetHostDestroy (s\<lparr>players := []\<rparr>)
           in emit ENetDeinitialize (s\<lparr>host := False\<rparr>))"

section \<open>Sending\<close>

text \<open>\<open>enet_packet_create\<close> only fails without memory, which is not modelled.\<close>

definition Send :: "peer \<Rightarrow> Channel \<Rightarrow> u8 list \<Rightarrow> Server \<Rightarrow> Server" where
  "Send a_peer a_channel bytes =
     emit (ENetPeerSend a_peer (channel_number a_channel) (a_channel = kReliable) bytes)"

definition Broadcast :: "Channel \<Rightarrow> u8 list \<Rightarrow> peer option \<Rightarrow> Server \<Rightarrow> Server" where
  "Broadcast a_channel bytes a_except s =
     fold (\<lambda>(k, p) s. if \<not> p_handshaked p \<or> Some k = a_except then s else Send k a_channel bytes s)
       (players s) s"

definition ServerChat :: "string \<Rightarrow> Server \<Rightarrow> Server" where
  "ServerChat text =
     Broadcast kReliable (Encode kChatBroadcast ChatBroadcastMsg_Write \<lparr>cb_from = SERVER_ID, cb_text = text\<rparr>) None"

definition Kick :: "Player \<Rightarrow> string \<Rightarrow> Server \<Rightarrow> Server" where
  "Kick p reason s =
     (let s = Send (p_peer p) kReliable (Encode kReject RejectMsg_Write \<lparr>reject_reason = reason\<rparr>) s;
          s = emit ENetHostFlush s
      in emit (ENetPeerDisconnectLater (p_peer p)) s)"

section \<open>Lookup\<close>

definition FindPlayer :: "peer \<Rightarrow> Server \<Rightarrow> Player option" where
  "FindPlayer a_peer s = map_of (players s) a_peer"

definition FindPlayer_id :: "PlayerId \<Rightarrow> Server \<Rightarrow> Player option" where
  "FindPlayer_id i s =
     map_option snd (List.find (\<lambda>(k, p). p_handshaked p \<and> p_id p = i) (players s))"

definition FirstPlayerWithState :: "Server \<Rightarrow> Player option" where
  "FirstPlayerWithState s =
     fold (\<lambda>(k, p) best.
         if p_handshaked p \<and> p_hasState p \<and> (case best of None \<Rightarrow> True | Some b \<Rightarrow> p_id p < p_id b)
         then Some p else best)
       (players s) None"

text \<open>Milliseconds since the start, in 32 bits; the division of a duration truncates.\<close>

definition NowMs :: "Server \<Rightarrow> u32 \<times> Server" where
  "NowMs s = (let (t, s') = now s in (word_of_int ((t - startTime s) sdiv 1000000), s'))"

section \<open>Message handlers\<close>

text \<open>What a newcomer is told about one other participant, real or a bot.\<close>

definition Introduce :: "peer \<Rightarrow> PlayerId \<Rightarrow> string \<Rightarrow> bool \<Rightarrow> PlayerState \<Rightarrow> Server \<Rightarrow> Server" where
  "Introduce a_peer i name has st s =
     (let s = Send a_peer kReliable (Encode kPlayerJoined PlayerJoinedMsg_Write \<lparr>joined_id = i, joined_name = name\<rparr>) s
      in if has
         then let (t, s) = NowMs s
              in Send a_peer kReliable
                   (Encode kPlayerStateUpdate PlayerStateUpdateMsg_Write \<lparr>psu_id = i, psu_timeMs = t, psu_state = st\<rparr>) s
         else s)"

definition HandleHello :: "Player \<Rightarrow> Reader \<Rightarrow> Server \<Rightarrow> Server" where
  "HandleHello p r s =
     (let ((hello, success), _) = run_state HelloMsg_Read r
      in if \<not> success then Kick p ''Malformed hello'' s
         else if hello_protocolVersion hello \<noteq> PROTOCOL_VERSION
         then Kick p (''Protocol mismatch (server v'' @ to_string (unat PROTOCOL_VERSION) @ '', client v'' @
                      to_string (unat (hello_protocolVersion hello)) @ '')'') s
         else if p_handshaked p then s
         else
           let p = p\<lparr>p_id := nextId s\<rparr>;
               s = s\<lparr>nextId := nextId s + 1\<rparr>;
               p = p\<lparr>p_name := SanitizeName (hello_name hello), p_gameVersion := hello_gameVersion hello,
                     p_handshaked := True\<rparr>;
               s = put_player p s;
               welcome = \<lparr>welcome_id = p_id p, welcome_tickRate = ucast (min (cfg_tickRate (config s)) 255),
                          welcome_serverName = cfg_name (config s), welcome_motd = cfg_motd (config s)\<rparr>;
               s = Send (p_peer p) kReliable (Encode kWelcome WelcomeMsg_Write welcome) s;
               s = fold (\<lambda>(k, other) s.
                          if \<not> p_handshaked other \<or> k = p_peer p then s
                          else Introduce (p_peer p) (p_id other) (p_name other) (p_hasState other) (p_state other) s)
                     (players s) s;
               s = fold (\<lambda>bot s. Introduce (p_peer p) (b_id bot) (b_name bot) (b_hasState bot) (b_state bot) s)
                     (bots s) s;
               s = Broadcast kReliable
                     (Encode kPlayerJoined PlayerJoinedMsg_Write \<lparr>joined_id = p_id p, joined_name = p_name p\<rparr>)
                     (Some (p_peer p)) s
           in ServerChat (p_name p @ '' joined the game'') s)"

definition HandlePlayerState :: "Player \<Rightarrow> Reader \<Rightarrow> Server \<Rightarrow> Server" where
  "HandlePlayerState p r s =
     (let ((msg, success), _) = run_state PlayerStateMsg_Read r
      in if \<not> success \<or> \<not> Plausible (psm_state msg) then s
         else
           let p = p\<lparr>p_state := psm_state msg, p_hasState := True\<rparr>;
               s = put_player p s;
               (t, s) = NowMs s
           in Broadcast kUnreliable
                (Encode kPlayerStateUpdate PlayerStateUpdateMsg_Write
                   \<lparr>psu_id = p_id p, psu_timeMs = t, psu_state = p_state p\<rparr>)
                (Some (p_peer p)) s)"

definition chat_control :: "char \<Rightarrow> bool" where
  "chat_control c = (let uc = (of_char c :: nat) in uc < 0x20 \<or> uc = 0x7F)"

definition HandleChat :: "Player \<Rightarrow> Reader \<Rightarrow> Server \<Rightarrow> Server" where
  "HandleChat p r s =
     (let ((msg, success), _) = run_state ChatMsg_Read r
      in if \<not> success \<or> chat_text msg = [] then s
         else
           let (t, s) = now s;
               p = (if CHAT_WINDOW \<le> t - p_chatWindowStart p
                    then p\<lparr>p_chatWindowStart := t, p_chatWindowCount := 0\<rparr> else p);
               p = p\<lparr>p_chatWindowCount := p_chatWindowCount p + 1\<rparr>;
               s = put_player p s
           in if CHAT_BURST < p_chatWindowCount p
              then (if p_chatWindowCount p = CHAT_BURST + 1
                    then Send (p_peer p) kReliable
                           (Encode kChatBroadcast ChatBroadcastMsg_Write \<lparr>cb_from = SERVER_ID, cb_text = ''Slow down.''\<rparr>) s
                    else s)
              else
                let text = (if MAX_CHAT_BYTES < length (chat_text msg) then take MAX_CHAT_BYTES (chat_text msg)
                            else chat_text msg);
                    text = filter (\<lambda>c. \<not> chat_control c) text
                in if text = [] then s
                   else Broadcast kReliable
                          (Encode kChatBroadcast ChatBroadcastMsg_Write \<lparr>cb_from = p_id p, cb_text = text\<rparr>) None s)"

definition HandleSetName :: "Player \<Rightarrow> Reader \<Rightarrow> Server \<Rightarrow> Server" where
  "HandleSetName p r s =
     (let ((msg, success), _) = run_state SetNameMsg_Read r
      in if \<not> success then s
         else
           let name = SanitizeName (setname_name msg)
           in if name = p_name p then s
              else
                let p = p\<lparr>p_name := name\<rparr>;
                    s = put_player p s
                in Broadcast kReliable
                     (Encode kPlayerRenamed PlayerRenamedMsg_Write \<lparr>renamed_id = p_id p, renamed_name = p_name p\<rparr>)
                     None s)"

section \<open>Connections and packets\<close>

text \<open>\<open>emplace\<close> does not replace a player that is already there.\<close>

definition HandleConnect :: "peer \<Rightarrow> Server \<Rightarrow> Server" where
  "HandleConnect a_peer s =
     (let (t, s) = now s;
          p = (Player_new a_peer)\<lparr>p_joinedAt := t\<rparr>;
          s = emit (ENetPeerTimeout a_peer 0 PEER_TIMEOUT_MIN_MS PEER_TIMEOUT_MAX_MS) s
      in if map_of (players s) a_peer = None then put_player p s else s)"

definition HandleDisconnect :: "peer \<Rightarrow> Server \<Rightarrow> Server" where
  "HandleDisconnect a_peer s =
     (case map_of (players s) a_peer of
        None \<Rightarrow> s
      | Some p \<Rightarrow>
          let s = s\<lparr>players := AList.delete a_peer (players s)\<rparr>
          in if p_handshaked p
             then ServerChat (p_name p @ '' left the game'')
                    (Broadcast kReliable (Encode kPlayerLeft PlayerLeftMsg_Write \<lparr>left_id = p_id p\<rparr>) None s)
             else s)"

definition HandlePacket :: "peer \<Rightarrow> u8 list \<Rightarrow> Server \<Rightarrow> Server" where
  "HandlePacket a_peer bytes s =
     (case FindPlayer a_peer s of
        None \<Rightarrow> s
      | Some p \<Rightarrow>
          let ((i, success), r) = run_state ReadHeader (Reader_new bytes)
          in if \<not> success then s
             else if \<not> p_handshaked p \<and> i \<noteq> kHello then Kick p ''Expected handshake'' s
             else if i = kHello then HandleHello p r s
             else if i = kPlayerState then HandlePlayerState p r s
             else if i = kChat then HandleChat p r s
             else if i = kSetName then HandleSetName p r s
             else s)"

end
