(* ===== verification/F4_Bots.thy ===== *)
theory F4_Bots
  imports F4_Server F4_Interp
begin

text \<open>
  The bots of \<open>server/src/Server.cpp\<close>: adding, removing and driving them. \<open>std::cos\<close> and
  \<open>std::sin\<close> of a \<open>float\<close> are parameters: the standard leaves their accuracy open, and
  the code relies only on values of magnitude at most 1.
\<close>

definition BOT_UPDATE_INTERVAL :: int where "BOT_UPDATE_INTERVAL = 50 * 10 ^ 6"
definition BOT_MIRROR_OFFSET :: f32 where "BOT_MIRROR_OFFSET = f32_lit 200 1"
definition BOT_ORBIT_RADIUS :: f32 where "BOT_ORBIT_RADIUS = f32_lit 250 1"
definition BOT_ORBIT_SPEED :: f32 where "BOT_ORBIT_SPEED = f32_lit 6 10"

section \<open>Adding and removing\<close>

definition AddBot :: "Mode \<Rightarrow> string \<Rightarrow> Server \<Rightarrow> PlayerId \<times> Server" where
  "AddBot mode a_name s =
     (let i = nextId s;
          s = s\<lparr>nextId := nextId s + 1\<rparr>;
          bt = \<lparr>b_id = i,
                 b_name = SanitizeName (if a_name = [] then ''Bot'' @ to_string (unat i) else a_name),
                 b_mode = mode, b_follow = INVALID_PLAYER_ID, b_hasState = False,
                 b_state = PlayerState_default, b_phase = 0\<rparr>;
          s = s\<lparr>bots := bots s @ [bt]\<rparr>;
          s = Broadcast kReliable
                (Encode kPlayerJoined PlayerJoinedMsg_Write \<lparr>joined_id = b_id bt, joined_name = b_name bt\<rparr>) None s;
          s = ServerChat (b_name bt @ '' joined the game'') s
      in (b_id bt, s))"

definition RemoveBot :: "PlayerId \<Rightarrow> Server \<Rightarrow> bool \<times> Server" where
  "RemoveBot i s =
     (case List.extract (\<lambda>b. b_id b = i) (bots s) of
        None \<Rightarrow> (False, s)
      | Some (before, bt, behind) \<Rightarrow>
          let s = Broadcast kReliable (Encode kPlayerLeft PlayerLeftMsg_Write \<lparr>left_id = b_id bt\<rparr>) None s;
              s = ServerChat (b_name bt @ '' left the game'') s
          in (True, s\<lparr>bots := before @ behind\<rparr>))"

section \<open>Driving\<close>

text \<open>\<open>std::chrono::duration<float>\<close> of a count of milliseconds.\<close>

definition seconds_of_ms :: "int \<Rightarrow> f32" where
  "seconds_of_ms t = f32_div (f32_of_int t) (f32_of_int 1000)"

text \<open>The followed player, if there is one with a state.\<close>

definition bot_target :: "Bot \<Rightarrow> Server \<Rightarrow> Player option \<times> Bot" where
  "bot_target bt s =
     (case FindPlayer_id (b_follow bt) s of
        Some p \<Rightarrow>
          if p_hasState p then (Some p, bt)
          else (case FirstPlayerWithState s of
                  Some q \<Rightarrow> (Some q, bt\<lparr>b_follow := p_id q\<rparr>)
                | None \<Rightarrow> (None, bt\<lparr>b_follow := INVALID_PLAYER_ID\<rparr>))
      | None \<Rightarrow>
          (case FirstPlayerWithState s of
             Some q \<Rightarrow> (Some q, bt\<lparr>b_follow := p_id q\<rparr>)
           | None \<Rightarrow> (None, bt\<lparr>b_follow := INVALID_PLAYER_ID\<rparr>)))"

definition bot_pose :: "(f32 \<Rightarrow> f32) \<Rightarrow> (f32 \<Rightarrow> f32) \<Rightarrow> f32 \<Rightarrow> PlayerState \<Rightarrow> Bot \<Rightarrow> PlayerState \<times> Bot" where
  "bot_pose cosf sinf dt st bt =
     (case b_mode bt of
        kMirror \<Rightarrow>
          (st\<lparr>position := (position st)\<lparr>vx := f32_add (vx (position st)) BOT_MIRROR_OFFSET\<rparr>\<rparr>, bt)
      | kOrbit \<Rightarrow>
          let bt = bt\<lparr>b_phase := f32_fmod (f32_add (b_phase bt) (f32_mul BOT_ORBIT_SPEED dt)) twoPi\<rparr>;
              st = st\<lparr>position := (position st)\<lparr>vx := f32_add (vx (position st)) (f32_mul BOT_ORBIT_RADIUS (cosf (b_phase bt)))\<rparr>\<rparr>;
              st = st\<lparr>position := (position st)\<lparr>vy := f32_add (vy (position st)) (f32_mul BOT_ORBIT_RADIUS (sinf (b_phase bt)))\<rparr>\<rparr>
          in (st\<lparr>yaw := f32_fmod (f32_sub twoPi (b_phase bt)) twoPi\<rparr>, bt))"

definition UpdateBot :: "(f32 \<Rightarrow> f32) \<Rightarrow> (f32 \<Rightarrow> f32) \<Rightarrow> f32 \<Rightarrow> Bot \<Rightarrow> Server \<Rightarrow> Bot \<times> Server" where
  "UpdateBot cosf sinf dt bt s =
     (case bot_target bt s of
        (None, bt) \<Rightarrow> (bt\<lparr>b_hasState := False\<rparr>, s)
      | (Some p, bt) \<Rightarrow>
          let (st, bt) = bot_pose cosf sinf dt (p_state p) bt;
              bt = bt\<lparr>b_state := st, b_hasState := True\<rparr>;
              (t, s) = NowMs s
          in (bt, Broadcast kUnreliable
                (Encode kPlayerStateUpdate PlayerStateUpdateMsg_Write
                   \<lparr>psu_id = b_id bt, psu_timeMs = t, psu_state = b_state bt\<rparr>) None s))"

text \<open>The loop mutates the bots in place, first to last.\<close>

primrec UpdateBots_loop ::
  "(f32 \<Rightarrow> f32) \<Rightarrow> (f32 \<Rightarrow> f32) \<Rightarrow> f32 \<Rightarrow> Bot list \<Rightarrow> Server \<Rightarrow> Bot list \<times> Server" where
  "UpdateBots_loop cosf sinf dt [] s = ([], s)"
| "UpdateBots_loop cosf sinf dt (b # bs) s =
     (let (b, s) = UpdateBot cosf sinf dt b s;
          (bs, s) = UpdateBots_loop cosf sinf dt bs s
      in (b # bs, s))"

definition UpdateBots :: "(f32 \<Rightarrow> f32) \<Rightarrow> (f32 \<Rightarrow> f32) \<Rightarrow> Server \<Rightarrow> Server" where
  "UpdateBots cosf sinf s =
     (if bots s = [] then s
      else
        let (t, s) = now s
        in if t - lastBotUpdate s < BOT_UPDATE_INTERVAL then s
           else
             let dt = seconds_of_ns (t - lastBotUpdate s);
                 dt = (if f32_lt (f32_lit 1 4) dt then seconds_of_ms 50 else dt);
                 s = s\<lparr>lastBotUpdate := t\<rparr>;
                 (bs, s) = UpdateBots_loop cosf sinf dt (bots s) s
             in s\<lparr>bots := bs\<rparr>)"

end
