(* ===== verification/F4_ServerConsole.thy ===== *)
theory F4_ServerConsole
  imports F4_Bots F4_Parse
begin

text \<open>
  The server's console: \<open>server/src/Console.cpp\<close>, the queue between the reader thread and
  the main loop, and \<open>Server::ExecuteCommand\<close>. What a command writes to the log is
  in \<open>F4_ServerLog\<close>.
  \<open>ulong\<close> is the number of bits of \<open>unsigned long\<close>, the type \<open>std::stoul\<close> returns.
\<close>

section \<open>Commands\<close>

text \<open>Extraction by \<open>>>\<close>: the maximal runs of characters that are not white space.\<close>

function Split :: "string \<Rightarrow> string list" where
  "Split line =
     (let rest = dropWhile isspace line
      in if rest = [] then []
         else takeWhile (\<lambda>c. \<not> isspace c) rest # Split (dropWhile (\<lambda>c. \<not> isspace c) rest))"
  by pat_completeness auto
termination
proof (relation "measure length")
  fix line x assume x: "x = dropWhile isspace line" and ne: "x \<noteq> []"
  have "\<not> isspace (hd x)" using x ne hd_dropWhile by blast
  then have "dropWhile (\<lambda>c. \<not> isspace c) x = dropWhile (\<lambda>c. \<not> isspace c) (tl x)"
    using ne by (cases x) simp_all
  also have "length \<dots> \<le> length (tl x)" by (rule length_dropWhile_le)
  also have "\<dots> < length x" using ne by simp
  also have "length x \<le> length line" unfolding x by (rule length_dropWhile_le)
  finally show "(dropWhile (\<lambda>c. \<not> isspace c) x, line) \<in> measure length" by simp
qed simp

declare Split.simps [simp del]

text \<open>\<open>while (!_bots.empty()) RemoveBot(_bots.back().id)\<close>: each pass removes a bot.\<close>

lemma RemoveBot_back: "bots s \<noteq> [] \<Longrightarrow> length (bots (snd (RemoveBot (b_id (last (bots s))) s))) < length (bots s)"
proof -
  assume ne: "bots s \<noteq> []"
  then have "List.extract (\<lambda>b. b_id b = b_id (last (bots s))) (bots s) \<noteq> None"
    unfolding extract_None_iff using last_in_set by blast
  then obtain xs b ys where e: "List.extract (\<lambda>b. b_id b = b_id (last (bots s))) (bots s) = Some (xs, b, ys)"
    by (metis not_None_eq prod_cases3)
  then have "bots s = xs @ b # ys" by (simp add: extract_Some_iff)
  then have "length (xs @ ys) < length (bots s)" by simp
  then show ?thesis by (simp add: RemoveBot_def e Let_def)
qed

function RemoveAllBots :: "Server \<Rightarrow> Server" where
  "RemoveAllBots s =
     (if bots s = [] then s else RemoveAllBots (snd (RemoveBot (b_id (last (bots s))) s)))"
  by pat_completeness auto
termination
  by (relation "measure (\<lambda>s. length (bots s))") (simp_all only: RemoveBot_back in_measure wf_measure not_False_eq_True)

declare RemoveAllBots.simps [simp del]

text \<open>The words of a bot's name, joined by blanks.\<close>

definition join_words :: "string list \<Rightarrow> string" where
  "join_words ws = fold (\<lambda>w name. name @ (if name = [] then [] else '' '') @ w) ws []"

text \<open>\<open>find\<close> of a non-empty word in a text, as the number of characters before it.\<close>

primrec find_sub :: "string \<Rightarrow> string \<Rightarrow> nat option" where
  "find_sub w [] = (if w = [] then Some 0 else None)"
| "find_sub w (c # cs) =
     (if take (length w) (c # cs) = w then Some 0 else map_option Suc (find_sub w cs))"

definition ExecuteBot :: "nat \<Rightarrow> string list \<Rightarrow> Server \<Rightarrow> Server" where
  "ExecuteBot ulong args s =
     (let sub = (if 1 < length args then args ! 1 else [])
      in if sub = ''add'' then
           let named = (2 < length args \<and> (args ! 2 = ''mirror'' \<or> args ! 2 = ''orbit''));
               mode = (if named then (if args ! 2 = ''orbit'' then kOrbit else kMirror) else kMirror);
               nameStart = (if named then 3 else 2)
           in snd (AddBot mode (join_words (drop nameStart args)) s)
         else if sub = ''remove'' \<and> 2 < length args then
           (if args ! 2 = ''all'' then RemoveAllBots s
            else case stoul ulong 10 (args ! 2) of
                   None \<Rightarrow> s
                 | Some i \<Rightarrow> snd (RemoveBot (word_of_nat i) s))
         else s)"

definition ExecuteKick :: "nat \<Rightarrow> string \<Rightarrow> string list \<Rightarrow> Server \<Rightarrow> Server" where
  "ExecuteKick ulong line args s =
     (if length args < 2 then s
      else case stoul ulong 10 (args ! 1) of
             None \<Rightarrow> s
           | Some n \<Rightarrow>
               let i = word_of_nat n; (removed, s) = RemoveBot i s
               in if removed then s
                  else case FindPlayer_id i s of
                         None \<Rightarrow> s
                       | Some p \<Rightarrow>
                           let reason = (if 2 < length args
                                 then drop (the (find_sub (args ! 1) line) + length (args ! 1) + 1) line
                                 else ''Kicked by server'')
                           in Kick p reason s)"

definition ExecuteCommand :: "nat \<Rightarrow> string \<Rightarrow> Server \<Rightarrow> Server" where
  "ExecuteCommand ulong line s =
     (let args = Split line
      in if args = [] then s
         else let cmd = hd args
              in if cmd = ''help'' then s
                 else if cmd = ''list'' then s
                 else if cmd = ''bot'' then ExecuteBot ulong args s
                 else if cmd = ''say'' then
                   (if CHR '' '' \<in> set line
                    then ServerChat (drop 1 (dropWhile (\<lambda>c. c \<noteq> CHR '' '') line)) s
                    else s)
                 else if cmd = ''kick'' then ExecuteKick ulong line args s
                 else s)"

section \<open>The queue\<close>

text \<open>The lines the reader thread has handed over, oldest first.\<close>

type_synonym Console = "string list"

definition TryPop :: "Console \<Rightarrow> string option \<times> Console" where
  "TryPop lines = (case lines of [] \<Rightarrow> (None, []) | l # ls \<Rightarrow> (Some l, ls))"

definition ReadLoop_line :: "string \<Rightarrow> Console \<Rightarrow> Console" where
  "ReadLoop_line line lines =
     (let line = (if line \<noteq> [] \<and> last line = char_of (13 :: nat) then butlast line else line)
      in lines @ [line])"

end
