(* ===== verification/F4_ServerFacts.thy ===== *)
theory F4_ServerFacts
  imports F4_ServerConsole
begin

text \<open>
  What the server's primitives do, as rules: they append effects and leave the rest of the
  state alone. The second part is the inbox of a peer, the reliable messages addressed to
  it in order, and how each primitive extends it.
\<close>

section \<open>Effects are appended\<close>

definition emits :: "effect list \<Rightarrow> Server \<Rightarrow> Server" where
  "emits es s = s\<lparr>out := out s @ es\<rparr>"

lemma emits_fields [frame_simps, simp]:
  "config (emits es s) = config s" "host (emits es s) = host s" "players (emits es s) = players s"
  "bots (emits es s) = bots s" "lastBotUpdate (emits es s) = lastBotUpdate s"
  "startTime (emits es s) = startTime s" "nextId (emits es s) = nextId s"
  "clock (emits es s) = clock s" "readings (emits es s) = readings s" "out (emits es s) = out s @ es"
  by (simp_all add: emits_def)

lemma emits_emits [simp]: "emits es (emits ds s) = emits (ds @ es) s"
  by (simp add: emits_def)

lemma emits_Nil [simp]: "emits [] s = s"
  by (simp add: emits_def)

lemma emit_emits: "emit e = emits [e]"
  by (simp add: fun_eq_iff emit_def emits_def)

definition send_effect :: "Channel \<Rightarrow> u8 list \<Rightarrow> peer \<Rightarrow> effect" where
  "send_effect ch bytes k = ENetPeerSend k (channel_number ch) (ch = kReliable) bytes"

lemma Send_emits: "Send k ch bytes s = emits [send_effect ch bytes k] s"
  by (simp add: Send_def emit_emits send_effect_def)

text \<open>The peers a broadcast reaches.\<close>

definition audience :: "peer option \<Rightarrow> (peer \<times> Player) list \<Rightarrow> peer list" where
  "audience ex ps = map fst (filter (\<lambda>(k, p). p_handshaked p \<and> Some k \<noteq> ex) ps)"

lemma fold_emits: "(\<And>x s. f x s = emits (g x) s) \<Longrightarrow> fold f xs s = emits (concat (map g xs)) s"
  by (induction xs arbitrary: s) simp_all

lemma audience_concat:
  "concat (map (\<lambda>e. map (send_effect ch bytes) (audience ex [e])) ps) = map (send_effect ch bytes) (audience ex ps)"
  by (induction ps) (auto simp: audience_def)

lemma Broadcast_emits:
  "Broadcast ch bytes ex s = emits (map (send_effect ch bytes) (audience ex (players s))) s"
proof -
  have "(case e of (k, p) \<Rightarrow> \<lambda>s. if \<not> p_handshaked p \<or> Some k = ex then s else Send k ch bytes s) s =
      emits (map (send_effect ch bytes) (audience ex [e])) s" for e s
    by (auto simp: audience_def Send_emits split: prod.split)
  then have "Broadcast ch bytes ex s =
      emits (concat (map (\<lambda>e. map (send_effect ch bytes) (audience ex [e])) (players s))) s"
    unfolding Broadcast_def by (rule fold_emits)
  then show ?thesis by (simp only: audience_concat)
qed

lemma set_audience: "k \<in> set (audience ex ps) \<longleftrightarrow> (\<exists>p. (k, p) \<in> set ps \<and> p_handshaked p \<and> Some k \<noteq> ex)"
  by (auto simp: audience_def image_iff)

lemma distinct_audience: "keys_distinct ps \<Longrightarrow> distinct (audience ex ps)"
  unfolding audience_def keys_distinct_def by (rule distinct_map_filter)

definition chat_bytes :: "PlayerId \<Rightarrow> string \<Rightarrow> u8 list" where
  "chat_bytes i text = Encode kChatBroadcast ChatBroadcastMsg_Write \<lparr>cb_from = i, cb_text = text\<rparr>"

definition joined_bytes :: "PlayerId \<Rightarrow> string \<Rightarrow> u8 list" where
  "joined_bytes i name = Encode kPlayerJoined PlayerJoinedMsg_Write \<lparr>joined_id = i, joined_name = name\<rparr>"

definition left_bytes :: "PlayerId \<Rightarrow> u8 list" where
  "left_bytes i = Encode kPlayerLeft PlayerLeftMsg_Write \<lparr>left_id = i\<rparr>"

definition renamed_bytes :: "PlayerId \<Rightarrow> string \<Rightarrow> u8 list" where
  "renamed_bytes i name = Encode kPlayerRenamed PlayerRenamedMsg_Write \<lparr>renamed_id = i, renamed_name = name\<rparr>"

definition update_bytes :: "PlayerId \<Rightarrow> u32 \<Rightarrow> PlayerState \<Rightarrow> u8 list" where
  "update_bytes i t st = Encode kPlayerStateUpdate PlayerStateUpdateMsg_Write \<lparr>psu_id = i, psu_timeMs = t, psu_state = st\<rparr>"

definition reject_bytes :: "string \<Rightarrow> u8 list" where
  "reject_bytes reason = Encode kReject RejectMsg_Write \<lparr>reject_reason = reason\<rparr>"

definition welcome_bytes :: "PlayerId \<Rightarrow> Config \<Rightarrow> u8 list" where
  "welcome_bytes i cfg = Encode kWelcome WelcomeMsg_Write
     \<lparr>welcome_id = i, welcome_tickRate = ucast (min (cfg_tickRate cfg) 255),
      welcome_serverName = cfg_name cfg, welcome_motd = cfg_motd cfg\<rparr>"

lemmas bytes_folds = chat_bytes_def [symmetric] joined_bytes_def [symmetric] left_bytes_def [symmetric]
  renamed_bytes_def [symmetric] update_bytes_def [symmetric] reject_bytes_def [symmetric]

definition said :: "string \<Rightarrow> (peer \<times> Player) list \<Rightarrow> effect list" where
  "said text ps = map (send_effect kReliable (chat_bytes SERVER_ID text)) (audience None ps)"

lemma ServerChat_emits: "ServerChat text s = emits (said text (players s)) s"
  by (simp add: ServerChat_def Broadcast_emits chat_bytes_def said_def)

lemma Kick_emits:
  "Kick p reason s = emits [send_effect kReliable (reject_bytes reason) (p_peer p), ENetHostFlush,
     ENetPeerDisconnectLater (p_peer p)] s"
  by (simp add: Kick_def Send_emits emit_emits reject_bytes_def Let_def)

lemma now_fields [simp]:
  "fst (now s) = clock s (readings s)"
  "snd (now s) = s\<lparr>readings := Suc (readings s)\<rparr>"
  by (simp_all add: now_def)

definition stamp :: "Server \<Rightarrow> u32" where
  "stamp s = word_of_int ((clock s (readings s) - startTime s) sdiv 1000000)"

lemma NowMs_eq: "NowMs s = (stamp s, s\<lparr>readings := Suc (readings s)\<rparr>)"
  by (simp add: NowMs_def now_def stamp_def)

lemma emits_readings [simp]: "emits es (s\<lparr>readings := n\<rparr>) = (emits es s)\<lparr>readings := n\<rparr>"
  by (simp add: emits_def)

text \<open>What one introduction sends, and the reading of the clock it takes.\<close>

definition introduction :: "peer \<Rightarrow> PlayerId \<Rightarrow> string \<Rightarrow> bool \<Rightarrow> PlayerState \<Rightarrow> u32 \<Rightarrow> effect list" where
  "introduction k i name has st t =
     send_effect kReliable (joined_bytes i name) k #
     (if has then [send_effect kReliable (update_bytes i t st) k] else [])"

lemma Introduce_emits:
  "Introduce k i name has st s =
    (emits (introduction k i name has st (stamp s)) s)\<lparr>readings := readings s + (if has then 1 else 0)\<rparr>"
  by (simp add: Introduce_def Send_emits NowMs_eq introduction_def joined_bytes_def update_bytes_def stamp_def Let_def)

section \<open>Inboxes\<close>

text \<open>The bytes handed to ENet for a peer on the reliable channel.\<close>

definition for_peer :: "peer \<Rightarrow> effect \<Rightarrow> u8 list list" where
  "for_peer k e = (case e of ENetPeerSend j ch rel bytes \<Rightarrow> if j = k \<and> rel then [bytes] else [] | _ \<Rightarrow> [])"

definition inbox :: "peer \<Rightarrow> effect list \<Rightarrow> u8 list list" where
  "inbox k es = concat (map (for_peer k) es)"

lemma inbox_append [simp]: "inbox k (es @ ds) = inbox k es @ inbox k ds"
  by (simp add: inbox_def)

lemma inbox_Nil [simp]: "inbox k [] = []"
  by (simp add: inbox_def)

lemma inbox_Cons: "inbox k (e # es) = for_peer k e @ inbox k es"
  by (simp add: inbox_def)

lemma for_peer_send: "for_peer k (send_effect ch bytes j) = (if j = k \<and> ch = kReliable then [bytes] else [])"
  by (simp add: for_peer_def send_effect_def)

lemma inbox_unreliable: "inbox k (map (send_effect kUnreliable bytes) js) = []"
  by (induction js) (simp_all add: inbox_Cons for_peer_send)

lemma inbox_reliable:
  "distinct js \<Longrightarrow> inbox k (map (send_effect kReliable bytes) js) = (if k \<in> set js then [bytes] else [])"
  by (induction js) (auto simp: inbox_Cons for_peer_send)

end
