(* ===== verification/F4_Roster.thy ===== *)
theory F4_Roster
  imports F4_ServerFacts
begin

text \<open>
  The server's contract with its clients. The abstract specification of a session is the
  roster: a client's own id and the names of the others by id, and how a reliable message
  changes it. The server implements it when the messages it has handed to ENet for a peer,
  replayed in order, give exactly the other participants, and every operation keeps this
  together with the invariant of the tables.
\<close>

section \<open>The client's side: replaying messages\<close>

type_synonym roster = "PlayerId \<times> (PlayerId \<rightharpoonup> string)"

definition message_id :: "u8 list \<Rightarrow> MsgId option" where
  "message_id bytes = (let ((i, b), r) = run_state ReadHeader (Reader_new bytes) in if b then Some i else None)"

definition body :: "(Reader, 'a \<times> bool) state \<Rightarrow> u8 list \<Rightarrow> 'a option" where
  "body rd bytes = map_option snd (receive rd bytes)"

definition roster_step :: "u8 list \<Rightarrow> roster \<Rightarrow> roster" where
  "roster_step bytes v =
     (case message_id bytes of
        None \<Rightarrow> v
      | Some i \<Rightarrow>
          if i = kWelcome then
            (case body WelcomeMsg_Read bytes of Some m \<Rightarrow> (welcome_id m, Map.empty) | None \<Rightarrow> v)
          else if i = kPlayerJoined then
            (case body PlayerJoinedMsg_Read bytes of
               Some m \<Rightarrow> if joined_id m \<noteq> fst v then (fst v, (snd v)(joined_id m \<mapsto> joined_name m)) else v
             | None \<Rightarrow> v)
          else if i = kPlayerLeft then
            (case body PlayerLeftMsg_Read bytes of
               Some m \<Rightarrow> (fst v, (snd v)(left_id m := None)) | None \<Rightarrow> v)
          else if i = kPlayerRenamed then
            (case body PlayerRenamedMsg_Read bytes of
               Some m \<Rightarrow> if renamed_id m \<noteq> fst v then (fst v, (snd v)(renamed_id m \<mapsto> renamed_name m)) else v
             | None \<Rightarrow> v)
          else v)"

definition roster_start :: roster where
  "roster_start = (INVALID_PLAYER_ID, Map.empty)"

definition view :: "peer \<Rightarrow> effect list \<Rightarrow> roster" where
  "view k es = fold roster_step (inbox k es) roster_start"

lemma message_id_Cons: "message_id (i # bs) = Some i"
  by (simp add: message_id_def ReadHeader_def run_bind run_return Reader_U8_def run_Raw Reader_new_def
      Reader_get_Ok_def Reader_Ok_def Reader_Remaining_def)

lemmas bytes_id = joined_bytes_def left_bytes_def renamed_bytes_def welcome_bytes_def chat_bytes_def
  reject_bytes_def update_bytes_def
  joined_msg.Encode_image left_msg.Encode_image renamed_msg.Encode_image welcome_msg.Encode_image
  chat_broadcast_msg.Encode_image reject_msg.Encode_image state_update_msg.Encode_image message_id_Cons

lemma message_ids:
  "message_id (joined_bytes i n) = Some kPlayerJoined" "message_id (left_bytes i) = Some kPlayerLeft"
  "message_id (renamed_bytes i n) = Some kPlayerRenamed" "message_id (welcome_bytes i c) = Some kWelcome"
  "message_id (chat_bytes i text) = Some kChatBroadcast" "message_id (reject_bytes text) = Some kReject"
  "message_id (update_bytes i t st) = Some kPlayerStateUpdate"
  by (simp_all add: bytes_id)

lemma bodies:
  "body PlayerJoinedMsg_Read (joined_bytes i n) = Some \<lparr>joined_id = i, joined_name = cut n\<rparr>"
  "body PlayerLeftMsg_Read (left_bytes i) = Some \<lparr>left_id = i\<rparr>"
  "body PlayerRenamedMsg_Read (renamed_bytes i n) = Some \<lparr>renamed_id = i, renamed_name = cut n\<rparr>"
  "body WelcomeMsg_Read (welcome_bytes i c) = Some \<lparr>welcome_id = i,
     welcome_tickRate = ucast (min (cfg_tickRate c) 255), welcome_serverName = cut (cfg_name c), welcome_motd = cut (cfg_motd c)\<rparr>"
  "body ChatBroadcastMsg_Read (chat_bytes i text) = Some \<lparr>cb_from = i, cb_text = cut text\<rparr>"
  "body PlayerStateUpdateMsg_Read (update_bytes i t st) = Some \<lparr>psu_id = i, psu_timeMs = t, psu_state = st\<rparr>"
  "body RejectMsg_Read (reject_bytes text) = Some \<lparr>reject_reason = cut text\<rparr>"
  by (simp_all add: body_def joined_bytes_def left_bytes_def renamed_bytes_def welcome_bytes_def
      chat_bytes_def update_bytes_def reject_bytes_def joined_msg.receive_Encode left_msg.receive_Encode
      renamed_msg.receive_Encode welcome_msg.receive_Encode chat_broadcast_msg.receive_Encode
      state_update_msg.receive_Encode reject_msg.receive_Encode PlayerJoinedMsg_canon_def
      PlayerRenamedMsg_canon_def WelcomeMsg_canon_def ChatBroadcastMsg_canon_def RejectMsg_canon_def)

lemma roster_steps [simp]:
  "roster_step (joined_bytes i n) v = (if i \<noteq> fst v then (fst v, (snd v)(i \<mapsto> cut n)) else v)"
  "roster_step (left_bytes i) v = (fst v, (snd v)(i := None))"
  "roster_step (renamed_bytes i n) v = (if i \<noteq> fst v then (fst v, (snd v)(i \<mapsto> cut n)) else v)"
  "roster_step (welcome_bytes i c) v = (i, Map.empty)"
  "roster_step (chat_bytes i text) v = v"
  "roster_step (reject_bytes text) v = v"
  "roster_step (update_bytes i t st) v = v"
  unfolding roster_step_def message_ids by (simp_all add: bodies server_msg_ids)

lemma view_append: "view k (es @ ds) = fold roster_step (inbox k ds) (view k es)"
  by (simp add: view_def)

section \<open>The server's side: tables\<close>

definition player_ok :: "PlayerId \<Rightarrow> Player \<Rightarrow> bool" where
  "player_ok next p =
     ((p_handshaked p \<longrightarrow> 0 < p_id p \<and> p_id p < next \<and> sane_name (p_name p)) \<and>
      (p_hasState p \<longrightarrow> p_handshaked p \<and> Plausible (p_state p)))"

definition bot_ok :: "PlayerId \<Rightarrow> Bot \<Rightarrow> bool" where
  "bot_ok next b = (0 < b_id b \<and> b_id b < next \<and> sane_name (b_name b))"

definition srv_inv :: "Server \<Rightarrow> bool" where
  "srv_inv s =
     (keys_distinct (players s) \<and>
      (\<forall>k p. map_of (players s) k = Some p \<longrightarrow> p_peer p = k \<and> player_ok (nextId s) p) \<and>
      (\<forall>k p k' p'. map_of (players s) k = Some p \<longrightarrow> map_of (players s) k' = Some p' \<longrightarrow>
         p_handshaked p \<longrightarrow> p_handshaked p' \<longrightarrow> p_id p = p_id p' \<longrightarrow> k = k') \<and>
      distinct (map b_id (bots s)) \<and> (\<forall>b \<in> set (bots s). bot_ok (nextId s) b) \<and>
      (\<forall>k p b. map_of (players s) k = Some p \<longrightarrow> p_handshaked p \<longrightarrow> b \<in> set (bots s) \<longrightarrow> p_id p \<noteq> b_id b) \<and>
      0 < nextId s)"

lemma srv_invI:
  assumes "keys_distinct (players s)"
    and "\<And>k p. map_of (players s) k = Some p \<Longrightarrow> p_peer p = k \<and> player_ok (nextId s) p"
    and "\<And>k p k' p'. map_of (players s) k = Some p \<Longrightarrow> map_of (players s) k' = Some p' \<Longrightarrow>
         p_handshaked p \<Longrightarrow> p_handshaked p' \<Longrightarrow> p_id p = p_id p' \<Longrightarrow> k = k'"
    and "distinct (map b_id (bots s))" and "\<And>b. b \<in> set (bots s) \<Longrightarrow> bot_ok (nextId s) b"
    and "\<And>k p b. map_of (players s) k = Some p \<Longrightarrow> p_handshaked p \<Longrightarrow> b \<in> set (bots s) \<Longrightarrow> p_id p \<noteq> b_id b"
    and "0 < nextId s"
  shows "srv_inv s"
  using assms unfolding srv_inv_def by blast

lemma srv_inv_emits [simp]: "srv_inv (emits es s) = srv_inv s"
  unfolding srv_inv_def by (simp only: emits_fields)

lemma srv_invD:
  assumes "srv_inv s"
  shows "keys_distinct (players s)" and "distinct (map b_id (bots s))" and "0 < nextId s"
    and "map_of (players s) k = Some p \<Longrightarrow> p_peer p = k" and "map_of (players s) k = Some p \<Longrightarrow> player_ok (nextId s) p"
    and "map_of (players s) k = Some p \<Longrightarrow> map_of (players s) k' = Some p' \<Longrightarrow>
         p_handshaked p \<Longrightarrow> p_handshaked p' \<Longrightarrow> p_id p = p_id p' \<Longrightarrow> k = k'"
    and "b \<in> set (bots s) \<Longrightarrow> bot_ok (nextId s) b"
    and "map_of (players s) k = Some p \<Longrightarrow> p_handshaked p \<Longrightarrow> b \<in> set (bots s) \<Longrightarrow> p_id p \<noteq> b_id b"
  using assms unfolding srv_inv_def by blast+

text \<open>Who takes part under which id and name: the handshaked players and the bots.\<close>

definition participant :: "Server \<Rightarrow> PlayerId \<Rightarrow> string \<Rightarrow> bool" where
  "participant s i n =
     ((\<exists>k p. map_of (players s) k = Some p \<and> p_handshaked p \<and> p_id p = i \<and> p_name p = n) \<or>
      (\<exists>b \<in> set (bots s). b_id b = i \<and> b_name b = n))"

lemma participant_player:
  "map_of (players s) k = Some p \<Longrightarrow> p_handshaked p \<Longrightarrow> participant s (p_id p) (p_name p)"
  by (auto simp: participant_def)

lemma participant_bot: "b \<in> set (bots s) \<Longrightarrow> participant s (b_id b) (b_name b)"
  by (auto simp: participant_def)

lemma participant_emits [simp]: "participant (emits es s) i n = participant s i n"
  unfolding participant_def by (simp only: emits_fields)

lemma participantE:
  assumes "participant s i n"
  obtains k p where "map_of (players s) k = Some p" "p_handshaked p" "i = p_id p" "n = p_name p"
  | b where "b \<in> set (bots s)" "i = b_id b" "n = b_name b"
  using assms by (auto simp: participant_def)

definition displays :: "roster \<Rightarrow> Server \<Rightarrow> PlayerId \<Rightarrow> bool" where
  "displays v s i = (fst v = i \<and> (\<forall>j n. snd v j = Some n \<longleftrightarrow> participant s j n \<and> j \<noteq> i))"

definition in_sync :: "Server \<Rightarrow> bool" where
  "in_sync s = (\<forall>k p. map_of (players s) k = Some p \<longrightarrow> p_handshaked p \<longrightarrow>
     displays (view k (out s)) s (p_id p))"

lemma in_syncD:
  "in_sync s \<Longrightarrow> map_of (players s) k = Some p \<Longrightarrow> p_handshaked p \<Longrightarrow> displays (view k (out s)) s (p_id p)"
  by (simp add: in_sync_def)

definition good :: "Server \<Rightarrow> bool" where
  "good s = (srv_inv s \<and> in_sync s)"

section \<open>Broadcasts in the views\<close>

lemma view_broadcast:
  assumes "keys_distinct ps"
  shows "view k (es @ map (send_effect kReliable bytes) (audience ex ps)) =
    (if (\<exists>p. map_of ps k = Some p \<and> p_handshaked p) \<and> Some k \<noteq> ex
     then roster_step bytes (view k es) else view k es)"
proof -
  have "k \<in> set (audience ex ps) \<longleftrightarrow> (\<exists>p. map_of ps k = Some p \<and> p_handshaked p) \<and> Some k \<noteq> ex"
    using assms by (auto simp: set_audience keys_distinct_def)
  then show ?thesis
    using distinct_audience [OF assms, of ex] by (simp only: view_append inbox_reliable) auto
qed

lemma view_unreliable: "view k (es @ map (send_effect kUnreliable bytes) js) = view k es"
  by (simp add: view_append inbox_unreliable)

lemma view_said: "keys_distinct ps \<Longrightarrow> view k (es @ said text ps) = view k es"
  by (simp add: said_def view_broadcast)

lemma view_other: "inbox k [e] = [] \<Longrightarrow> view k (es @ [e]) = view k es"
  by (simp add: view_append)

section \<open>Changes that show nothing\<close>

text \<open>Two players with the same face look the same to every client.\<close>

definition same_face :: "Player \<Rightarrow> Player \<Rightarrow> bool" where
  "same_face p q = (p_peer p = p_peer q \<and> p_id p = p_id q \<and> p_name p = p_name q \<and>
     p_handshaked p = p_handshaked q)"

definition bot_face :: "Bot \<Rightarrow> PlayerId \<times> string" where
  "bot_face b = (b_id b, b_name b)"

lemma same_face_refl [simp]: "same_face p p"
  by (simp add: same_face_def)

text \<open>A step that keeps the faces, leaves the players well-formed and shows no client anything
  the roster depends on keeps the server good.\<close>

lemma good_same_faces:
  assumes g: "good s"
    and keys: "keys_distinct (players s')"
    and faces: "\<And>k. rel_option same_face (map_of (players s) k) (map_of (players s') k)"
    and ok: "\<And>k p. map_of (players s') k = Some p \<Longrightarrow> player_ok (nextId s) p"
    and bts: "map bot_face (bots s') = map bot_face (bots s)"
    and nxt: "nextId s' = nextId s"
    and vw: "\<And>k. view k (out s') = view k (out s)"
  shows "good s'"
proof -
  have bkw: "\<exists>p. map_of (players s) k = Some p \<and> same_face p p'" if "map_of (players s') k = Some p'" for k p'
    using faces [of k] that by (cases "map_of (players s) k") auto
  have fwd: "\<exists>p'. map_of (players s') k = Some p' \<and> same_face p p'" if "map_of (players s) k = Some p" for k p
    using faces [of k] that by (cases "map_of (players s') k") auto
  have ids: "map b_id (bots s') = map b_id (bots s)"
    using arg_cong [OF bts, of "map fst"] by (simp add: bot_face_def comp_def)
  have set_faces: "bot_face ` set (bots s') = bot_face ` set (bots s)"
    using arg_cong [OF bts, of set] by simp
  have bbkw: "\<exists>b \<in> set (bots s). b_id b = b_id b' \<and> b_name b = b_name b'" if "b' \<in> set (bots s')" for b'
  proof -
    have "bot_face b' \<in> bot_face ` set (bots s)" using that set_faces by blast
    then show ?thesis by (auto simp: bot_face_def)
  qed
  have bfwd: "\<exists>b' \<in> set (bots s'). b_id b' = b_id b \<and> b_name b' = b_name b" if "b \<in> set (bots s)" for b
  proof -
    have "bot_face b \<in> bot_face ` set (bots s')" using that set_faces by blast
    then show ?thesis by (auto simp: bot_face_def)
  qed
  have part: "participant s' i n \<longleftrightarrow> participant s i n" for i n
  proof
    assume "participant s' i n"
    then show "participant s i n"
    proof (cases rule: participantE)
      case (1 k p')
      then obtain p where "map_of (players s) k = Some p" "same_face p p'" using bkw by blast
      with 1 show ?thesis using participant_player [of s k p] by (simp add: same_face_def)
    next
      case (2 b')
      then obtain b where "b \<in> set (bots s)" "b_id b = b_id b'" "b_name b = b_name b'" using bbkw by blast
      with 2 show ?thesis using participant_bot [of b s] by simp
    qed
  next
    assume "participant s i n"
    then show "participant s' i n"
    proof (cases rule: participantE)
      case (1 k p)
      then obtain p' where "map_of (players s') k = Some p'" "same_face p p'" using fwd by blast
      with 1 show ?thesis using participant_player [of s' k p'] by (simp add: same_face_def)
    next
      case (2 b)
      then obtain b' where "b' \<in> set (bots s')" "b_id b' = b_id b" "b_name b' = b_name b" using bfwd by blast
      with 2 show ?thesis using participant_bot [of b' s'] by simp
    qed
  qed
  have inv: "srv_inv s" and sync: "in_sync s" using g by (auto simp: good_def)
  note D = srv_invD [OF inv]
  have "srv_inv s'"
  proof (rule srv_invI)
    fix k p assume p: "map_of (players s') k = Some p"
    then obtain q where q: "map_of (players s) k = Some q" "same_face q p" using bkw by blast
    then show "p_peer p = k \<and> player_ok (nextId s') p"
      using ok [OF p] D(4) [OF q(1)] by (simp add: nxt same_face_def)
    fix b assume "p_handshaked p" "b \<in> set (bots s')"
    moreover from this obtain c where "c \<in> set (bots s)" "b_id c = b_id b" using bbkw by blast
    ultimately show "p_id p \<noteq> b_id b" using D(8) [OF q(1), of c] q(2) by (simp add: same_face_def)
  next
    fix k p k' p'
    assume "map_of (players s') k = Some p" "map_of (players s') k' = Some p'"
      and h: "p_handshaked p" "p_handshaked p'" "p_id p = p_id p'"
    then obtain q q' where "map_of (players s) k = Some q" "same_face q p"
      "map_of (players s) k' = Some q'" "same_face q' p'" using bkw by blast
    then show "k = k'" using D(6) [of k q k' q'] h by (simp add: same_face_def)
  next
    fix b assume "b \<in> set (bots s')"
    then obtain c where "c \<in> set (bots s)" "b_id c = b_id b" "b_name c = b_name b" using bbkw by blast
    then show "bot_ok (nextId s') b" using D(7) [of c] by (simp add: bot_ok_def nxt)
  qed (use keys ids D nxt in simp_all)
  moreover have "in_sync s'"
    unfolding in_sync_def
  proof (intro allI impI)
    fix k p assume "map_of (players s') k = Some p" and h: "p_handshaked p"
    then obtain q where q: "map_of (players s) k = Some q" "same_face q p" using bkw by blast
    then have "displays (view k (out s)) s (p_id p)"
      using in_syncD [OF sync q(1)] h by (simp add: same_face_def)
    then show "displays (view k (out s')) s' (p_id p)" by (simp add: displays_def vw part)
  qed
  ultimately show ?thesis by (simp add: good_def)
qed

lemma good_emits:
  "good s \<Longrightarrow> (\<And>k. view k (out s @ es) = view k (out s)) \<Longrightarrow> good (emits es s)"
  by (rule good_same_faces [of s]) (auto simp: good_def srv_inv_def option.rel_refl)

text \<open>Fields the invariant does not speak of.\<close>

lemma good_fields:
  "players s' = players s \<Longrightarrow> bots s' = bots s \<Longrightarrow> nextId s' = nextId s \<Longrightarrow> out s' = out s \<Longrightarrow> good s' = good s"
  unfolding good_def srv_inv_def in_sync_def displays_def participant_def by (simp only:)

lemma good_keys: "good s \<Longrightarrow> keys_distinct (players s)"
  by (simp add: good_def srv_inv_def)

lemma good_player:
  "good s \<Longrightarrow> map_of (players s) k = Some p \<Longrightarrow> p_peer p = k \<and> player_ok (nextId s) p"
  by (simp add: good_def srv_inv_def)

lemma put_player_fields [simp]:
  "bots (put_player p s) = bots s" "nextId (put_player p s) = nextId s" "out (put_player p s) = out s"
  "config (put_player p s) = config s" "host (put_player p s) = host s"
  "map_of (players (put_player p s)) k = (if k = p_peer p then Some p else map_of (players s) k)"
  by (simp_all add: put_player_def alist.look_put)

lemma put_player_keys: "keys_distinct (players s) \<Longrightarrow> keys_distinct (players (put_player p s))"
  by (simp add: put_player_def alist.valid_put)

lemma good_put_same_face:
  assumes "good s" and "map_of (players s) (p_peer p') = Some p" and "same_face p p'"
    and "player_ok (nextId s) p'"
  shows "good (put_player p' s)"
  using assms
  by (intro good_same_faces [OF assms(1)])
    (auto simp: option.rel_refl good_keys put_player_keys dest: good_player split: if_splits)

lemma good_ServerChat: "good s \<Longrightarrow> good (ServerChat text s)"
  by (simp add: ServerChat_emits good_emits view_said good_keys)

lemma good_broadcast_unreliable: "good s \<Longrightarrow> good (Broadcast kUnreliable bytes ex s)"
  by (simp add: Broadcast_emits good_emits view_unreliable)

lemma good_chat_broadcast: "good s \<Longrightarrow> good (Broadcast kReliable (chat_bytes i text) ex s)"
  by (simp add: Broadcast_emits good_emits view_broadcast good_keys)

lemma good_readings [simp]: "good (s\<lparr>readings := n\<rparr>) = good s"
  by (rule good_fields) simp_all

section \<open>The quiet operations\<close>

lemma good_Kick: "good s \<Longrightarrow> good (Kick p reason s)"
  unfolding Kick_emits
  by (rule good_emits) (simp_all add: view_append inbox_Cons for_peer_send, simp add: for_peer_def)

lemma player_okD:
  "good s \<Longrightarrow> map_of (players s) k = Some p \<Longrightarrow> player_ok (nextId s) p"
  by (simp add: good_player)

lemma good_HandlePlayerState:
  assumes g: "good s" and p: "map_of (players s) k = Some p" and h: "p_handshaked p"
  shows "good (HandlePlayerState p r s)"
proof -
  have k: "p_peer p = k" "player_ok (nextId s) p" using good_player [OF g p] by auto
  have "good (put_player (p\<lparr>p_state := st, p_hasState := True\<rparr>) s)" if "Plausible st" for st
    using k h that p by (intro good_put_same_face [OF g, of _ p]) (auto simp: same_face_def player_ok_def)
  then show ?thesis
    using g by (simp add: HandlePlayerState_def Let_def NowMs_eq good_broadcast_unreliable split: prod.split)
qed

lemma good_HandleChat:
  assumes g: "good s" and p: "map_of (players s) k = Some p"
  shows "good (HandleChat p r s)"
proof -
  have k: "p_peer p = k" "player_ok (nextId s) p" using good_player [OF g p] by auto
  have put: "good (put_player (p\<lparr>p_chatWindowStart := t, p_chatWindowCount := c\<rparr>) (s\<lparr>readings := n\<rparr>))" for t c n
    using k p g by (intro good_put_same_face [of _ _ p]) (auto simp: same_face_def player_ok_def)
  have put': "good (put_player (p\<lparr>p_chatWindowCount := c\<rparr>) (s\<lparr>readings := n\<rparr>))" for c n
    using put [where t = "p_chatWindowStart p"] by simp
  have slow: "good (Send k' kReliable (chat_bytes i tx) s')" if "good s'" for s' k' i tx
    unfolding Send_emits using that by (rule good_emits) (simp add: view_append inbox_Cons for_peer_send)
  show ?thesis
    using g put put' by (auto simp: HandleChat_def Let_def bytes_folds now_def slow good_chat_broadcast split: prod.split)
qed

lemma good_HandleConnect:
  assumes g: "good s"
  shows "good (HandleConnect k s)"
proof -
  let ?p = "\<lambda>t. (Player_new k)\<lparr>p_joinedAt := t\<rparr>"
  have new: "good (put_player (?p t) s')" if g: "good s'" and n: "map_of (players s') k = None" for s' t
  proof -
    have nh: "\<not> p_handshaked (?p t)" "\<not> p_hasState (?p t)" "p_peer (?p t) = k" by (simp_all add: Player_new_def)
    have inv: "srv_inv s'" using g by (simp add: good_def)
    note D = srv_invD [OF inv]
    have part: "participant (put_player (?p t) s') i m \<longleftrightarrow> participant s' i m" for i m
      using n nh unfolding participant_def by (intro disj_cong ex_cong1) auto
    have "srv_inv (put_player (?p t) s')"
    proof (rule srv_invI)
      show "keys_distinct (players (put_player (?p t) s'))" using D(1) by (rule put_player_keys)
    qed (use D nh in \<open>auto simp: player_ok_def split: if_splits\<close>)
    moreover have "in_sync (put_player (?p t) s')"
      using g nh by (auto simp: good_def in_sync_def displays_def part split: if_splits)
    ultimately show ?thesis by (simp add: good_def)
  qed
  have e: "good (emits [ENetPeerTimeout k 0 a b] (s\<lparr>readings := n\<rparr>))" for a b n
    using g by (intro good_emits) (simp_all add: view_append inbox_Cons for_peer_def)
  show ?thesis
    using new [OF e] e by (simp add: HandleConnect_def Let_def emit_emits now_def)
qed

section \<open>The operations that change the roster\<close>

text \<open>Everyone the broadcast reaches sees one more message; a line of chat changes nothing.\<close>

lemma in_sync_announce:
  assumes "keys_distinct (players s')" and "players s'' = players s'" and "bots s'' = bots s'"
    and "out s'' = out s' @ map (send_effect kReliable bytes) (audience ex (players s')) @ said tx (players s')"
    and "\<And>k p. map_of (players s') k = Some p \<Longrightarrow> p_handshaked p \<Longrightarrow>
      displays (if Some k \<noteq> ex then roster_step bytes (view k (out s')) else view k (out s')) s' (p_id p)"
  shows "in_sync s''"
  unfolding in_sync_def
proof (intro allI impI)
  fix k p assume p: "map_of (players s'') k = Some p" "p_handshaked p"
  then have r: "(\<exists>p. map_of (players s') k = Some p \<and> p_handshaked p)" by (simp add: assms(2))
  have "view k (out s'') = view k (out s' @ map (send_effect kReliable bytes) (audience ex (players s')))"
    unfolding assms(4) append_assoc [symmetric] by (rule view_said) (rule assms(1))
  also have "\<dots> = (if Some k \<noteq> ex then roster_step bytes (view k (out s')) else view k (out s'))"
    using r by (simp add: view_broadcast [OF assms(1)])
  finally show "displays (view k (out s'')) s'' (p_id p)"
    using assms(5) [of k p] p by (simp add: assms(2,3) displays_def participant_def)
qed

text \<open>The same without chat.\<close>

lemma in_sync_broadcast:
  assumes "keys_distinct (players s')" and "players s'' = players s'" and "bots s'' = bots s'"
    and "out s'' = out s' @ map (send_effect kReliable bytes) (audience ex (players s'))"
    and "\<And>k p. map_of (players s') k = Some p \<Longrightarrow> p_handshaked p \<Longrightarrow>
      displays (if Some k \<noteq> ex then roster_step bytes (view k (out s')) else view k (out s')) s' (p_id p)"
  shows "in_sync s''"
  unfolding in_sync_def
proof (intro allI impI)
  fix k p assume p: "map_of (players s'') k = Some p" "p_handshaked p"
  then have r: "(\<exists>p. map_of (players s') k = Some p \<and> p_handshaked p)" by (simp add: assms(2))
  have "view k (out s'') = (if Some k \<noteq> ex then roster_step bytes (view k (out s')) else view k (out s'))"
    using r by (simp add: view_broadcast [OF assms(1)] assms(4))
  then show "displays (view k (out s'')) s'' (p_id p)"
    using assms(5) [of k p] p by (simp add: assms(2,3) displays_def participant_def)
qed

lemma participant_id:
  assumes "srv_inv s" and "participant s i n"
  shows "0 < i \<and> i < nextId s \<and> sane_name n"
  using assms(2)
proof (cases rule: participantE)
  case (1 k p)
  then show ?thesis using srv_invD(5) [OF assms(1) 1(1)] by (simp add: player_ok_def)
next
  case (2 b)
  then show ?thesis using srv_invD(7) [OF assms(1) 2(1)] by (simp add: bot_ok_def)
qed

lemma participant_put:
  assumes inv: "srv_inv s" and p: "map_of (players s) (p_peer p') = Some p" "p_handshaked p"
    and f: "p_id p' = p_id p" "p_handshaked p'"
  shows "participant (put_player p' s) j n \<longleftrightarrow> (if j = p_id p then n = p_name p' else participant s j n)"
proof
  assume "participant (put_player p' s) j n"
  then show "if j = p_id p then n = p_name p' else participant s j n"
  proof (cases rule: participantE)
    case (1 k q)
    show ?thesis
    proof (cases "k = p_peer p'")
      case True
      then show ?thesis using 1 f by simp
    next
      case False
      then have "map_of (players s) k = Some q" using 1(1) by simp
      then show ?thesis
        using srv_invD(6) [OF inv _ p(1) 1(2) p(2)] False 1 participant_player [of s k q] by auto
    qed
  next
    case (2 b)
    then show ?thesis using srv_invD(8) [OF inv p, of b] participant_bot [of b s] by auto
  qed
next
  assume a: "if j = p_id p then n = p_name p' else participant s j n"
  show "participant (put_player p' s) j n"
  proof (cases "j = p_id p")
    case True
    then show ?thesis using a f participant_player [of "put_player p' s" "p_peer p'" p'] by simp
  next
    case False
    then have "participant s j n" using a by simp
    then show ?thesis
    proof (cases rule: participantE)
      case (1 k q)
      then have "k \<noteq> p_peer p'" using p False by auto
      then show ?thesis using 1 participant_player [of "put_player p' s" k q] by simp
    next
      case (2 b)
      then show ?thesis using participant_bot [of b "put_player p' s"] by simp
    qed
  qed
qed

lemma srv_inv_put:
  assumes inv: "srv_inv s" and p: "map_of (players s) (p_peer p') = Some p"
    and f: "p_handshaked p' \<Longrightarrow> p_handshaked p \<and> p_id p' = p_id p" and ok: "player_ok (nextId s) p'"
  shows "srv_inv (put_player p' s)"
proof (rule srv_invI)
  note D = srv_invD [OF inv]
  show "keys_distinct (players (put_player p' s))" using D(1) by (rule put_player_keys)
  fix k q assume q: "map_of (players (put_player p' s)) k = Some q"
  then show "p_peer q = k \<and> player_ok (nextId (put_player p' s)) q"
    using ok D(4,5) by (auto split: if_splits)
  assume h: "p_handshaked q"
  show "p_id q \<noteq> b_id b" if "b \<in> set (bots (put_player p' s))" for b
    using that q h f D(8) [OF p] D(8) [of k q b] by (auto split: if_splits)
  fix k' q' assume q': "map_of (players (put_player p' s)) k' = Some q'" and h': "p_handshaked q'" "p_id q = p_id q'"
  show "k = k'"
    using q q' h h' f D(6) [OF p, of k' q'] D(6) [OF _ p, of k q] D(6) [of k q k' q']
    by (auto split: if_splits)
qed (use srv_invD [OF inv] in auto)

lemma good_HandleSetName:
  assumes g: "good s" and p: "map_of (players s) k = Some p" and h: "p_handshaked p"
  shows "good (HandleSetName p r s)"
proof -
  have inv: "srv_inv s" and sync: "in_sync s" using g by (auto simp: good_def)
  have k: "p_peer p = k" "player_ok (nextId s) p" using good_player [OF g p] by auto
  have new: "good (Broadcast kReliable (renamed_bytes (p_id p) nm) None (put_player (p\<lparr>p_name := nm\<rparr>) s))"
    if nm: "sane_name nm" for nm
  proof -
    let ?p = "p\<lparr>p_name := nm\<rparr>" let ?s = "put_player ?p s"
    have p': "map_of (players s) (p_peer ?p) = Some p" using p k by simp
    have part: "participant ?s j n \<longleftrightarrow> (if j = p_id p then n = nm else participant s j n)" for j n
      using participant_put [OF inv p'] h by simp
    have inv': "srv_inv ?s"
      using inv p' by (rule srv_inv_put) (use k h nm in \<open>simp_all add: player_ok_def\<close>)
    have "in_sync (Broadcast kReliable (renamed_bytes (p_id p) nm) None ?s)"
    proof (rule in_sync_broadcast [of ?s])
      show "keys_distinct (players ?s)" using inv' by (rule srv_invD)
      fix j q assume q: "map_of (players ?s) j = Some q" "p_handshaked q"
      have "\<exists>q0. map_of (players s) j = Some q0 \<and> p_handshaked q0 \<and> p_id q0 = p_id q"
        using q p h k by (auto split: if_splits)
      then have "displays (view j (out s)) s (p_id q)" using in_syncD [OF sync] by metis
      then show "displays (if Some j \<noteq> None then roster_step (renamed_bytes (p_id p) nm) (view j (out ?s))
          else view j (out ?s)) ?s (p_id q)"
        by (auto simp: displays_def part sane_name_cut [OF nm])
    qed (simp_all add: Broadcast_emits)
    moreover have "srv_inv (Broadcast kReliable (renamed_bytes (p_id p) nm) None ?s)"
      using inv' by (simp add: Broadcast_emits)
    ultimately show ?thesis by (simp add: good_def)
  qed
  show ?thesis
    using g new [OF SanitizeName_sane] by (simp add: HandleSetName_def Let_def bytes_folds split: prod.split)
qed

declare alist.look_drop [simp]

lemma srv_inv_delete: "srv_inv s \<Longrightarrow> srv_inv (s\<lparr>players := AList.delete k (players s)\<rparr>)"
proof (rule srv_invI)
  assume inv: "srv_inv s"
  note D = srv_invD [OF inv]
  show "keys_distinct (players (s\<lparr>players := AList.delete k (players s)\<rparr>))"
    using D(1) by (simp add: alist.valid_drop)
qed (use srv_invD [of s] in \<open>auto split: if_splits\<close>)

lemma participant_delete:
  assumes inv: "srv_inv s" and p: "map_of (players s) k = Some p"
  shows "participant (s\<lparr>players := AList.delete k (players s)\<rparr>) j n \<longleftrightarrow>
    participant s j n \<and> \<not> (p_handshaked p \<and> j = p_id p)"
proof
  assume "participant (s\<lparr>players := AList.delete k (players s)\<rparr>) j n"
  then show "participant s j n \<and> \<not> (p_handshaked p \<and> j = p_id p)"
  proof (cases rule: participantE)
    case (1 l q)
    then have "l \<noteq> k" "map_of (players s) l = Some q" by (auto split: if_splits)
    then show ?thesis
      using 1 srv_invD(6) [OF inv p, of l q] participant_player [of s l q] by auto
  next
    case (2 b)
    then show ?thesis using srv_invD(8) [OF inv p, of b] participant_bot [of b s] by auto
  qed
next
  assume a: "participant s j n \<and> \<not> (p_handshaked p \<and> j = p_id p)"
  then have "participant s j n" by simp
  then show "participant (s\<lparr>players := AList.delete k (players s)\<rparr>) j n"
  proof (cases rule: participantE)
    case (1 l q)
    then have "l \<noteq> k" using a p by auto
    then show ?thesis
      using 1 participant_player [of "s\<lparr>players := AList.delete k (players s)\<rparr>" l q] by simp
  next
    case (2 b)
    then show ?thesis using participant_bot [of b "s\<lparr>players := AList.delete k (players s)\<rparr>"] by simp
  qed
qed

lemma good_HandleDisconnect:
  assumes g: "good s"
  shows "good (HandleDisconnect k s)"
proof (cases "map_of (players s) k")
  case None
  then show ?thesis using g by (simp add: HandleDisconnect_def)
next
  case (Some p)
  let ?s = "s\<lparr>players := AList.delete k (players s)\<rparr>"
  have inv: "srv_inv s" and sync: "in_sync s" using g by (auto simp: good_def)
  have inv': "srv_inv ?s" using inv by (rule srv_inv_delete)
  note part = participant_delete [OF inv Some]
  have old: "displays (view j (out s)) s (p_id q)" if "map_of (players ?s) j = Some q" "p_handshaked q" for j q
    using in_syncD [OF sync, of j q] that by (auto split: if_splits)
  show ?thesis
  proof (cases "p_handshaked p")
    case False
    have "in_sync ?s"
      unfolding in_sync_def using old False by (auto simp: displays_def part)
    then show ?thesis using Some False inv' by (simp add: HandleDisconnect_def Let_def good_def)
  next
    case True
    let ?t = "ServerChat (p_name p @ '' left the game'') (Broadcast kReliable (left_bytes (p_id p)) None ?s)"
    have "in_sync ?t"
    proof (rule in_sync_announce [of ?s _ "left_bytes (p_id p)" None])
      show "keys_distinct (players ?s)" using inv' by (rule srv_invD)
      fix j q assume q: "map_of (players ?s) j = Some q" "p_handshaked q"
      show "displays (if Some j \<noteq> None then roster_step (left_bytes (p_id p)) (view j (out ?s))
          else view j (out ?s)) ?s (p_id q)"
        using old [OF q] True by (auto simp: displays_def part)
    qed (simp_all add: Broadcast_emits ServerChat_emits)
    moreover have "srv_inv ?t" using inv' by (simp add: Broadcast_emits ServerChat_emits)
    ultimately show ?thesis using Some True by (simp add: HandleDisconnect_def Let_def good_def bytes_folds)
  qed
qed

section \<open>Bots in the roster\<close>

definition ids_left :: "Server \<Rightarrow> bool" where
  "ids_left s = (nextId s < INVALID_PLAYER_ID)"

lemma next_id_grows: "ids_left s \<Longrightarrow> nextId s < nextId s + 1"
  by (simp add: ids_left_def INVALID_PLAYER_ID_def word_less_nat_alt unat_word_ariths)

lemma player_ok_mono: "player_ok i p \<Longrightarrow> i \<le> j \<Longrightarrow> player_ok j p"
  by (auto simp: player_ok_def)

lemma bot_ok_mono: "bot_ok i b \<Longrightarrow> i \<le> j \<Longrightarrow> bot_ok j b"
  by (auto simp: bot_ok_def)

lemma srv_inv_next:
  assumes inv: "srv_inv s" and left: "ids_left s"
  shows "srv_inv (s\<lparr>nextId := nextId s + 1\<rparr>)"
proof (rule srv_invI)
  note D = srv_invD [OF inv]
  have m: "nextId s \<le> nextId s + 1" using next_id_grows [OF left] by simp
  show "0 < nextId (s\<lparr>nextId := nextId s + 1\<rparr>)" using D(3) m by auto
  show "p_peer p = k \<and> player_ok (nextId (s\<lparr>nextId := nextId s + 1\<rparr>)) p"
    if "map_of (players (s\<lparr>nextId := nextId s + 1\<rparr>)) k = Some p" for k p
    using that D(4) [of k p] player_ok_mono [OF D(5) m, of k p] by simp
  show "bot_ok (nextId (s\<lparr>nextId := nextId s + 1\<rparr>)) b" if "b \<in> set (bots (s\<lparr>nextId := nextId s + 1\<rparr>))" for b
    using that bot_ok_mono [OF D(7) m, of b] by simp
qed (use srv_invD [OF inv] in auto)

lemma good_AddBot:
  assumes g: "good s" and left: "ids_left s"
  shows "good (snd (AddBot mode nm s))"
proof -
  have inv: "srv_inv s" and sync: "in_sync s" using g by (auto simp: good_def)
  obtain b where b: "b = \<lparr>b_id = nextId s,
      b_name = SanitizeName (if nm = [] then ''Bot'' @ to_string (unat (nextId s)) else nm),
      b_mode = mode, b_follow = INVALID_PLAYER_ID, b_hasState = False, b_state = PlayerState_default, b_phase = 0\<rparr>"
    by blast
  let ?s = "s\<lparr>nextId := nextId s + 1, bots := bots s @ [b]\<rparr>"
  let ?t = "ServerChat (b_name b @ '' joined the game'') (Broadcast kReliable (joined_bytes (b_id b) (b_name b)) None ?s)"
  have t: "snd (AddBot mode nm s) = ?t"
    by (simp add: AddBot_def Let_def bytes_folds b)
  have sane: "sane_name (b_name b)" by (simp add: b SanitizeName_sane)
  have inv1: "srv_inv (s\<lparr>nextId := nextId s + 1\<rparr>)" using inv left by (rule srv_inv_next)
  have fresh: "b_id b \<noteq> i" if "participant s i m" for i m
    using participant_id [OF inv that] by (auto simp: b)
  have inv': "srv_inv ?s"
  proof (rule srv_invI)
    note D = srv_invD [OF inv1, simplified]
    show "distinct (map b_id (bots ?s))"
      using D(2) fresh participant_bot [of _ s] by fastforce
    show "p_id p \<noteq> b_id c" if "map_of (players ?s) k = Some p" "p_handshaked p" "c \<in> set (bots ?s)" for k p c
      using that D(8) [of k p c] fresh [OF participant_player [of s k p]] by auto
    show "bot_ok (nextId ?s) c" if "c \<in> set (bots ?s)" for c
    proof -
      have "bot_ok (nextId s + 1) b"
        using sane srv_invD(3) [OF inv] next_id_grows [OF left] by (simp add: bot_ok_def) (simp add: b)
      then show ?thesis using that D(7) by auto
    qed
  qed (use srv_invD [OF inv1, simplified] in auto)
  have part: "participant ?s j n \<longleftrightarrow> participant s j n \<or> (j = b_id b \<and> n = b_name b)" for j n
    by (auto simp: participant_def)
  have "in_sync ?t"
  proof (rule in_sync_announce [of ?s _ "joined_bytes (b_id b) (b_name b)" None])
    show "keys_distinct (players ?s)" using inv' by (rule srv_invD)
    fix k p assume p: "map_of (players ?s) k = Some p" "p_handshaked p"
    then have d: "displays (view k (out s)) s (p_id p)" using in_syncD [OF sync] by simp
    have ne: "b_id b \<noteq> p_id p" using fresh [OF participant_player [of s k p]] p by auto
    show "displays (if Some k \<noteq> None then roster_step (joined_bytes (b_id b) (b_name b)) (view k (out ?s))
        else view k (out ?s)) ?s (p_id p)"
      using d ne fresh by (auto simp: displays_def part sane_name_cut [OF sane])
  qed (simp_all add: Broadcast_emits ServerChat_emits)
  moreover have "srv_inv ?t" using inv' by (simp add: Broadcast_emits ServerChat_emits)
  ultimately show ?thesis unfolding t by (simp add: good_def)
qed

lemma good_RemoveBot:
  assumes g: "good s"
  shows "good (snd (RemoveBot i s))"
proof (cases "List.extract (\<lambda>b. b_id b = i) (bots s)")
  case None
  then show ?thesis using g by (simp add: RemoveBot_def)
next
  case (Some x)
  then obtain xs b ys where e: "List.extract (\<lambda>b. b_id b = i) (bots s) = Some (xs, b, ys)" by (cases x) auto
  have bs: "bots s = xs @ b # ys" "b_id b = i" using e by (simp_all add: extract_Some_iff)
  have inv: "srv_inv s" and sync: "in_sync s" using g by (auto simp: good_def)
  note D = srv_invD [OF inv]
  let ?s = "s\<lparr>bots := xs @ ys\<rparr>"
  let ?t = "ServerChat (b_name b @ '' left the game'') (Broadcast kReliable (left_bytes (b_id b)) None s)"
  have t: "snd (RemoveBot i s) = ?t\<lparr>bots := xs @ ys\<rparr>"
    by (simp add: RemoveBot_def e Let_def bytes_folds)
  have d: "distinct (map b_id (xs @ b # ys))" using D(2) bs by simp
  have inv': "srv_inv ?s"
  proof (rule srv_invI)
    show "p_id p \<noteq> b_id c" if "map_of (players ?s) k = Some p" "p_handshaked p" "c \<in> set (bots ?s)" for k p c
      using that D(8) [of k p c] bs by auto
  qed (use D d bs in auto)
  have part: "participant ?s j n \<longleftrightarrow> participant s j n \<and> j \<noteq> b_id b" for j n
  proof
    assume "participant ?s j n"
    then show "participant s j n \<and> j \<noteq> b_id b"
    proof (cases rule: participantE)
      case (1 k p)
      then show ?thesis using D(8) [of k p b] bs participant_player [of s k p] by auto
    next
      case (2 c)
      then show ?thesis using d bs participant_bot [of c s] by (auto simp: image_iff)
    qed
  next
    assume a: "participant s j n \<and> j \<noteq> b_id b"
    then have "participant s j n" by simp
    then show "participant ?s j n"
    proof (cases rule: participantE)
      case (1 k p)
      then show ?thesis using participant_player [of ?s k p] by simp
    next
      case (2 c)
      then show ?thesis using a bs participant_bot [of c ?s] by auto
    qed
  qed
  have "in_sync (?t\<lparr>bots := xs @ ys\<rparr>)"
  proof (rule in_sync_announce [of ?s _ "left_bytes (b_id b)" None])
    show "keys_distinct (players ?s)" using inv' by (rule srv_invD)
    fix k p assume p: "map_of (players ?s) k = Some p" "p_handshaked p"
    then have d: "displays (view k (out s)) s (p_id p)" using in_syncD [OF sync] by simp
    show "displays (if Some k \<noteq> None then roster_step (left_bytes (b_id b)) (view k (out ?s))
        else view k (out ?s)) ?s (p_id p)"
      using d by (auto simp: displays_def part)
  qed (simp_all add: Broadcast_emits ServerChat_emits)
  moreover have "srv_inv (?t\<lparr>bots := xs @ ys\<rparr>)"
  proof -
    have "?t\<lparr>bots := xs @ ys\<rparr> = emits (map (send_effect kReliable (left_bytes (b_id b))) (audience None (players s)) @
        said (b_name b @ '' left the game'') (players s)) ?s"
      by (simp add: Broadcast_emits ServerChat_emits emits_def)
    then show ?thesis using inv' by simp
  qed
  ultimately show ?thesis unfolding t by (simp add: good_def)
qed

lemma UpdateBot_face:
  "UpdateBot cosf sinf dt b s = (b', s') \<Longrightarrow> bot_face b' = bot_face b"
  by (auto simp: UpdateBot_def bot_target_def bot_pose_def bot_face_def Let_def NowMs_eq
      split: option.splits if_splits Mode.splits)

lemma good_UpdateBot: "good s \<Longrightarrow> UpdateBot cosf sinf dt b s = (b', s') \<Longrightarrow> good s' \<and> bots s' = bots s"
  by (auto simp: UpdateBot_def Let_def NowMs_eq Broadcast_emits view_unreliable intro!: good_emits
      split: option.splits prod.splits)

lemma good_UpdateBots_loop:
  "good s \<Longrightarrow> UpdateBots_loop cosf sinf dt bs s = (bs', s') \<Longrightarrow>
    good s' \<and> bots s' = bots s \<and> map bot_face bs' = map bot_face bs"
proof (induction bs arbitrary: s bs' s')
  case (Cons b bs)
  obtain c t where c: "UpdateBot cosf sinf dt b s = (c, t)" by fastforce
  obtain cs u where cs: "UpdateBots_loop cosf sinf dt bs t = (cs, u)" by fastforce
  have "good t \<and> bots t = bots s" using good_UpdateBot [OF Cons.prems(1) c] .
  moreover have "good u \<and> bots u = bots t \<and> map bot_face cs = map bot_face bs"
    using Cons.IH [of t cs u] calculation cs by blast
  moreover have "bs' = c # cs" "s' = u" using Cons.prems(2) by (simp_all add: c cs)
  ultimately show ?case using UpdateBot_face [OF c] by simp
qed simp

lemma good_set_bots:
  "good s \<Longrightarrow> map bot_face bs = map bot_face (bots s) \<Longrightarrow> good (s\<lparr>bots := bs\<rparr>)"
  by (rule good_same_faces [of s]) (auto simp: good_keys option.rel_refl dest: good_player)

lemma good_UpdateBots: "good s \<Longrightarrow> good (UpdateBots cosf sinf s)"
proof -
  assume g: "good s"
  then have g': "good (s\<lparr>readings := n\<rparr>)" for n by simp
  have l: "good (s\<lparr>readings := n, lastBotUpdate := t\<rparr>)" for n t
    using g' by (subst good_fields [of _ s]) (simp_all add: g)
  have "good (s'\<lparr>bots := bs\<rparr>)"
    if "UpdateBots_loop cosf sinf dt (bots s) (s\<lparr>readings := n, lastBotUpdate := t\<rparr>) = (bs, s')" for dt n t bs s'
    using good_UpdateBots_loop [OF l that] by (simp add: good_set_bots)
  then show ?thesis
    using g g' by (auto simp: UpdateBots_def Let_def now_def split: prod.split)
qed

section \<open>The handshake\<close>

lemma participant_unique:
  assumes inv: "srv_inv s" and "participant s j n" and "participant s j n'"
  shows "n = n'"
  using assms(2)
proof (cases rule: participantE)
  case p: (1 k p)
  from assms(3) show ?thesis
  proof (cases rule: participantE)
    case (1 k' p')
    have "k = k'"
      using srv_invD(6) [OF inv p(1) 1(1) p(2) 1(2)] p(3) 1(3) by simp
    then show ?thesis using p 1 by simp
  next
    case (2 b)
    then show ?thesis using srv_invD(8) [OF inv p(1) p(2) 2(1)] p(3) by simp
  qed
next
  case b: (2 b)
  from assms(3) show ?thesis
  proof (cases rule: participantE)
    case (1 k p)
    then show ?thesis using srv_invD(8) [OF inv 1(1) 1(2) b(1)] b(2) by simp
  next
    case (2 b')
    have "inj_on b_id (set (bots s))" using srv_invD(2) [OF inv] by (simp add: distinct_map)
    then have "b' = b" using b 2 by (metis inj_onD)
    then show ?thesis using b 2 by simp
  qed
qed

definition introduced :: "(PlayerId \<times> string) list \<Rightarrow> roster \<Rightarrow> roster" where
  "introduced xs v = fold (\<lambda>(i, n). roster_step (joined_bytes i n)) xs v"

lemma introduced_map:
  assumes "\<forall>(i, n) \<in> set xs. i \<noteq> fst v \<and> cut n = n"
  shows "introduced xs v = (fst v, snd v ++ map_of (rev xs))"
  using assms
proof (induction xs arbitrary: v)
  case (Cons x xs)
  obtain i n where x: "x = (i, n)" by fastforce
  have "introduced (x # xs) v = introduced xs (fst v, (snd v)(i \<mapsto> n))"
    using Cons.prems by (simp add: introduced_def x)
  also have "\<dots> = (fst v, (snd v)(i \<mapsto> n) ++ map_of (rev xs))"
    using Cons.prems by (subst Cons.IH) auto
  finally show ?case by (simp add: x map_add_assoc)
qed (simp add: introduced_def)

lemma map_of_rev_iff:
  assumes "\<And>j n n'. (j, n) \<in> set xs \<Longrightarrow> (j, n') \<in> set xs \<Longrightarrow> n = n'"
  shows "map_of (rev xs) j = Some n \<longleftrightarrow> (j, n) \<in> set xs"
proof
  assume "map_of (rev xs) j = Some n"
  then show "(j, n) \<in> set xs" using map_of_SomeD by fastforce
next
  assume m: "(j, n) \<in> set xs"
  then obtain n' where n': "map_of (rev xs) j = Some n'"
    using weak_map_of_SomeI [of j n "rev xs"] by auto
  then have "(j, n') \<in> set xs" using map_of_SomeD by fastforce
  then show "map_of (rev xs) j = Some n" using assms m n' by metis
qed

lemma Introduce_fields:
  "players (Introduce k i n has st s) = players s" "bots (Introduce k i n has st s) = bots s"
  "nextId (Introduce k i n has st s) = nextId s"
  "view j (out (Introduce k i n has st s)) =
     (if j = k then roster_step (joined_bytes i n) (view j (out s)) else view j (out s))"
  by (simp_all add: Introduce_emits introduction_def view_append inbox_Cons for_peer_send)

definition others :: "peer \<Rightarrow> (peer \<times> Player) list \<Rightarrow> (PlayerId \<times> string) list" where
  "others k ps = map (\<lambda>(l, q). (p_id q, p_name q)) (filter (\<lambda>(l, q). p_handshaked q \<and> l \<noteq> k) ps)"

text \<open>What introducing a list of participants leaves as it was, and what the newcomer sees of it.\<close>

definition introduces :: "peer \<Rightarrow> (PlayerId \<times> string) list \<Rightarrow> Server \<Rightarrow> Server \<Rightarrow> bool" where
  "introduces k xs s t =
     (players t = players s \<and> bots t = bots s \<and> nextId t = nextId s \<and>
      (\<forall>j. view j (out t) = (if j = k then introduced xs (view k (out s)) else view j (out s))))"

lemma introduces_refl: "introduces k [] s s"
  by (simp add: introduces_def introduced_def)

lemma introduces_trans: "introduces k xs s t \<Longrightarrow> introduces k ys t u \<Longrightarrow> introduces k (xs @ ys) s u"
  by (auto simp: introduces_def introduced_def)

lemma introduces_one: "introduces k [(i, n)] s (Introduce k i n has st s)"
  by (simp add: introduces_def introduced_def Introduce_fields)

lemma introduces_players:
  "introduces k (others k ps) s
     (fold (\<lambda>(l, q) s. if \<not> p_handshaked q \<or> l = k then s
                     else Introduce k (p_id q) (p_name q) (p_hasState q) (p_state q) s) ps s)"
proof (induction ps arbitrary: s)
  case (Cons x ps)
  obtain l q where x: "x = (l, q)" by fastforce
  show ?case
  proof (cases "\<not> p_handshaked q \<or> l = k")
    case True
    moreover from this have "others k (x # ps) = others k ps" by (auto simp: others_def x)
    ultimately show ?thesis using Cons.IH [of s] by (simp only: fold_simps comp_def x prod.case if_True)
  next
    case False
    let ?t = "Introduce k (p_id q) (p_name q) (p_hasState q) (p_state q) s"
    from False have "others k (x # ps) = [(p_id q, p_name q)] @ others k ps" by (auto simp: others_def x)
    moreover note introduces_trans [OF introduces_one Cons.IH [of ?t]]
    ultimately show ?thesis using False by (simp only: fold_simps comp_def x prod.case if_False)
  qed
qed (simp add: others_def introduces_refl)

lemma introduces_bots:
  "introduces k (map bot_face bs) s
     (fold (\<lambda>b s. Introduce k (b_id b) (b_name b) (b_hasState b) (b_state b) s) bs s)"
proof (induction bs arbitrary: s)
  case (Cons b bs)
  then show ?case using introduces_trans [OF introduces_one Cons] by (simp add: bot_face_def)
qed (simp add: introduces_refl)

lemma good_welcomed:
  assumes g: "good s" and left: "ids_left s" and p: "map_of (players s) k = Some p" "\<not> p_handshaked p"
    and p': "p_peer p' = k" "p_id p' = nextId s" "sane_name (p_name p')" "p_handshaked p'" "p_hasState p' = p_hasState p"
    and s1: "s1 = put_player p' (s\<lparr>nextId := nextId s + 1\<rparr>)"
    and t: "introduces k (others k (players s1) @ map bot_face (bots s1))
        (emits [send_effect kReliable (welcome_bytes (nextId s) c) k] s1) t"
    and u: "u = ServerChat tx (Broadcast kReliable (joined_bytes (p_id p') (p_name p')) (Some k) t)"
  shows "good u"
proof -
  have inv: "srv_inv s" and sync: "in_sync s" using g by (auto simp: good_def)
  let ?n = "nextId s"
  have fresh: "i \<noteq> ?n" if "participant s i m" for i m
    using participant_id [OF inv that] by auto
  have inv0: "srv_inv (s\<lparr>nextId := ?n + 1\<rparr>)" using inv left by (rule srv_inv_next)
  note D = srv_invD [OF inv0, simplified]
  have ok: "player_ok (?n + 1) p'"
    using p' p srv_invD(3) [OF inv] next_id_grows [OF left] D(5) [of k p] by (auto simp: player_ok_def)
  have look: "map_of (players s1) l = (if l = k then Some p' else map_of (players s) l)" for l
    using p'(1) by (simp add: s1)
  have other: "p_id q \<noteq> ?n" if "map_of (players s) l = Some q" "p_handshaked q" for l q
    using fresh [OF participant_player [of s l q]] that by simp
  have inv1: "srv_inv s1"
  proof (rule srv_invI)
    show "keys_distinct (players s1)" unfolding s1 using D(1) by (intro put_player_keys) simp
    show "p_peer q = l \<and> player_ok (nextId s1) q" if "map_of (players s1) l = Some q" for l q
      using that D(4,5) ok p' by (auto simp: look s1 split: if_splits)
    show "l = l'" if "map_of (players s1) l = Some q" "map_of (players s1) l' = Some q'"
      "p_handshaked q" "p_handshaked q'" "p_id q = p_id q'" for l q l' q'
      using that other [of l q] other [of l' q'] D(6) [of l q l' q'] p' by (auto simp: look split: if_splits)
    show "p_id q \<noteq> b_id b" if "map_of (players s1) l = Some q" "p_handshaked q" "b \<in> set (bots s1)" for l q b
      using that fresh [OF participant_bot [of b s]] D(8) [of l q b] p' by (auto simp: look s1 split: if_splits)
  qed (use D in \<open>auto simp: s1\<close>)
  have part: "participant s1 j m \<longleftrightarrow> participant s j m \<or> (j = ?n \<and> m = p_name p')" for j m
  proof
    assume "participant s1 j m"
    then show "participant s j m \<or> (j = ?n \<and> m = p_name p')"
    proof (cases rule: participantE)
      case (1 l q)
      then show ?thesis using p' participant_player [of s l q] by (auto simp: look split: if_splits)
    next
      case (2 b)
      then show ?thesis using participant_bot [of b s] by (simp add: s1)
    qed
  next
    assume "participant s j m \<or> (j = ?n \<and> m = p_name p')"
    then show "participant s1 j m"
    proof
      assume "participant s j m"
      then show ?thesis
      proof (cases rule: participantE)
        case (1 l q)
        then have "l \<noteq> k" using p by auto
        then show ?thesis using 1 participant_player [of s1 l q] by (simp add: look)
      next
        case (2 b)
        then show ?thesis using participant_bot [of b s1] by (simp add: s1)
      qed
    next
      assume "j = ?n \<and> m = p_name p'"
      then show ?thesis using participant_player [of s1 k p'] p' by (simp add: look)
    qed
  qed
  let ?xs = "others k (players s1) @ map bot_face (bots s1)"
  have xs: "(j, m) \<in> set ?xs \<longleftrightarrow> participant s j m" for j m
  proof -
    have "(j, m) \<in> set (others k (players s1)) \<longleftrightarrow>
        (\<exists>l q. map_of (players s1) l = Some q \<and> p_handshaked q \<and> l \<noteq> k \<and> p_id q = j \<and> p_name q = m)"
      using srv_invD(1) [OF inv1] by (force simp: others_def keys_distinct_def)
    also have "\<dots> \<longleftrightarrow> (\<exists>l q. map_of (players s) l = Some q \<and> p_handshaked q \<and> p_id q = j \<and> p_name q = m)"
      using p by (intro ex_cong1) (auto simp: look)
    finally show ?thesis by (auto simp: participant_def bot_face_def s1)
  qed
  have t': "players t = players s1" "bots t = bots s1" "nextId t = nextId s1" using t by (simp_all add: introduces_def)
  have vk: "view k (out t) = (?n, map_of (rev ?xs))"
  proof -
    have "view k (out t) = introduced ?xs (?n, Map.empty)"
      using t by (simp add: introduces_def view_append inbox_Cons for_peer_send)
    moreover have "\<forall>(i, m) \<in> set ?xs. i \<noteq> fst (?n, Map.empty :: PlayerId \<rightharpoonup> string) \<and> cut m = m"
      using xs fresh participant_id [OF inv] sane_name_cut by fastforce
    ultimately show ?thesis using introduced_map [of ?xs "(?n, Map.empty)"] by simp
  qed
  have vj: "view j (out t) = view j (out s)" if "j \<noteq> k" for j
    using t that by (simp add: introduces_def view_append inbox_Cons for_peer_send s1)
  have "in_sync u"
  proof (rule in_sync_announce [of t _ "joined_bytes (p_id p') (p_name p')" "Some k"])
    show "keys_distinct (players t)" using srv_invD(1) [OF inv1] t' by simp
    fix j q assume q: "map_of (players t) j = Some q" "p_handshaked q"
    have pt: "participant t i m \<longleftrightarrow> participant s i m \<or> (i = ?n \<and> m = p_name p')" for i m
      using part [of i m] by (simp add: participant_def t')
    show "displays (if Some j \<noteq> Some k then roster_step (joined_bytes (p_id p') (p_name p')) (view j (out t))
        else view j (out t)) t (p_id q)"
    proof (cases "j = k")
      case True
      then have "q = p'" using q by (simp add: t' look)
      moreover have "map_of (rev ?xs) i = Some m \<longleftrightarrow> participant s i m" for i m
        using xs participant_unique [OF inv] by (subst map_of_rev_iff) blast+
      ultimately show ?thesis using True fresh p' by (auto simp: displays_def vk pt)
    next
      case False
      then have "map_of (players s) j = Some q" using q by (simp add: t' look)
      then have d: "displays (view j (out s)) s (p_id q)" and ne: "p_id q \<noteq> ?n"
        using in_syncD [OF sync] other q by auto
      then show ?thesis
        using False fresh by (auto simp: displays_def vj pt p'(2) sane_name_cut [OF p'(3)])
    qed
  qed (simp_all add: u Broadcast_emits ServerChat_emits)
  moreover have "srv_inv t" using inv1 unfolding srv_inv_def t' .
  then have "srv_inv u" by (simp add: u Broadcast_emits ServerChat_emits)
  ultimately show ?thesis by (simp add: good_def)
qed

text \<open>What the handler does once the hello is accepted.\<close>

definition Hello_accepted :: "Player \<Rightarrow> HelloMsg \<Rightarrow> Server \<Rightarrow> Server" where
  "Hello_accepted p hello s =
     (let p' = p\<lparr>p_id := nextId s, p_name := SanitizeName (hello_name hello),
                 p_gameVersion := hello_gameVersion hello, p_handshaked := True\<rparr>;
          k = p_peer p';
          s1 = put_player p' (s\<lparr>nextId := nextId s + 1\<rparr>);
          s2 = emits [send_effect kReliable (welcome_bytes (nextId s) (config s)) k] s1;
          s3 = fold (\<lambda>(l, q) s. if \<not> p_handshaked q \<or> l = k then s
                     else Introduce k (p_id q) (p_name q) (p_hasState q) (p_state q) s) (players s2) s2;
          t = fold (\<lambda>b s. Introduce k (b_id b) (b_name b) (b_hasState b) (b_state b) s) (bots s3) s3
      in ServerChat (p_name p' @ '' joined the game'')
           (Broadcast kReliable (joined_bytes (p_id p') (p_name p')) (Some k) t))"

lemma HandleHello_cases:
  "HandleHello p r s =
     (case run_state HelloMsg_Read r of ((hello, success), _) \<Rightarrow>
        if \<not> success then Kick p ''Malformed hello'' s
        else if hello_protocolVersion hello \<noteq> PROTOCOL_VERSION
        then Kick p (''Protocol mismatch (server v'' @ to_string (unat PROTOCOL_VERSION) @ '', client v'' @
                     to_string (unat (hello_protocolVersion hello)) @ '')'') s
        else if p_handshaked p then s else Hello_accepted p hello s)"
  unfolding HandleHello_def Hello_accepted_def Let_def Send_emits welcome_bytes_def bytes_folds
  by (simp split: prod.split)

definition newcomer :: "Player \<Rightarrow> HelloMsg \<Rightarrow> PlayerId \<Rightarrow> Player" where
  "newcomer p hello i = p\<lparr>p_id := i, p_name := SanitizeName (hello_name hello),
     p_gameVersion := hello_gameVersion hello, p_handshaked := True\<rparr>"

lemma Hello_accepted_shape:
  fixes s :: Server
  assumes k: "p_peer p = k" and p': "p' = newcomer p hello (nextId s)"
    and s1: "s1 = put_player p' (s\<lparr>nextId := nextId s + 1\<rparr>)"
  obtains t where
    "introduces k (others k (players s1) @ map bot_face (bots s1))
       (emits [send_effect kReliable (welcome_bytes (nextId s) (config s)) k] s1) t"
    "Hello_accepted p hello s = ServerChat (p_name p' @ '' joined the game'')
       (Broadcast kReliable (joined_bytes (p_id p') (p_name p')) (Some k) t)"
proof -
  let ?s2 = "emits [send_effect kReliable (welcome_bytes (nextId s) (config s)) k] s1"
  obtain s3 where s3: "s3 = fold (\<lambda>(l, q) s. if \<not> p_handshaked q \<or> l = k then s
      else Introduce k (p_id q) (p_name q) (p_hasState q) (p_state q) s) (players ?s2) ?s2" by blast
  obtain t where t: "t = fold (\<lambda>b s. Introduce k (b_id b) (b_name b) (b_hasState b) (b_state b) s) (bots s3) s3"
    by blast
  have i3: "introduces k (others k (players s1)) ?s2 s3"
    using introduces_players [of k "players ?s2" ?s2] by (simp only: s3 emits_fields)
  then have "bots s3 = bots s1" by (simp add: introduces_def)
  then have "introduces k (others k (players s1) @ map bot_face (bots s1)) ?s2 t"
    using introduces_trans [OF i3 introduces_bots [of k "bots s3" s3]] by (simp only: t)
  moreover have "Hello_accepted p hello s = ServerChat (p_name p' @ '' joined the game'')
      (Broadcast kReliable (joined_bytes (p_id p') (p_name p')) (Some k) t)"
  proof -
    have k': "p_peer p' = k" by (simp add: p' k newcomer_def)
    show ?thesis
      unfolding Hello_accepted_def Let_def newcomer_def [symmetric] p' [symmetric] k' s1 [symmetric]
        s3 [symmetric] t [symmetric] ..
  qed
  ultimately show thesis by (rule that)
qed

lemma good_Hello_accepted:
  assumes g: "good s" and left: "ids_left s" and p: "map_of (players s) k = Some p" "\<not> p_handshaked p"
  shows "good (Hello_accepted p hello s)"
proof -
  have k: "p_peer p = k" using good_player [OF g p(1)] by simp
  obtain p' where p': "p' = newcomer p hello (nextId s)" by blast
  obtain s1 where s1: "s1 = put_player p' (s\<lparr>nextId := nextId s + 1\<rparr>)" by blast
  obtain t where t:
    "introduces k (others k (players s1) @ map bot_face (bots s1))
       (emits [send_effect kReliable (welcome_bytes (nextId s) (config s)) k] s1) t"
    "Hello_accepted p hello s = ServerChat (p_name p' @ '' joined the game'')
       (Broadcast kReliable (joined_bytes (p_id p') (p_name p')) (Some k) t)"
    using Hello_accepted_shape [OF k p' s1] by blast
  show ?thesis
    by (rule good_welcomed [OF g left p(1) p(2) _ _ _ _ _ s1 t(1) t(2)])
      (simp_all add: p' newcomer_def k SanitizeName_sane)
qed

lemma good_HandleHello:
  assumes "good s" and "ids_left s" and "map_of (players s) k = Some p"
  shows "good (HandleHello p r s)"
  using assms by (auto simp: HandleHello_cases good_Kick good_Hello_accepted split: prod.split)

lemma good_HandlePacket:
  assumes g: "good s" and left: "ids_left s"
  shows "good (HandlePacket k bytes s)"
proof (cases "map_of (players s) k")
  case None
  then show ?thesis using g by (simp add: HandlePacket_def FindPlayer_def)
next
  case (Some p)
  then show ?thesis
    using g left good_HandlePlayerState [OF g Some] good_HandleChat [OF g Some] good_HandleSetName [OF g Some]
    by (auto simp: HandlePacket_def FindPlayer_def good_Kick good_HandleHello Let_def split: prod.split)
qed

end
