(* ===== verification/F4_ServerLoop.thy ===== *)
theory F4_ServerLoop
  imports F4_Roster
begin

text \<open>
  \<open>Server::Service\<close> and \<open>server/src/main.cpp\<close>: the events ENet delivers, the order in which
  they are handled, the main loop between the network and the console, and the command
  line. The server as a machine is an instance of the interface of machines with an
  invariant.
\<close>

section \<open>The network\<close>

datatype net_event =
    EvConnect peer
  | EvDisconnect peer
  | EvReceive peer "u8 list"
  | EvNone

definition handle_event :: "net_event \<Rightarrow> Server \<Rightarrow> Server" where
  "handle_event e s =
     (case e of
        EvConnect k \<Rightarrow> HandleConnect k s
      | EvDisconnect k \<Rightarrow> HandleDisconnect k s
      | EvReceive k bytes \<Rightarrow> emit ENetPacketDestroy (HandlePacket k bytes s)
      | EvNone \<Rightarrow> s)"

text \<open>The loop around \<open>enet_host_service\<close>: the events it returns, then a call that returns none.\<close>

primrec service_loop :: "bool \<Rightarrow> u32 \<Rightarrow> net_event list \<Rightarrow> Server \<Rightarrow> Server" where
  "service_loop waited timeout [] s = emit (ENetHostService (if waited then 0 else timeout)) s"
| "service_loop waited timeout (e # es) s =
     service_loop True timeout es
       (handle_event e (emit (ENetHostService (if waited then 0 else timeout)) s))"

definition Service :: "(f32 \<Rightarrow> f32) \<Rightarrow> (f32 \<Rightarrow> f32) \<Rightarrow> u32 \<Rightarrow> net_event list \<Rightarrow> Server \<Rightarrow> Server" where
  "Service cosf sinf timeout es s =
     (if \<not> host s then s else UpdateBots cosf sinf (service_loop False timeout es s))"

section \<open>The main loop\<close>

definition is_stop :: "string \<Rightarrow> bool" where
  "is_stop line = (line = ''stop'' \<or> line = ''quit'' \<or> line = ''exit'')"

text \<open>Popping the console until it is empty or says stop: whether to go on, and the lines left.\<close>

function console_loop :: "nat \<Rightarrow> Console \<Rightarrow> Server \<Rightarrow> bool \<times> Console \<times> Server" where
  "console_loop ulong q s =
     (case TryPop q of
        (None, q') \<Rightarrow> (True, q', s)
      | (Some line, q') \<Rightarrow>
          if is_stop line then (False, q', s) else console_loop ulong q' (ExecuteCommand ulong line s))"
  by pat_completeness auto
termination
  by (relation "measure (\<lambda>(ulong, q, s). length q)") (auto simp: TryPop_def split: list.splits)

declare console_loop.simps [simp del]

text \<open>One pass of the loop: the events of the service call and the lines that arrived by then.\<close>

record Pass =
  pass_signal :: bool
  pass_events :: "net_event list"
  pass_lines :: "string list"

primrec main_loop :: "nat \<Rightarrow> (f32 \<Rightarrow> f32) \<Rightarrow> (f32 \<Rightarrow> f32) \<Rightarrow> u32 \<Rightarrow> Pass list \<Rightarrow> Console \<Rightarrow> Server \<Rightarrow> bool \<times> Console \<times> Server" where
  "main_loop ulong cosf sinf tick [] q s = (True, q, s)"
| "main_loop ulong cosf sinf tick (p # ps) q s =
     (if pass_signal p then (False, q, s)
      else
        let s = Service cosf sinf tick (pass_events p) s;
            q = fold ReadLoop_line (pass_lines p) q;
            (running, q, s) = console_loop ulong q s
        in if running then main_loop ulong cosf sinf tick ps q s else (False, q, s))"

section \<open>The command line\<close>

record Options =
  opt_configPath :: string
  opt_port :: "u16 option"

datatype arguments = Help | Throws | Run Options

text \<open>\<open>std::stoul\<close> of the port is not caught: the exception ends the program.\<close>

fun parse_args :: "nat \<Rightarrow> string list \<Rightarrow> Options \<Rightarrow> arguments" where
  "parse_args ulong [] o1 = Run o1"
| "parse_args ulong [a] o1 = (if a = ''--help'' \<or> a = ''-h'' then Help else Run o1)"
| "parse_args ulong (a # v # args) o1 =
     (if a = ''--config'' \<or> a = ''-c'' then parse_args ulong args (o1\<lparr>opt_configPath := v\<rparr>)
      else if a = ''--port'' \<or> a = ''-p'' then
        (case stoul ulong 10 v of
           None \<Rightarrow> Throws
         | Some n \<Rightarrow> parse_args ulong args (o1\<lparr>opt_port := Some (word_of_nat n)\<rparr>))
      else if a = ''--help'' \<or> a = ''-h'' then Help
      else parse_args ulong (v # args) o1)"

definition main_config :: "Options \<Rightarrow> string option \<Rightarrow> Config" where
  "main_config o1 file =
     (let (loaded, cfg) = Config_Load file Config_default
      in case opt_port o1 of None \<Rightarrow> cfg | Some p \<Rightarrow> cfg\<lparr>cfg_port := p\<rparr>)"

text \<open>\<open>main\<close> over the passes it gets to make: it exits with a code and the server's last state,
  it ends with the uncaught exception, or it is still running after them. \<open>files\<close> gives the
  text of a file that can be read.\<close>

datatype outcome = Exit int "Server option" | Uncaught | Running Server

definition main ::
  "nat \<Rightarrow> (f32 \<Rightarrow> f32) \<Rightarrow> (f32 \<Rightarrow> f32) \<Rightarrow> (nat \<Rightarrow> int) \<Rightarrow> (string \<Rightarrow> string option) \<Rightarrow> bool \<Rightarrow> bool \<Rightarrow>
    string list \<Rightarrow> Pass list \<Rightarrow> outcome" where
  "main ulong cosf sinf clk files initialized created args passes =
     (case parse_args ulong args \<lparr>opt_configPath = ''server.ini'', opt_port = None\<rparr> of
        Help \<Rightarrow> Exit 0 None
      | Throws \<Rightarrow> Uncaught
      | Run o1 \<Rightarrow>
          let cfg = main_config o1 (files (opt_configPath o1));
              (started, s) = Start initialized created (Server_new cfg clk)
          in if \<not> started then Exit 1 (Some s)
             else let (running, q, s) = main_loop ulong cosf sinf (tickMs cfg) passes [] s
                  in if running then Running s else Exit 0 (Some (Stop s)))"

section \<open>The server as a machine\<close>

datatype server_input = InService u32 "net_event list" | InCommand string

primrec server_step :: "nat \<Rightarrow> (f32 \<Rightarrow> f32) \<Rightarrow> (f32 \<Rightarrow> f32) \<Rightarrow> server_input \<Rightarrow> Server \<Rightarrow> Server" where
  "server_step ulong cosf sinf (InService timeout es) s = Service cosf sinf timeout es s"
| "server_step ulong cosf sinf (InCommand line) s = ExecuteCommand ulong line s"

text \<open>How many ids an input can use up, and that enough are left: ids are never reused.\<close>

primrec id_cost :: "server_input \<Rightarrow> nat" where
  "id_cost (InService timeout es) = length es"
| "id_cost (InCommand line) = 1"

definition enough_ids :: "Server \<Rightarrow> server_input \<Rightarrow> bool" where
  "enough_ids s i = (unat (nextId s) + id_cost i < 2 ^ 32)"

lemma enough_ids_left: "unat (nextId s) + Suc n < 2 ^ 32 \<Longrightarrow> ids_left s"
  by (simp add: ids_left_def INVALID_PLAYER_ID_def word_less_nat_alt)

definition id_step :: "Server \<Rightarrow> Server \<Rightarrow> bool" where
  "id_step s t = (unat (nextId t) \<le> unat (nextId s) + 1)"

lemma id_step_same: "nextId t = nextId s \<Longrightarrow> id_step s t"
  by (simp add: id_step_def)

lemma id_step_next: "nextId t = nextId s + 1 \<Longrightarrow> id_step s t"
  by (simp add: id_step_def unat_word_ariths)

lemma nextId_sends [simp]:
  "nextId (Send k ch bytes s) = nextId s" "nextId (Broadcast ch bytes ex s) = nextId s"
  "nextId (ServerChat tx s) = nextId s" "nextId (Kick p reason s) = nextId s" "nextId (emit e s) = nextId s"
  by (simp_all add: Send_emits Broadcast_emits ServerChat_emits Kick_emits emit_emits)

lemma nextId_HandleHello: "id_step s (HandleHello p r s)"
proof -
  have "nextId (Hello_accepted p hello s) = nextId s + 1" for hello
    by (rule Hello_accepted_shape [of p "p_peer p" _ hello s, OF refl refl refl]) (simp add: introduces_def)
  then show ?thesis
    by (auto simp: HandleHello_cases id_step_same id_step_next split: prod.split)
qed

lemma nextId_HandlePacket: "id_step s (HandlePacket k bytes s)"
proof -
  have "nextId (HandlePlayerState p r s) = nextId s" "nextId (HandleSetName p r s) = nextId s"
    "nextId (HandleChat p r s) = nextId s" for p r
    by (simp_all add: HandlePlayerState_def HandleSetName_def HandleChat_def Let_def NowMs_eq now_def split: prod.split)
  then show ?thesis
    using nextId_HandleHello
    by (auto simp: HandlePacket_def Let_def id_step_same split: option.split prod.split)
qed

lemma nextId_handle_event: "id_step s (handle_event e s)"
proof (cases e)
  case (EvReceive k bytes)
  then show ?thesis using nextId_HandlePacket [of s k bytes] by (simp add: handle_event_def id_step_def)
qed (auto simp: handle_event_def HandleConnect_def HandleDisconnect_def now_def Let_def
    intro!: id_step_same split: option.split)

lemma good_handle_event: "good s \<Longrightarrow> ids_left s \<Longrightarrow> good (handle_event e s)"
  by (auto simp: handle_event_def good_HandleConnect good_HandleDisconnect good_HandlePacket emit_emits
      view_append inbox_Cons for_peer_def intro!: good_emits split: net_event.split)

lemma good_service_call: "good s \<Longrightarrow> good (emit (ENetHostService t) s)"
  by (simp add: emit_emits good_emits view_append inbox_Cons for_peer_def)

lemma good_service_loop:
  "good s \<Longrightarrow> unat (nextId s) + length es < 2 ^ 32 \<Longrightarrow> good (service_loop waited timeout es s)"
proof (induction es arbitrary: waited s)
  case Nil
  then show ?case by (simp add: good_service_call)
next
  case (Cons e es)
  let ?s = "emit (ENetHostService (if waited then 0 else timeout)) s"
  have g: "good ?s" using Cons.prems(1) by (rule good_service_call)
  have left: "ids_left ?s" using enough_ids_left [of s "length es"] Cons.prems(2) by (simp add: ids_left_def)
  have "good (handle_event e ?s)" using g left by (rule good_handle_event)
  moreover have "unat (nextId (handle_event e ?s)) + length es < 2 ^ 32"
    using nextId_handle_event [of ?s e] Cons.prems(2) by (simp add: id_step_def)
  ultimately show ?case using Cons.IH by simp
qed

lemma good_RemoveAllBots: "good s \<Longrightarrow> good (RemoveAllBots s)"
proof (induction s rule: RemoveAllBots.induct)
  case (1 s)
  then show ?case
    by (cases "bots s = []") (simp_all add: RemoveAllBots.simps [of s] good_RemoveBot)
qed

lemma good_ExecuteBot: "good s \<Longrightarrow> ids_left s \<Longrightarrow> good (ExecuteBot ulong args s)"
  by (simp add: ExecuteBot_def Let_def good_AddBot good_RemoveBot good_RemoveAllBots split: option.split)

lemma good_ExecuteKick: "good s \<Longrightarrow> good (ExecuteKick ulong line args s)"
proof (cases "stoul ulong 10 (args ! 1)")
  case (Some n)
  assume g: "good s"
  obtain b t where t: "RemoveBot (word_of_nat n) s = (b, t)" by fastforce
  then have "good t" using good_RemoveBot [OF g, of "word_of_nat n"] by simp
  moreover have "stoul ulong 10 (args ! Suc 0) = Some n" using Some by simp
  ultimately show ?thesis using g by (simp add: ExecuteKick_def t good_Kick Let_def split: option.split)
qed (simp add: ExecuteKick_def)

lemma good_ExecuteCommand: "good s \<Longrightarrow> ids_left s \<Longrightarrow> good (ExecuteCommand ulong line s)"
  by (simp add: ExecuteCommand_def Let_def good_ServerChat good_ExecuteBot good_ExecuteKick)

text \<open>The server, with its inputs and what the tables and the clients' views promise, is an
  instance of the interface of machines with an invariant.\<close>

interpretation srv: invariant_machine "server_step ulong cosf sinf" enough_ids good
  for ulong :: nat and cosf sinf :: "f32 \<Rightarrow> f32"
proof unfold_locales
  fix s i assume g: "good s" and e: "enough_ids s i"
  show "good (server_step ulong cosf sinf i s)"
  proof (cases i)
    case (InService timeout es)
    then have "good (service_loop False timeout es s)"
      using g e by (simp add: enough_ids_def good_service_loop)
    then show ?thesis using InService g by (simp add: Service_def good_UpdateBots)
  next
    case (InCommand line)
    then show ?thesis using g e enough_ids_left [of s 0] by (simp add: enough_ids_def good_ExecuteCommand)
  qed
qed

end
