(* ===== verification/F4_ServerSpec.thy ===== *)
theory F4_ServerSpec
  imports F4_ServerLoop
begin

text \<open>
  What the server promises, stated over runs of it from its start: a run is any sequence
  of service calls, with any events in any order, and of console commands.
\<close>

section \<open>Runs\<close>

definition started :: "Config \<Rightarrow> (nat \<Rightarrow> int) \<Rightarrow> Server" where
  "started cfg clk = snd (Start True True (Server_new cfg clk))"

definition server_run :: "nat \<Rightarrow> (f32 \<Rightarrow> f32) \<Rightarrow> (f32 \<Rightarrow> f32) \<Rightarrow> server_input list \<Rightarrow> Server \<Rightarrow> Server" where
  "server_run ulong cosf sinf inputs s = fold (server_step ulong cosf sinf) inputs s"

text \<open>The events and commands of a run, each of which can use up one id.\<close>

definition ids_used :: "server_input list \<Rightarrow> nat" where
  "ids_used inputs = sum_list (map id_cost inputs)"

lemma nextId_service_loop:
  "unat (nextId (service_loop waited timeout es s)) \<le> unat (nextId s) + length es"
proof (induction es arbitrary: waited s)
  case (Cons e es)
  let ?s = "emit (ENetHostService (if waited then 0 else timeout)) s"
  show ?case
    using Cons.IH [of True "handle_event e ?s"] nextId_handle_event [of ?s e] by (simp add: id_step_def)
qed simp

lemma nextId_UpdateBots_loop: "nextId (snd (UpdateBots_loop cosf sinf dt bs s)) = nextId s"
proof (induction bs arbitrary: s)
  case (Cons b bs)
  have "nextId (snd (UpdateBot cosf sinf dt b s)) = nextId s"
    by (auto simp: UpdateBot_def Let_def NowMs_eq split: prod.split option.split)
  then show ?case
    using Cons.IH [of "snd (UpdateBot cosf sinf dt b s)"] by (simp add: Let_def case_prod_beta)
qed simp

lemma nextId_UpdateBots: "nextId (UpdateBots cosf sinf s) = nextId s"
  by (simp add: UpdateBots_def Let_def now_def case_prod_beta nextId_UpdateBots_loop)

lemma nextId_RemoveBot: "nextId (snd (RemoveBot i s)) = nextId s"
  by (simp add: RemoveBot_def Let_def split: option.split)

lemma nextId_RemoveAllBots: "nextId (RemoveAllBots s) = nextId s"
proof (induction s rule: RemoveAllBots.induct)
  case (1 s)
  then show ?case
    by (cases "bots s = []") (simp_all add: RemoveAllBots.simps [of s] nextId_RemoveBot)
qed

lemma nextId_ExecuteCommand: "id_step s (ExecuteCommand ulong line s)"
proof -
  have add: "id_step s (snd (AddBot mode nm s))" for mode nm
    by (simp add: AddBot_def Let_def id_step_def unat_word_ariths)
  have kick: "nextId (ExecuteKick ulong line args s) = nextId s" for args
    using nextId_RemoveBot
    by (simp add: ExecuteKick_def Let_def case_prod_beta split: option.split)
  show ?thesis
    using add kick
    by (simp add: ExecuteCommand_def ExecuteBot_def Let_def id_step_same nextId_RemoveBot nextId_RemoveAllBots
        split: option.split)
qed

lemma nextId_server_step: "unat (nextId (server_step ulong cosf sinf i s)) \<le> unat (nextId s) + id_cost i"
proof (cases i)
  case (InService timeout es)
  then show ?thesis using nextId_service_loop [of False timeout es s] by (simp add: Service_def nextId_UpdateBots)
next
  case (InCommand line)
  then show ?thesis using nextId_ExecuteCommand [of s ulong line] by (simp add: id_step_def)
qed

text \<open>The run of the interface is the fold, and the ids suffice along it.\<close>

lemma srv_run: "srv.run ulong cosf sinf inputs s = server_run ulong cosf sinf inputs s"
  by (induction inputs arbitrary: s) (simp_all add: server_run_def)

lemma srv_admits:
  "unat (nextId s) + ids_used inputs < 2 ^ 32 \<Longrightarrow> srv.admits ulong cosf sinf inputs s"
proof (induction inputs arbitrary: s)
  case (Cons i inputs)
  have "unat (nextId (server_step ulong cosf sinf i s)) + ids_used inputs < 2 ^ 32"
    using nextId_server_step [of ulong cosf sinf i s] Cons.prems by (simp add: ids_used_def)
  then have "srv.admits ulong cosf sinf inputs (server_step ulong cosf sinf i s)" by (rule Cons.IH)
  moreover have "enough_ids s i" using Cons.prems by (simp add: enough_ids_def ids_used_def)
  ultimately show ?case by simp
qed simp

lemma good_started: "good (started cfg clk)"
proof -
  have "players (started cfg clk) = []" "bots (started cfg clk) = []" "nextId (started cfg clk) = 1"
    by (simp_all add: started_def Start_def Server_new_def now_def emit_def Let_def)
  then show ?thesis by (simp add: good_def srv_inv_def in_sync_def keys_distinct_def)
qed

lemma nextId_started: "nextId (started cfg clk) = 1"
  by (simp add: started_def Start_def Server_new_def now_def emit_def Let_def)

lemma good_run:
  "1 + ids_used inputs < 2 ^ 32 \<Longrightarrow> good (server_run ulong cosf sinf inputs (started cfg clk))"
  using srv.run_inv [OF good_started srv_admits] by (simp add: srv_run nextId_started)

section \<open>Every client sees everyone else\<close>

text \<open>C2. The server implements the session's specification: after any run, replaying the reliable
  messages it has handed to ENet for a connected client gives that client's own id and, under the right
  ids and names, exactly the other handshaked players and the bots, as long as the 32-bit ids last.\<close>

theorem clients_see_everyone:
  assumes "1 + ids_used inputs < 2 ^ 32"
    and "s = server_run ulong cosf sinf inputs (started cfg clk)"
    and "map_of (players s) k = Some p" and "p_handshaked p"
  shows "fst (view k (out s)) = p_id p \<and>
    (\<forall>i n. snd (view k (out s)) i = Some n \<longleftrightarrow> participant s i n \<and> i \<noteq> p_id p)"
proof -
  have "in_sync s" using good_run [OF assms(1)] assms(2) by (simp add: good_def)
  from in_syncD [OF this assms(3,4)] show ?thesis by (simp add: displays_def)
qed

text \<open>A run with two players and a bot.\<close>

definition hello_from :: "string \<Rightarrow> u8 list" where
  "hello_from name = Encode kHello HelloMsg_Write
     \<lparr>hello_protocolVersion = PROTOCOL_VERSION, hello_gameVersion = 0, hello_name = name\<rparr>"

definition demo_inputs :: "server_input list" where
  "demo_inputs =
     [InService 33 [EvConnect 7, EvReceive 7 (hello_from ''Nora''), EvConnect 8],
      InCommand ''bot add orbit Dogmeat'',
      InService 33 [EvReceive 8 (hello_from '' Nate'')]]"

definition demo :: Server where
  "demo = server_run 64 (\<lambda>_. 0) (\<lambda>_. 0) demo_inputs (started Config_default (\<lambda>n. int n * 1000000))"

lemma demo_players: "map (\<lambda>(k, p). (k, p_id p, p_name p, p_handshaked p)) (players demo) =
    [(7, 1, ''Nora'', True), (8, 3, ''Nate'', True)] \<and> map bot_face (bots demo) = [(2, ''Dogmeat'')]"
  by code_simp

lemma demo_Nora: "\<exists>p. map_of (players demo) 7 = Some p \<and> p_id p = 1 \<and> p_name p = ''Nora'' \<and> p_handshaked p"
proof -
  have "map_option (\<lambda>p. (p_id p, p_name p, p_handshaked p)) (map_of (players demo) 7) = Some (1, ''Nora'', True)"
    by code_simp
  then show ?thesis by auto
qed

lemma demo_Dogmeat: "participant demo 2 ''Dogmeat''"
proof -
  have "(2, ''Dogmeat'') \<in> bot_face ` set (bots demo)" by code_simp
  then show ?thesis by (auto simp: participant_def bot_face_def)
qed

lemma demo_ids: "1 + ids_used demo_inputs < 2 ^ 32"
  by code_simp

theorem clients_see_everyone_witness: "snd (view 7 (out demo)) 2 = Some ''Dogmeat''"
proof -
  obtain p where p: "map_of (players demo) 7 = Some p" "p_id p = 1" "p_handshaked p" using demo_Nora by blast
  show ?thesis
    using clients_see_everyone [OF demo_ids demo_def p(1) p(3)] demo_Dogmeat p(2) by simp
qed

section \<open>The tables\<close>

text \<open>C3. After any run, ids are never shared: not by two handshaked players, not by two bots, not by
  a player and a bot, and no id is the server's own or the invalid one; every name in use is sane; every
  stored state is finite and belongs to a handshaked player.\<close>

theorem server_tables:
  assumes "1 + ids_used inputs < 2 ^ 32"
    and "s = server_run ulong cosf sinf inputs (started cfg clk)"
  shows "(participant s i n \<and> participant s i n' \<longrightarrow> n = n') \<and>
    (participant s i n \<longrightarrow> i \<noteq> SERVER_ID \<and> i \<noteq> INVALID_PLAYER_ID \<and> sane_name n) \<and>
    distinct (map b_id (bots s)) \<and>
    (map_of (players s) k = Some p \<and> map_of (players s) k' = Some p' \<and> p_handshaked p \<and> p_handshaked p' \<and>
      p_id p = p_id p' \<longrightarrow> k = k') \<and>
    (map_of (players s) k = Some p \<and> p_hasState p \<longrightarrow> p_handshaked p \<and> Plausible (p_state p))"
proof -
  have g: "srv_inv s" using good_run [OF assms(1)] assms(2) by (simp add: good_def)
  have "i \<noteq> SERVER_ID \<and> i \<noteq> INVALID_PLAYER_ID \<and> sane_name n" if "participant s i n"
  proof -
    have "i < nextId s" "0 < i" "sane_name n" using participant_id [OF g that] by auto
    moreover have "nextId s \<le> INVALID_PLAYER_ID"
      using unsigned_less [of "nextId s", where ?'a = nat] by (simp add: INVALID_PLAYER_ID_def word_le_nat_alt)
    ultimately show ?thesis by (auto simp: SERVER_ID_def)
  qed
  moreover have "p_handshaked p \<and> Plausible (p_state p)" if "map_of (players s) k = Some p" "p_hasState p"
    using srv_invD(5) [OF g that(1)] that(2) by (simp add: player_ok_def)
  moreover have "k = k'" if "map_of (players s) k = Some p" "map_of (players s) k' = Some p'"
    "p_handshaked p" "p_handshaked p'" "p_id p = p_id p'"
    by (rule srv_invD(6) [OF g that])
  ultimately show ?thesis
    using participant_unique [OF g] srv_invD(2) [OF g] by blast
qed

theorem server_tables_witness: "distinct (map b_id (bots demo)) \<and> (2 :: PlayerId) \<noteq> INVALID_PLAYER_ID"
  using server_tables [OF demo_ids demo_def, of 2 "''Dogmeat''"] demo_Dogmeat by simp

section \<open>Before the handshake\<close>

text \<open>A hello the server accepts.\<close>

definition valid_hello :: "u8 list \<Rightarrow> bool" where
  "valid_hello bytes = (message_id bytes = Some kHello \<and>
     (case body HelloMsg_Read bytes of None \<Rightarrow> False | Some h \<Rightarrow> hello_protocolVersion h = PROTOCOL_VERSION))"

text \<open>The reason a packet is refused for, and \<open>None\<close> when it is not even a header.\<close>

definition refusal :: "u8 list \<Rightarrow> string option" where
  "refusal bytes =
     (case message_id bytes of
        None \<Rightarrow> None
      | Some i \<Rightarrow>
          if i \<noteq> kHello then Some ''Expected handshake''
          else (case body HelloMsg_Read bytes of
                  None \<Rightarrow> Some ''Malformed hello''
                | Some h \<Rightarrow> Some (''Protocol mismatch (server v3, client v'' @ to_string (unat (hello_protocolVersion h)) @ '')'')))"

lemma protocol_version_text: "to_string (unat PROTOCOL_VERSION) = ''3''"
  by code_simp

lemma packet_split:
  obtains i b r m c r' where "run_state ReadHeader (Reader_new bytes) = ((i, b), r)"
    and "run_state rd r = ((m, c), r')"
    and "message_id bytes = (if b then Some i else None)"
    and "body rd bytes = (if b \<and> c then Some m else None)"
proof -
  obtain i b r where h: "run_state ReadHeader (Reader_new bytes) = ((i, b), r)" by (metis prod.collapse)
  obtain m c r' where m: "run_state rd r = ((m, c), r')" by (metis prod.collapse)
  show thesis
    by (rule that [OF h m]) (simp_all add: message_id_def body_def receive_def h m)
qed

text \<open>C15. A peer that has not shaken hands can do nothing but be refused: whatever it sends other than
  a complete hello of the right protocol version, the tables stay as they are, no other peer is sent
  anything, and the peer itself gets one rejection with the reason, a flush and a disconnect; a packet
  without a header is dropped silently.\<close>

theorem refused_before_handshake:
  assumes "map_of (players s) k = Some p" and "p_peer p = k" and "\<not> p_handshaked p" and "\<not> valid_hello bytes"
  shows "HandlePacket k bytes s =
    (case refusal bytes of
       None \<Rightarrow> s
     | Some reason \<Rightarrow> s\<lparr>out := out s @ [send_effect kReliable (reject_bytes reason) k, ENetHostFlush,
         ENetPeerDisconnectLater k]\<rparr>)"
proof -
  obtain i b r h c r' where x: "run_state ReadHeader (Reader_new bytes) = ((i, b), r)"
    "run_state HelloMsg_Read r = ((h, c), r')" "message_id bytes = (if b then Some i else None)"
    "body HelloMsg_Read bytes = (if b \<and> c then Some h else None)"
    by (rule packet_split [of bytes HelloMsg_Read])
  show ?thesis
    using assms by (simp add: HandlePacket_def FindPlayer_def HandleHello_cases x valid_hello_def refusal_def
        Kick_emits protocol_version_text) (auto simp: emits_def PROTOCOL_VERSION_def)
qed

definition fresh_peer :: Server where
  "fresh_peer = HandleConnect 9 (started Config_default (\<lambda>_. 0))"

lemma fresh_peer_player: "map_of (players fresh_peer) 9 = Some (Player_new 9)"
  by (simp add: fresh_peer_def HandleConnect_def started_def Start_def Server_new_def now_def emit_def
      Let_def put_player_def Player_new_def)

theorem refused_before_handshake_witness:
  "HandlePacket 9 [3, 0, 0] fresh_peer =
    fresh_peer\<lparr>out := out fresh_peer @ [send_effect kReliable (reject_bytes ''Expected handshake'') 9,
      ENetHostFlush, ENetPeerDisconnectLater 9]\<rparr>"
proof -
  have "\<not> valid_hello [3, 0, 0]" "refusal [3, 0, 0] = Some ''Expected handshake''"
    by (simp_all add: valid_hello_def refusal_def message_id_Cons kHello_def)
  then show ?thesis
    using refused_before_handshake [OF fresh_peer_player, of "[3, 0, 0]"] by (simp add: Player_new_def)
qed

section \<open>Relaying a state\<close>

lemma state_relay:
  assumes "good s" and "map_of (players s) k = Some p" and "p_handshaked p"
  shows "HandlePacket k (Encode kPlayerState PlayerStateMsg_Write \<lparr>psm_state = st\<rparr>) s =
    (if Plausible st
     then emits (map (send_effect kUnreliable (update_bytes (p_id p) (stamp s) st)) (audience (Some k) (players s)))
            ((put_player (p\<lparr>p_state := st, p_hasState := True\<rparr>) s)\<lparr>readings := Suc (readings s)\<rparr>)
     else s)"
proof -
  have k: "p_peer p = k" using good_player [OF assms(1,2)] by simp
  let ?b = "Encode kPlayerState PlayerStateMsg_Write \<lparr>psm_state = st\<rparr>"
  have head: "run_state ReadHeader (Reader_new ?b) =
      ((kPlayerState, True), at_bytes [kPlayerState] (buf (PlayerStateMsg_Write \<lparr>psm_state = st\<rparr> Writer_new)) [])"
    unfolding player_state_msg.Encode_image by (rule player_state_msg.header_Encode)
  have ids: "kPlayerState \<noteq> kHello" by (simp add: client_msg_ids)
  have aud: "audience (Some k) (players (put_player p' s)) = audience (Some k) (players s)" if "p_peer p' = k" for p'
  proof -
    have "filter (\<lambda>(j, q). p_handshaked q \<and> Some j \<noteq> Some k) (AList.update k p' ps) =
        filter (\<lambda>(j, q). p_handshaked q \<and> Some j \<noteq> Some k) ps" for ps
      by (induction ps) auto
    then show ?thesis using that by (simp add: audience_def put_player_def)
  qed
  have run: "run_state PlayerStateMsg_Read (at_bytes [kPlayerState] (buf (PlayerStateMsg_Write \<lparr>psm_state = st\<rparr> Writer_new)) []) =
      ((\<lparr>psm_state = st\<rparr>, True), at_bytes (kPlayerState # buf (PlayerStateMsg_Write \<lparr>psm_state = st\<rparr> Writer_new)) [] [])"
    by (rule player_state_msg.body_Encode)
  have st: "stamp (put_player p' s) = stamp s" "readings (put_player p' s) = readings s" for p'
    by (simp_all add: stamp_def put_player_def)
  have "HandlePacket k ?b s =
      HandlePlayerState p (at_bytes [kPlayerState] (buf (PlayerStateMsg_Write \<lparr>psm_state = st\<rparr> Writer_new)) []) s"
    unfolding HandlePacket_def FindPlayer_def head using assms(2,3) ids by simp
  then show ?thesis
    using k by (simp add: HandlePlayerState_def run NowMs_eq Broadcast_emits update_bytes_def [symmetric] aud st Let_def)
qed

text \<open>C16. A finite state of a player is stored and relayed unreliably, once, to every other handshaked
  player and never back to its sender, under the sender's id and with the server's time; a state with a
  NaN or an infinity changes nothing and reaches nobody.\<close>

theorem state_relayed_to_others:
  assumes "good s" and "map_of (players s) k = Some p" and "p_handshaked p"
    and "s' = HandlePacket k (Encode kPlayerState PlayerStateMsg_Write \<lparr>psm_state = st\<rparr>) s"
  shows "(if Plausible st then
      out s' = out s @ map (send_effect kUnreliable (update_bytes (p_id p) (stamp s) st)) (audience (Some k) (players s)) \<and>
      map_of (players s') k = Some (p\<lparr>p_state := st, p_hasState := True\<rparr>) \<and>
      (\<forall>j. j \<noteq> k \<longrightarrow> map_of (players s') j = map_of (players s) j)
    else s' = s) \<and>
    k \<notin> set (audience (Some k) (players s)) \<and> distinct (audience (Some k) (players s)) \<and>
    (\<forall>j q. j \<noteq> k \<and> map_of (players s) j = Some q \<and> p_handshaked q \<longrightarrow> j \<in> set (audience (Some k) (players s)))"
proof -
  have k: "p_peer p = k" using good_player [OF assms(1,2)] by simp
  show ?thesis
    using k srv_invD(1) [of s] assms(1) distinct_audience [of "players s" "Some k"]
    by (auto simp: assms(4) state_relay [OF assms(1-3)] good_def set_audience dest: map_of_SomeD)
qed

lemma demo_good: "good demo"
  unfolding demo_def by (rule good_run [OF demo_ids])

lemma default_plausible: "Plausible PlayerState_default"
  by (simp add: Plausible_def Finite_def PlayerState_default_def Vec3_default_def float_eval)

theorem state_relayed_to_others_witness:
  "\<exists>t. out (HandlePacket 7 (Encode kPlayerState PlayerStateMsg_Write \<lparr>psm_state = PlayerState_default\<rparr>) demo) =
     out demo @ map (send_effect kUnreliable (update_bytes 1 t PlayerState_default)) (audience (Some 7) (players demo))"
proof -
  obtain p where p: "map_of (players demo) 7 = Some p" "p_id p = 1" "p_handshaked p" using demo_Nora by blast
  show ?thesis
    using state_relayed_to_others [OF demo_good p(1,3) refl, of PlayerState_default] p(2) default_plausible by auto
qed

end
