(* ===== verification/F4_ClientRoster.thy ===== *)
theory F4_ClientRoster
  imports F4_ClientFacts F4_ServerSpec
begin

text \<open>
  The client's side of the session's specification. What a session shows of the others is
  its own id and the names by id; every packet it handles acts on that as the specification
  \<open>heard\<close> says, which is the roster's step plus what an early or a late state update can
  do. Together with the server's refinement this gives the agreement of the two ends.
\<close>

section \<open>What a session shows\<close>

definition faces :: "Session \<Rightarrow> roster" where
  "faces s = (s_myId s, \<lambda>i. map_option rp_name (map_of (r_players s) i))"

definition placeholder :: "PlayerId \<Rightarrow> string" where
  "placeholder i = CHR ''#'' # to_string (unat i)"

definition heard :: "u8 list \<Rightarrow> roster \<Rightarrow> roster" where
  "heard bytes v =
     (if message_id bytes = Some kWelcome then
        (case body WelcomeMsg_Read bytes of Some m \<Rightarrow> (welcome_id m, snd v) | None \<Rightarrow> v)
      else if message_id bytes = Some kPlayerStateUpdate then
        (case body PlayerStateUpdateMsg_Read bytes of
           Some m \<Rightarrow>
             if psu_id m \<noteq> fst v \<and> snd v (psu_id m) = None
             then (fst v, (snd v)(psu_id m \<mapsto> placeholder (psu_id m))) else v
         | None \<Rightarrow> v)
      else roster_step bytes v)"

lemma faces_calls:
  assumes "calls_only P s s'"
  shows "faces s' = faces s"
  using calls_only_parts [OF assms] by (simp add: faces_def)

lemma faces_same:
  "r_players s' = r_players s \<Longrightarrow> s_myId s' = s_myId s \<Longrightarrow> faces s' = faces s"
  by (simp add: faces_def)

lemma faces_Print [simp]: "faces (Print W text s) = faces s"
  by (rule faces_calls [OF calls_Print [of any_call]]) simp

lemma faces_Send [simp]: "faces (NetClient_Send ch bytes s) = faces s"
  by (rule faces_calls [OF calls_NetClient_Send [of any_call]]) simp

lemma faces_SendState [simp]: "faces (SendState W b s) = faces s"
proof -
  have "faces ((NetClient_Send ch bytes t)\<lparr>s_lastSent := st, s_hasLastSent := True, s_lastSend := u\<rparr>) = faces t"
    for ch bytes t st u
    using faces_Send [of ch bytes t] by (simp add: faces_def)
  moreover have "faces (s\<lparr>e_readings := n\<rparr>) = faces s" for n by (simp add: faces_def)
  ultimately show ?thesis
    by (simp add: SendState_def e_now_def Let_def split: option.split)
qed

lemma faces_put:
  "rp_name p = n \<Longrightarrow> faces (put_remote i p s) = (fst (faces s), (snd (faces s))(i \<mapsto> n))"
  by (auto simp: faces_def put_remote_def update_conv' fun_eq_iff)

lemma faces_Rename_base [simp]: "faces (RenameCloneBase b n s) = faces s"
  by (rule faces_calls [OF calls_RenameCloneBase [of any_call]]) simp

lemma faces_Identity [simp]: "faces (ApplyCloneIdentity r n b s) = faces s"
  by (rule faces_calls [OF calls_ApplyCloneIdentity [of _ any_call]]) simp

lemma faces_Add [simp]: "faces (RemotePlayers_Add i n s) = (fst (faces s), (snd (faces s))(i \<mapsto> n))"
  by (simp add: RemotePlayers_Add_def Let_def faces_put)

lemma faces_Rename [simp]: "faces (RemotePlayers_Rename W i n s) = (fst (faces s), (snd (faces s))(i \<mapsto> n))"
  by (simp add: RemotePlayers_Rename_def Let_def faces_put split: option.split)

lemma faces_Remove [simp]: "faces (RemotePlayers_Remove W i s) = (fst (faces s), (snd (faces s))(i := None))"
proof (cases "map_of (r_players s) i")
  case (Some p)
  have "calls_only any_call s (snd (Despawn W (rp_actor p) s))" using calls_Despawn [of W s _ any_call] by simp
  from calls_only_parts [OF this] show ?thesis using Some
    by (auto simp: RemotePlayers_Remove_def faces_def case_prod_beta Let_def delete_conv' fun_eq_iff)
qed (auto simp: RemotePlayers_Remove_def faces_def fun_eq_iff)

lemma NoteServerTime_parts [simp]:
  "r_players (NoteServerTime t s) = r_players s" "r_serverClock (NoteServerTime t s) = r_serverClock s"
  "s_myId (NoteServerTime t s') = s_myId s'"
  by (simp_all add: NoteServerTime_def LocalMs_def e_now_def Let_def)

lemma faces_ApplyState [simp]:
  "faces (RemotePlayers_ApplyState i st t s) =
    (if snd (faces s) i = None then (fst (faces s), (snd (faces s))(i \<mapsto> placeholder i)) else faces s)"
proof -
  obtain u where u: "u = (if map_of (r_players s) i = None then RemotePlayers_Add i (placeholder i) s else s)" by blast
  have fu: "faces u = (if snd (faces s) i = None then (fst (faces s), (snd (faces s))(i \<mapsto> placeholder i)) else faces s)"
    by (simp add: u faces_def [of s])
  obtain mss c where uw: "Unwrap t (r_serverClock u) = (mss, c)" by fastforce
  obtain v where v: "v = NoteServerTime mss (u\<lparr>r_serverClock := c\<rparr>)" by blast
  have fv: "faces v = faces u" by (simp add: v faces_def)
  have "faces (case map_of (r_players v) i of None \<Rightarrow> v
      | Some p \<Rightarrow> put_remote i (p\<lparr>rp_snapshots := push_snapshot \<lparr>ts_state = st, ts_timeMs = mss\<rparr> (rp_snapshots p)\<rparr>) v) = faces u"
  proof (cases "map_of (r_players v) i")
    case (Some p)
    have n: "snd (faces v) i = Some (rp_name p)" by (simp add: faces_def Some)
    have "faces (put_remote i (p\<lparr>rp_snapshots := x\<rparr>) v) = (fst (faces v), (snd (faces v))(i \<mapsto> rp_name p))" for x
      by (rule faces_put) simp
    then show ?thesis by (simp add: Some fun_upd_idem [of "snd (faces v)", OF n] fv [symmetric])
  qed (simp add: fv)
  then show ?thesis
    unfolding RemotePlayers_ApplyState_def placeholder_def [symmetric] Let_def u [symmetric] uw prod.case v [symmetric]
    by (simp only: fu)
qed

section \<open>A packet\<close>

lemma packet_faces: "faces (Session_HandlePacket W bytes s) = heard bytes (faces s)"
proof -
  have me: "s_myId s = fst (faces s)" by (simp add: faces_def)
  obtain i b r where h: "run_state ReadHeader (Reader_new bytes) = ((i, b), r)" by (metis prod.collapse)
  have mid: "message_id bytes = (if b then Some i else None)" by (simp add: message_id_def h)
  have bd: "body rd bytes = (let ((m, c), r') = run_state rd r in if b \<and> c then Some m else None)"
    for rd :: "(Reader, 'm \<times> bool) state"
    by (simp add: body_def receive_def h case_prod_beta Let_def)
  have wl: "faces (s\<lparr>s_myId := x, s_serverName := y, s_welcomed := z\<rparr>) = (x, snd (faces s))" for x y z
    by (simp add: faces_def)
  show ?thesis
    by (simp add: Session_HandlePacket_def h heard_def roster_step_def mid bd case_prod_beta Let_def server_msg_ids
        me wl cong: if_cong)
qed

text \<open>C18. Whatever bytes arrive, what the session shows afterwards is what the specification says: its own
  id from a welcome, a name from a join or a rename unless it is the session's own, no name after a
  leave, and a placeholder for an unknown player whose state arrives first; anything unreadable
  changes nothing.\<close>

theorem packet_changes_faces: "faces (Session_HandlePacket W bytes s) = heard bytes (faces s)"
  by (rule packet_faces)

section \<open>The two ends agree\<close>

definition is_update :: "u8 list \<Rightarrow> bool" where
  "is_update bytes = (message_id bytes = Some kPlayerStateUpdate)"

definition is_welcome :: "u8 list \<Rightarrow> bool" where
  "is_welcome bytes = (message_id bytes = Some kWelcome \<and> body WelcomeMsg_Read bytes \<noteq> None)"

text \<open>The messages from the last welcome on.\<close>

primrec since_welcome :: "u8 list list \<Rightarrow> u8 list list" where
  "since_welcome [] = []"
| "since_welcome (m # mss) =
     (if list_ex is_welcome mss then since_welcome mss else if is_welcome m then m # mss else [])"

definition session_packets :: "(World \<times> u8 list) list \<Rightarrow> Session \<Rightarrow> Session" where
  "session_packets ps s = fold (\<lambda>(W, bytes). Session_HandlePacket W bytes) ps s"

lemma faces_packets: "faces (session_packets ps s) = fold heard (map snd ps) (faces s)"
  unfolding session_packets_def
  by (induction ps arbitrary: s) (simp_all add: packet_faces case_prod_beta)

text \<open>The session shows what the roster says, and for anyone else at most a placeholder.\<close>

definition name_ok :: "PlayerId \<Rightarrow> string option \<Rightarrow> string option \<Rightarrow> bool" where
  "name_ok i x y = (case y of Some n \<Rightarrow> x = Some n | None \<Rightarrow> x = None \<or> x = Some (placeholder i))"

lemma name_ok_intros [simp]: "name_ok i x x" "name_ok i (Some (placeholder i)) None"
  by (simp_all add: name_ok_def split: option.split)

lemma name_ok_unknown: "name_ok i None y \<Longrightarrow> name_ok i (Some (placeholder i)) y"
  by (simp add: name_ok_def split: option.splits)

definition shows_roster :: "roster \<Rightarrow> roster \<Rightarrow> bool" where
  "shows_roster c v = (fst c = fst v \<and> (\<forall>i. name_ok i (snd c i) (snd v i)))"

definition only_placeholders :: "roster \<Rightarrow> bool" where
  "only_placeholders c = (\<forall>i. snd c i = None \<or> snd c i = Some (placeholder i))"

lemma message_ids_differ: "kWelcome \<noteq> kPlayerStateUpdate" "kPlayerStateUpdate \<noteq> kWelcome"
  by (simp_all add: server_msg_ids)

lemma roster_update: "is_update b \<Longrightarrow> roster_step b v = v"
  by (simp add: is_update_def roster_step_def server_msg_ids)

lemma heard_other: "\<not> is_update b \<Longrightarrow> \<not> is_welcome b \<Longrightarrow> heard b c = roster_step b c"
  by (auto simp: is_update_def is_welcome_def heard_def roster_step_def split: option.split)

lemma shows_update:
  assumes "is_update b" and "shows_roster c v"
  shows "shows_roster (heard b c) v"
proof (cases "body PlayerStateUpdateMsg_Read b")
  case (Some m)
  have "name_ok (psu_id m) (Some (placeholder (psu_id m))) (snd v (psu_id m))" if "snd c (psu_id m) = None"
    using assms(2) that unfolding shows_roster_def by (metis name_ok_unknown)
  then show ?thesis
    using assms Some by (simp add: is_update_def heard_def shows_roster_def message_ids_differ)
qed (use assms in \<open>simp add: is_update_def heard_def message_ids_differ\<close>)

lemma shows_other:
  assumes "\<not> is_update b" and "\<not> is_welcome b" and "shows_roster c v"
  shows "shows_roster (heard b c) (roster_step b v)"
proof -
  have "shows_roster (roster_step b c) (roster_step b v)"
    using assms(2,3) unfolding roster_step_def shows_roster_def is_welcome_def
    by (simp split: option.split)
  then show ?thesis by (simp add: heard_other [OF assms(1,2)])
qed

lemma shows_welcome:
  assumes "is_welcome b" and "only_placeholders c"
  shows "shows_roster (heard b c) (roster_step b v)"
proof -
  have "name_ok i (snd c i) None" for i
    using assms(2) unfolding only_placeholders_def by (metis name_ok_intros)
  then show ?thesis
    using assms(1) unfolding is_welcome_def heard_def roster_step_def shows_roster_def
    by (auto split: option.split)
qed

lemma only_placeholders_update: "is_update b \<Longrightarrow> only_placeholders c \<Longrightarrow> only_placeholders (heard b c)"
  by (auto simp: is_update_def heard_def only_placeholders_def message_ids_differ split: option.splits)

lemma shows_fold:
  assumes "filter (\<lambda>b. \<not> is_update b) ps = filter (\<lambda>b. \<not> is_update b) mss" and "\<not> list_ex is_welcome mss" and "shows_roster c v"
  shows "shows_roster (fold heard ps c) (fold roster_step mss v)"
proof -
  have mss: "fold roster_step mss v = fold roster_step (filter (\<lambda>b. \<not> is_update b) mss) v" for v
    by (induction mss arbitrary: v) (simp_all add: roster_update)
  have "shows_roster (fold heard ps c) (fold roster_step (filter (\<lambda>b. \<not> is_update b) ps) v)"
    if "\<forall>b \<in> set (filter (\<lambda>b. \<not> is_update b) ps). \<not> is_welcome b"
    using assms(3) that by (induction ps arbitrary: c v) (simp_all add: shows_update shows_other)
  moreover have "\<forall>b \<in> set (filter (\<lambda>b. \<not> is_update b) ps). \<not> is_welcome b"
    unfolding assms(1) using assms(2) by (auto simp: list_ex_iff)
  ultimately show ?thesis by (simp add: mss assms(1))
qed

lemma since_welcome_cases:
  assumes "list_ex is_welcome mss"
  obtains w rest where "since_welcome mss = w # rest" and "is_welcome w" and "\<not> list_ex is_welcome rest"
    and "\<And>v. fold roster_step mss v = fold roster_step (w # rest) v"
proof -
  have "\<exists>w rest. since_welcome mss = w # rest \<and> is_welcome w \<and> \<not> list_ex is_welcome rest \<and>
      (\<forall>v. fold roster_step mss v = fold roster_step (w # rest) v)"
    using assms
  proof (induction mss)
    case (Cons m mss)
    show ?case
    proof (cases "list_ex is_welcome mss")
      case True
      then obtain w rest where w: "since_welcome mss = w # rest" "is_welcome w" "\<not> list_ex is_welcome rest"
        "\<forall>v. fold roster_step mss v = fold roster_step (w # rest) v" using Cons.IH by blast
      have "roster_step w v = roster_step w u" for u v
        using w(2) by (auto simp: is_welcome_def roster_step_def split: option.splits)
      then have "fold roster_step (m # mss) v = fold roster_step (w # rest) v" for v
        using w(4) by (metis fold_simps(2))
      then show ?thesis using w(1-3) True by auto
    next
      case False
      then show ?thesis using Cons.prems by auto
    qed
  qed simp
  then show thesis using that by blast
qed

lemma welcomed_agree:
  assumes "list_ex is_welcome mss" and "only_placeholders c"
    and "filter (\<lambda>b. \<not> is_update b) ps = filter (\<lambda>b. \<not> is_update b) (since_welcome mss)"
  shows "shows_roster (fold heard ps c) (fold roster_step mss v)"
proof -
  obtain w rest where w: "since_welcome mss = w # rest" "is_welcome w" "\<not> list_ex is_welcome rest"
    "\<And>v. fold roster_step mss v = fold roster_step (w # rest) v" using since_welcome_cases [OF assms(1)] by blast
  have nu: "\<not> is_update w" using w(2) by (auto simp: is_welcome_def is_update_def server_msg_ids)
  have "shows_roster (fold heard ps c) (fold roster_step (w # rest) v)"
    using assms(2,3) unfolding w(1)
  proof (induction ps arbitrary: c)
    case (Cons b ps)
    show ?case
    proof (cases "is_update b")
      case True
      then show ?thesis using Cons by (simp add: only_placeholders_update)
    next
      case False
      then have "b = w" "filter (\<lambda>b. \<not> is_update b) ps = filter (\<lambda>b. \<not> is_update b) rest" using Cons.prems(2) nu by simp_all
      then show ?thesis using shows_fold [OF _ w(3) shows_welcome [OF w(2) Cons.prems(1)]] by simp
    qed
  qed (simp add: nu)
  then show ?thesis by (simp only: w(4))
qed

lemma no_welcome_id: "\<not> list_ex is_welcome mss \<Longrightarrow> fst (fold roster_step mss v) = fst v"
proof (induction mss arbitrary: v)
  case (Cons m mss)
  then have "fst (roster_step m v) = fst v"
    by (auto simp: is_welcome_def roster_step_def split: option.splits)
  then show ?case using Cons by simp
qed simp

end
