(* ===== verification/F4_Snapshots.thy ===== *)
theory F4_Snapshots
  imports F4_ClientRoster
begin

text \<open>
  The history of a remote player: which of the states the server sends are kept, on which
  times they are put, and that the ones thrown away again do not matter for what is shown.
\<close>

section \<open>Forgetting\<close>

lemma f64_add_finite_key:
  assumes "f64_isfinite a" and "f64_isfinite b"
  shows "f64_key (f64_add a b) = double.rkey (f64_value a + f64_value b)"
proof -
  obtain s m e s' m' e' where a: "decode double (unat a) = Fin s m e"
    and b: "decode double (unat b) = Fin s' m' e'"
    using assms f64_finite_decode by blast
  obtain t n k where w: "fp_add (Fin s m e) (Fin s' m' e') = Fin t n k"
    and v: "fp_value (Fin t n k) = f64_value a + f64_value b"
    using fp_add_value [of s m e s' m' e'] a b unfolding f64_value_def by metis
  show ?thesis
    unfolding f64_key_def f64_add_def f64_bin_def unat_f64_encode a b w double.fkey_encode v ..
qed

lemma f64_add_grows:
  assumes "f64_isfinite a" and "f64_isfinite b" and "0 \<le> f64_value b"
  shows "f64_key a \<le> f64_key (f64_add a b)"
proof -
  have "double.rkey (f64_value a) = f64_key a"
    using assms(1) by (simp add: f64_isfinite_def f64_value_def f64_key_def double.rkey_fp_value)
  then show ?thesis
    using double.rkey_mono [of "f64_value a" "f64_value a + f64_value b"] assms by (simp add: f64_add_finite_key)
qed

lemma keep_ms: "f64_isfinite SNAPSHOT_KEEP_MS" "0 \<le> f64_value SNAPSHOT_KEEP_MS"
  by (simp_all add: SNAPSHOT_KEEP_MS_def f64_value_def float_eval)

lemma SampleAt_drop:
  assumes "timeline (a # b # c # rest)" and "f64_lt (ms b) r"
  shows "SampleAt (a # b # c # rest) r = SampleAt (b # c # rest) r"
proof -
  have "f64_key (ms a) \<le> f64_key (ms b)"
    using assms(1) by (intro f64_of_int_mono) (simp add: timeline_def)
  then have "\<not> f64_le r (ms a)" "\<not> f64_le r (ms b)" using assms(2) by (auto simp: float_keys)
  then show ?thesis using assms(2) by (simp add: SampleAt_def Let_def)
qed

lemma forgotten_before:
  assumes "\<bar>ts_timeMs b\<bar> < 2 ^ 63" and "f64_lt (f64_add (ms b) SNAPSHOT_KEEP_MS) r" and "f64_le r r'"
  shows "f64_lt (ms b) r'"
proof -
  have "f64_isfinite (ms b)" using assms(1) by (auto intro: f64_of_int_finite)
  from f64_add_grows [OF this keep_ms] show ?thesis using assms(2,3) by (auto simp: float_keys)
qed

text \<open>C23. Forgetting is invisible: whatever is thrown away at one render time, the sample at that time and at
  every later one is, bit for bit, the one the full history gives.\<close>

theorem forgetting_is_invisible:
  assumes "timeline snapshots" and "f64_le r r'"
  shows "SampleAt (forget_history r snapshots) r' = SampleAt snapshots r'"
  using assms
proof (induction r snapshots rule: forget_history.induct)
  case (1 r a b c rest)
  show ?case
  proof (cases "f64_lt (f64_add (ms b) SNAPSHOT_KEEP_MS) r")
    case True
    then have "f64_lt (ms b) r'" using forgotten_before [of b r r'] 1 by (simp add: timeline_def)
    moreover have "timeline (b # c # rest)" using 1 by (simp add: timeline_def)
    ultimately show ?thesis using 1 True SampleAt_drop [OF "1.prems"(1)] by simp
  qed simp
qed simp_all

theorem forgetting_is_invisible_witness:
  "SampleAt (forget_history (f64_of_int 5000) (map (\<lambda>t. \<lparr>ts_state = PlayerState_default, ts_timeMs = t\<rparr>) [1000, 2000, 3000, 6000]))
     (f64_of_int 5000) =
   SampleAt (map (\<lambda>t. \<lparr>ts_state = PlayerState_default, ts_timeMs = t\<rparr>) [1000, 2000, 3000, 6000]) (f64_of_int 5000)"
  by (rule forgetting_is_invisible) (simp_all add: timeline_def float_eval)

section \<open>What is kept\<close>

text \<open>Of a list of timed states, those later than everything before them.\<close>

fun advances_from :: "int \<Rightarrow> TimedState list \<Rightarrow> TimedState list" where
  "advances_from t [] = []"
| "advances_from t (x # xs) = (if t < ts_timeMs x then x # advances_from (ts_timeMs x) xs else advances_from t xs)"

fun advances :: "TimedState list \<Rightarrow> TimedState list" where
  "advances [] = []"
| "advances (x # xs) = x # advances_from (ts_timeMs x) xs"

definition newest :: "nat \<Rightarrow> 'x list \<Rightarrow> 'x list" where
  "newest n xs = drop (length xs - n) xs"

lemma newest_snoc: "0 < n \<Longrightarrow> newest n (newest n xs @ [x]) = newest n (xs @ [x])"
  by (cases "n \<le> length xs") (auto simp: newest_def Suc_diff_le)

lemma newest_last: "0 < n \<Longrightarrow> xs \<noteq> [] \<Longrightarrow> newest n xs \<noteq> [] \<and> last (newest n xs) = last xs"
  using length_greater_0_conv [of xs] by (auto simp: newest_def last_drop simp del: length_greater_0_conv)

lemma advances_from_snoc:
  "advances_from t (xs @ [x]) =
    (if ts_timeMs x \<le> (if advances_from t xs = [] then t else ts_timeMs (last (advances_from t xs)))
     then advances_from t xs else advances_from t xs @ [x])"
  by (induction xs arbitrary: t) auto

lemma advances_snoc:
  "advances (xs @ [x]) =
    (if xs \<noteq> [] \<and> ts_timeMs x \<le> ts_timeMs (last (advances xs)) then advances xs else advances xs @ [x])"
  by (cases xs) (auto simp: advances_from_snoc)

lemma advances_Nil_iff: "advances xs = [] \<longleftrightarrow> xs = []"
  by (cases xs) auto

lemma pushes_advances: "fold push_snapshot xs [] = newest MAX_SNAPSHOTS (advances xs)"
proof (induction xs rule: rev_induct)
  case (snoc x xs)
  have "push_snapshot x (newest 64 (advances xs)) = newest 64 (advances (xs @ [x]))"
  proof (cases "xs = []")
    case False
    then have l: "newest 64 (advances xs) \<noteq> [] \<and> last (newest 64 (advances xs)) = last (advances xs)"
      by (intro newest_last) (simp_all add: advances_Nil_iff)
    have "push_snapshot x ys = (if ys \<noteq> [] \<and> ts_timeMs x \<le> ts_timeMs (last ys) then ys else newest 64 (ys @ [x]))"
      for ys by (simp add: push_snapshot_def newest_def MAX_SNAPSHOTS_def Let_def)
    then show ?thesis using False l by (simp add: advances_snoc newest_snoc)
  qed (simp add: push_snapshot_def newest_def MAX_SNAPSHOTS_def)
  then show ?case using snoc by (simp add: MAX_SNAPSHOTS_def)
qed (simp add: newest_def)

section \<open>From the server's clock to the history\<close>

definition shots :: "Session \<Rightarrow> PlayerId \<Rightarrow> TimedState list option" where
  "shots s i = map_option rp_snapshots (map_of (r_players s) i)"

definition kept :: "TimedState list option \<Rightarrow> TimedState list" where
  "kept x = (case x of None \<Rightarrow> [] | Some xs \<Rightarrow> xs)"

lemma Add_parts:
  "r_players (RemotePlayers_Add i n s) = AList.update i
      ((case map_of (r_players s) i of None \<Rightarrow> RemotePlayer_default | Some p \<Rightarrow> p)\<lparr>rp_id := i, rp_name := n\<rparr>) (r_players s)"
  "r_serverClock (RemotePlayers_Add i n s) = r_serverClock s" for s :: Session
  using calls_only_parts [OF calls_RenameCloneBase [of any_call]]
  by (simp_all add: RemotePlayers_Add_def Let_def) (simp_all add: put_remote_def)

lemma ApplyState_history:
  "r_serverClock (RemotePlayers_ApplyState i st t s) = snd (Unwrap t (r_serverClock s)) \<and>
   shots (RemotePlayers_ApplyState i st t s) =
     (shots s)(i \<mapsto> push_snapshot \<lparr>ts_state = st, ts_timeMs = fst (Unwrap t (r_serverClock s))\<rparr> (kept (shots s i)))"
proof -
  obtain u where u: "u = (if map_of (r_players s) i = None then RemotePlayers_Add i (CHR ''#'' # to_string (unat i)) s else s)"
    by blast
  obtain p where p: "map_of (r_players u) i = Some p" "rp_snapshots p = kept (shots s i)"
    by (cases "map_of (r_players s) i") (auto simp: u Add_parts update_conv' shots_def kept_def RemotePlayer_default_def)
  have clk: "r_serverClock u = r_serverClock s" by (simp add: u Add_parts)
  have other: "map_of (r_players u) j = map_of (r_players s) j" if "j \<noteq> i" for j
    using that by (simp add: u Add_parts update_conv')
  obtain mss c where uw: "Unwrap t (r_serverClock s) = (mss, c)" by fastforce
  obtain v where v: "v = NoteServerTime mss (u\<lparr>r_serverClock := c\<rparr>)" by blast
  have rp: "r_players v = r_players u" "r_serverClock v = c" by (simp_all add: v)
  have "RemotePlayers_ApplyState i st t s =
      put_remote i (p\<lparr>rp_snapshots := push_snapshot \<lparr>ts_state = st, ts_timeMs = mss\<rparr> (rp_snapshots p)\<rparr>) v"
    unfolding RemotePlayers_ApplyState_def Let_def u [symmetric] clk uw prod.case v [symmetric] rp p(1) option.case ..
  then show ?thesis
    using p(2) other by (auto simp: uw rp put_remote_def shots_def update_conv' fun_eq_iff)
qed

text \<open>The updates of one session, as the server made them: who, the state, and the server's time in
  milliseconds, not yet cut to 32 bits.\<close>

type_synonym update = "PlayerId \<times> PlayerState \<times> int"

definition apply_update :: "update \<Rightarrow> Session \<Rightarrow> Session" where
  "apply_update u s = (case u of (i, st, t) \<Rightarrow> RemotePlayers_ApplyState i st (word_of_int t) s)"

text \<open>The history of \<open>i\<close> when the client's time runs \<open>base\<close> ahead of the server's.\<close>

definition states_of :: "PlayerId \<Rightarrow> int \<Rightarrow> update list \<Rightarrow> TimedState list" where
  "states_of i base us =
     map (\<lambda>(j, st, t). \<lparr>ts_state = st, ts_timeMs = base + t\<rparr>) (filter (\<lambda>(j, st, t). j = i) us)"

lemma small_steps_snoc: "small_steps (xs @ [x, y]) \<longleftrightarrow> small_steps (xs @ [x]) \<and> \<bar>y - x\<bar> < 2 ^ 31"
  by (induction xs rule: small_steps.induct) auto

lemma updates_history:
  assumes "us \<noteq> []" and "small_steps (map (\<lambda>(i, st, t). t) us)"
    and "r_serverClock s = ServerClock_new" and "\<And>i. kept (shots s i) = []"
    and "base = uint (word_of_int t0 :: u32) - t0" and "(\<lambda>(i, st, t). t) (hd us) = t0"
  shows "r_serverClock (fold apply_update us s) =
      \<lparr>sc_started = True, sc_last = word_of_int ((\<lambda>(i, st, t). t) (last us)), sc_now = base + (\<lambda>(i, st, t). t) (last us)\<rparr> \<and>
    (\<forall>i. kept (shots (fold apply_update us s) i) = fold push_snapshot (states_of i base us) [] \<and>
      ((\<exists>st t. (i, st, t) \<in> set us) \<longrightarrow> shots (fold apply_update us s) i \<noteq> None))"
  using assms(1,2,6)
proof (induction us rule: rev_induct)
  case (snoc u us)
  obtain i st t where ui: "u = (i, st, t)" by (cases u)
  show ?case
  proof (cases "us = []")
    case True
    then show ?thesis
      using snoc.prems ui assms(3-5) ApplyState_history [of i st "word_of_int t" s]
      by (auto simp: apply_update_def Unwrap_def ServerClock_new_def states_of_def kept_def)
  next
    case False
    then obtain vs j sj tj where us: "us = vs @ [(j, sj, tj)]" by (metis rev_exhaust prod_cases3)
    have st: "small_steps (map (\<lambda>(i, st, t). t) us)" "\<bar>t - tj\<bar> < 2 ^ 31"
      using snoc.prems(2) small_steps_snoc [of "map (\<lambda>(i, st, t). t) vs" tj t] by (simp_all add: us ui)
    have h: "(\<lambda>(i, st, t). t) (hd us) = t0" using snoc.prems(3) False by simp
    have l: "last us = (j, sj, tj)" by (simp add: us)
    obtain v where v: "v = fold apply_update us s" by blast
    have IH: "r_serverClock v = \<lparr>sc_started = True, sc_last = word_of_int tj, sc_now = base + tj\<rparr>"
      "kept (shots v k) = fold push_snapshot (states_of k base us) []"
      "(k, sk, tk) \<in> set us \<Longrightarrow> shots v k \<noteq> None" for k sk tk
      using snoc.IH [OF False st(1) h, folded v] by (auto simp: l)
    have un: "Unwrap (word_of_int t) (r_serverClock v) =
        (base + t, \<lparr>sc_started = True, sc_last = word_of_int t, sc_now = base + t\<rparr>)"
      using sint_diff_stamp [OF st(2)] by (simp add: IH(1) Unwrap_def Let_def del: of_int_diff)
    have "states_of k base (us @ [u]) = states_of k base us @ (if k = i then [\<lparr>ts_state = st, ts_timeMs = base + t\<rparr>] else [])"
      for k by (simp add: states_of_def ui)
    moreover have "fold apply_update (us @ [u]) s = RemotePlayers_ApplyState i st (word_of_int t) v"
      by (simp add: ui v apply_update_def)
    moreover note ApplyState_history [of i st "word_of_int t" v, unfolded un fst_conv snd_conv IH(2)]
    moreover have "kept (Some xs) = xs" for xs by (simp add: kept_def)
    ultimately show ?thesis using IH(2,3) by (auto simp: ui)
  qed
qed simp

text \<open>C22. The histories follow the server: of what the server sends of each player, at any of its times and
  through any number of wrap-arounds of the 32-bit stamp, a client that starts without history keeps
  exactly the states newer than all that came before of that player, the last 64 of them, at the
  server's own distances in time; states that arrive out of order are dropped and change nothing, and
  no player's updates disturb another's.\<close>

theorem histories_follow_server:
  assumes "small_steps (map (\<lambda>(i, st, t). t) us)" and "us = (i0, st0, t0) # rest"
    and "r_serverClock s = ServerClock_new" and "r_players s = []"
    and "(i, st, t) \<in> set us"
  shows "\<exists>p. map_of (r_players (fold apply_update us s)) i = Some p \<and>
    rp_snapshots p = newest MAX_SNAPSHOTS (advances (states_of i (uint (word_of_int t0 :: u32) - t0) us))"
proof -
  have "kept (shots s j) = []" for j using assms(4) by (simp add: shots_def kept_def)
  from updates_history [OF _ assms(1,3) this refl]
  have "kept (shots (fold apply_update us s) i) = fold push_snapshot (states_of i (uint (word_of_int t0 :: u32) - t0) us) [] \<and>
      shots (fold apply_update us s) i \<noteq> None"
    using assms(2,5) by (simp only: list.distinct list.sel prod.case) blast
  then show ?thesis by (auto simp: pushes_advances shots_def kept_def)
qed

theorem histories_follow_server_witness:
  "\<exists>p. map_of (r_players (fold apply_update (map (\<lambda>t. (5, PlayerState_default, t)) [2 ^ 32 - 50, 2 ^ 32, 2 ^ 32 - 20, 2 ^ 32 + 50])
      (Session_new True (\<lambda>_. 0)))) 5 = Some p \<and> map ts_timeMs (rp_snapshots p) = [2 ^ 32 - 50, 2 ^ 32, 2 ^ 32 + 50]"
proof -
  let ?us = "map (\<lambda>t. (5 :: PlayerId, PlayerState_default, t)) [2 ^ 32 - 50, 2 ^ 32, 2 ^ 32 - 20, 2 ^ 32 + 50]"
  obtain p where "map_of (r_players (fold apply_update ?us (Session_new True (\<lambda>_. 0)))) 5 = Some p"
    "rp_snapshots p = newest MAX_SNAPSHOTS (advances (states_of 5 (uint (word_of_int (2 ^ 32 - 50) :: u32) - (2 ^ 32 - 50)) ?us))"
    using histories_follow_server [of ?us 5 PlayerState_default "2 ^ 32 - 50" _ "Session_new True (\<lambda>_. 0)" 5 PlayerState_default "2 ^ 32"]
    by (auto simp: Session_new_def)
  then show ?thesis by (simp add: states_of_def newest_def MAX_SNAPSHOTS_def)
qed

end
