(* ===== verification/F4_DemoWorld.thy ===== *)
theory F4_DemoWorld
  imports F4_Engine
begin

text \<open>The engine the examples of the client run in.\<close>

text \<open>A world with little in it: ENet works, there is a player \<open>20\<close> in cell \<open>5\<close>, the handle \<open>7\<close> leads to
  that player, and every other number is an actor of its own.\<close>

definition demo_world :: World where
  "demo_world =
     \<lparr>w_host_create = \<lambda>_. True, w_address = \<lambda>_. True, w_connect = \<lambda>_. Some 1, w_runtime = 0, w_version = ''0'',
      w_round_trip = \<lambda>_ _. 0, w_console = \<lambda>_. False, w_singleton = \<lambda>_. Some 20,
      w_cell = \<lambda>_ _. Some \<lparr>cell_form = 5, cell_interior = True, cell_world = None\<rparr>, w_base = \<lambda>_ _. None,
      w_full_name = \<lambda>_ _. None, w_get = \<lambda>_ n. Some (if n = 7 then 20 else n), w_is_actor = \<lambda>_ _. True,
      w_npc_form = \<lambda>_ _. Some 1, w_duplicate = \<lambda>_. None, w_data_handler = \<lambda>_. True, w_cell_exists = \<lambda>_ _. True,
      w_world_exists = \<lambda>_ _. True, w_created = \<lambda>_. Some 30, w_process = \<lambda>_ _. True, w_in_combat = \<lambda>_ _. False,
      w_alpha = \<lambda>_ _. 0, w_position = \<lambda>_ _. Vec3_default, w_angle = \<lambda>_ _. 0, w_sneaking = \<lambda>_ _. False,
      w_weapon_drawn = \<lambda>_ _. False, w_dead = \<lambda>_ _. False, w_sprinting = \<lambda>_ _. False, w_health_value = \<lambda>_. False,
      w_health = \<lambda>_ _. 0, w_base_health = \<lambda>_ _. 0, w_graph_float = \<lambda>_ _ _. False, w_graph_bool = \<lambda>_ _ _. False,
      w_stage = \<lambda>_ _. None, w_ui = \<lambda>_. False, w_menu_open = \<lambda>_ _. None, w_ui_queue = \<lambda>_. False,
      w_message_manager = \<lambda>_. False, w_vm = \<lambda>_. False, w_3d_loaded = \<lambda>_ _. True, w_sex = \<lambda>_ _. kMale,
      w_input_layers = \<lambda>_. None, w_graph_int = \<lambda>_ _ _. False, w_float_out = \<lambda>_ _ _. None,
      w_int_out = \<lambda>_ _ _. None, w_bool_out = \<lambda>_ _ _. None,
      w_base_facts = \<lambda>_ _. \<lparr>bf_form = 7, bf_heads = 0, bf_skin = None, bf_sex = 0\<rparr>,
      w_actor_facts = \<lambda>_ _. \<lparr>af_form = 0, af_node_flags = None, af_ghost = False, af_disabled = False,
        af_boolFlags = 0, af_formFlags = 0, af_process_level = None, af_niFlags = 0, af_inGameFormFlags = 0,
        af_lifeState = 0, af_weaponState = 0, af_sneaking = 0, af_sprinting = 0, af_sitSleepState = 0\<rparr>,
      w_console_function = \<lambda>_ _. True\<rparr>"

end
