(* ===== verification/F4_SkipFacts.thy ===== *)
theory F4_SkipFacts
  imports F4_ClientFacts F4_DemoWorld
begin

text \<open>
  The prologue skip: which commands a frame runs, and that the state machine, whatever the
  engine answers, cannot stop half-way as long as the game lets it.
\<close>

section \<open>The commands of a frame\<close>

definition is_wait :: "string \<Rightarrow> bool" where
  "is_wait cmd = StartsWithIgnoreCase cmd ''wait ''"

definition wait_of :: "string \<Rightarrow> int" where
  "wait_of cmd =
     Seconds (case from_chars_float single (drop 5 cmd) of (Some b, _) \<Rightarrow> word_of_nat b | (None, _) \<Rightarrow> f32_lit 1 1)"

definition commands :: "'a PrologueSkip_scheme \<Rightarrow> string list" where
  "commands s = set_commands (k_settings s)"

definition pending :: "'a PrologueSkip_scheme \<Rightarrow> string list" where
  "pending s = drop (k_next s) (commands s)"

lemma pending_Nil: "pending s = [] \<longleftrightarrow> length (commands s) \<le> k_next s"
  by (simp add: pending_def)

lemma RunNextCommand_cases:
  "pending s = [] \<Longrightarrow> RunNextCommand s =
     (False, s\<lparr>e_readings := Suc (e_readings s), k_stateSince := e_clock s (e_readings s),
       k_state := (if set_chargen (k_settings s) then kWaitForPod else kDone)\<rparr>)"
  "pending s = cmd # rest \<Longrightarrow> RunNextCommand s =
     (if is_wait cmd
      then (False, s\<lparr>k_next := Suc (k_next s), e_readings := Suc (e_readings s),
        k_waitUntil := e_clock s (e_readings s) + wait_of cmd\<rparr>)
      else (True, do_call (Ui (RunCommand cmd)) (s\<lparr>k_next := Suc (k_next s)\<rparr>)))"
proof -
  assume "pending s = []"
  then show "RunNextCommand s =
     (False, s\<lparr>e_readings := Suc (e_readings s), k_stateSince := e_clock s (e_readings s),
       k_state := (if set_chargen (k_settings s) then kWaitForPod else kDone)\<rparr>)"
    by (simp add: pending_Nil commands_def RunNextCommand_def e_now_def Finish_def Let_def)
next
  assume p: "pending s = cmd # rest"
  have "k_next s < length (set_commands (k_settings s))"
    using p pending_Nil [of s] by (simp add: commands_def)
  moreover have "set_commands (k_settings s) ! k_next s = cmd"
    using p by (simp add: pending_def commands_def nth_via_drop)
  moreover note p
  ultimately show "RunNextCommand s =
     (if is_wait cmd
      then (False, s\<lparr>k_next := Suc (k_next s), e_readings := Suc (e_readings s),
        k_waitUntil := e_clock s (e_readings s) + wait_of cmd\<rparr>)
      else (True, do_call (Ui (RunCommand cmd)) (s\<lparr>k_next := Suc (k_next s)\<rparr>)))"
    by (simp add: RunNextCommand_def is_wait_def wait_of_def e_now_def Let_def)
qed

lemma pending_next:
  "pending s = cmd # rest \<Longrightarrow> pending (do_call c (s\<lparr>k_next := Suc (k_next s)\<rparr>)) = rest"
  by (simp add: pending_def commands_def do_call_def) (metis drop_Suc list.sel(3) tl_drop)

lemma run_commands_frame:
  assumes "k_state s = kRunning" and "now_cmds = takeWhile (\<lambda>c. \<not> is_wait c) (pending s)"
    and "later = dropWhile (\<lambda>c. \<not> is_wait c) (pending s)" and "s' = run_commands s"
  shows "e_calls s' = e_calls s @ map (\<lambda>c. Ui (RunCommand c)) now_cmds \<and>
    (case later of
       [] \<Rightarrow> k_state s' = (if set_chargen (k_settings s) then kWaitForPod else kDone) \<and>
         k_stateSince s' = e_clock s (e_readings s)
     | w # rest \<Rightarrow> k_state s' = kRunning \<and> pending s' = rest \<and> k_waitUntil s' = e_clock s (e_readings s) + wait_of w)"
  using assms
proof (induction "pending s" arbitrary: s now_cmds)
  case Nil
  then show ?case by (simp add: run_commands.simps [of s] RunNextCommand_cases(1))
next
  case (Cons cmd rest)
  note p = Cons.hyps(2) [symmetric]
  show ?case
  proof (cases "is_wait cmd")
    case True
    then show ?thesis using Cons.prems p
      by (simp add: run_commands.simps [of s] RunNextCommand_cases(2) [OF p] pending_def commands_def)
        (metis drop_Suc list.sel(3) tl_drop)
  next
    case False
    let ?t = "do_call (Ui (RunCommand cmd)) (s\<lparr>k_next := Suc (k_next s)\<rparr>)"
    have t: "pending ?t = rest" by (rule pending_next [OF p])
    have f: "k_state ?t = kRunning" "k_settings ?t = k_settings s" "e_clock ?t = e_clock s" "e_readings ?t = e_readings s"
      "e_calls ?t = e_calls s @ [Ui (RunCommand cmd)]"
      using Cons.prems(1) by (simp_all add: do_call_def)
    have r: "run_commands s = run_commands ?t"
      using Cons.prems(1) False by (simp add: run_commands.simps [of s] RunNextCommand_cases(2) [OF p])
    have l: "later = dropWhile (\<lambda>c. \<not> is_wait c) rest" and n: "now_cmds = cmd # takeWhile (\<lambda>c. \<not> is_wait c) rest"
      using Cons.prems(2,3) False by (simp_all add: p)
    show ?thesis
      using Cons.hyps(1) [OF t [symmetric] f(1) refl, unfolded t f, OF l Cons.prems(4) [unfolded r]]
      by (simp add: n)
  qed
qed

text \<open>C29. A frame of the running skip executes exactly the commands from the next one up to the next wait,
  each once and in order, and nothing else: at a wait it stores when to go on, and after the last
  command it waits for the pod, or is done when no character is to be made.\<close>

theorem frame_runs_commands:
  assumes "k_state s = kRunning" and "now_cmds = takeWhile (\<lambda>c. \<not> is_wait c) (pending s)"
    and "later = dropWhile (\<lambda>c. \<not> is_wait c) (pending s)" and "s' = run_commands s"
  shows "e_calls s' = e_calls s @ map (\<lambda>c. Ui (RunCommand c)) now_cmds \<and>
    (case later of
       [] \<Rightarrow> k_state s' = (if set_chargen (k_settings s) then kWaitForPod else kDone) \<and>
         k_stateSince s' = e_clock s (e_readings s)
     | w # rest \<Rightarrow> k_state s' = kRunning \<and> pending s' = rest \<and> k_waitUntil s' = e_clock s (e_readings s) + wait_of w)"
  by (rule run_commands_frame [OF assms])

definition demo_running :: Session where
  "demo_running = (Session_new True (\<lambda>_. 0))\<lparr>k_state := kRunning,
     k_settings := Settings_default\<lparr>set_commands := [''tgm'', ''WAIT x'', ''tcl'']\<rparr>\<rparr>"

theorem frame_runs_commands_witness:
  "e_calls (run_commands demo_running) = [Ui (RunCommand ''tgm'')] \<and> pending (run_commands demo_running) = [''tcl'']"
proof -
  have p: "pending demo_running = [''tgm'', ''WAIT x'', ''tcl'']" "k_state demo_running = kRunning" "e_calls demo_running = []"
    by (simp_all add: demo_running_def pending_def commands_def Session_new_def)
  have w: "is_wait ''WAIT x''" "\<not> is_wait ''tgm''"
    by (code_simp, code_simp)
  show ?thesis using frame_runs_commands [OF p(2) refl refl refl] p w by simp
qed

section \<open>The skip ends\<close>

text \<open>How many steps are left at most.\<close>

definition skip_left :: "'a PrologueSkip_scheme \<Rightarrow> nat" where
  "skip_left s =
     (case k_state s of
        kIdle \<Rightarrow> 0
      | kDone \<Rightarrow> 0
      | kSpecialMenu \<Rightarrow> 1
      | kFaceMenu \<Rightarrow> 2
      | kWaitForPod \<Rightarrow> 3
      | kRunning \<Rightarrow> 4 + length (pending s)
      | kSexChoice \<Rightarrow> length (commands s) + (if k_sexChanged s then 5 else 6)
      | kArmed \<Rightarrow> length (commands s) + (if k_questStartedAt s = 0 then 8 else 7))"

text \<open>The time of a frame is past everything the skip waits for, and the game lets it go on: there is a
  player, whose body is loaded, and no menu is open.\<close>

definition past_deadlines :: "int \<Rightarrow> 'a PrologueSkip_scheme \<Rightarrow> bool" where
  "past_deadlines t s =
     (0 < t \<and> k_armedAt s + Seconds QUEST_START_FALLBACK \<le> t \<and>
      (k_questStartedAt s \<noteq> 0 \<longrightarrow> k_questStartedAt s + Seconds (set_startDelay (k_settings s)) \<le> t) \<and>
      k_waitUntil s \<le> t \<and> k_stateSince s + Seconds (set_podTimeout (k_settings s)) < t \<and>
      k_stateSince s + Seconds MENU_GRACE \<le> t)"

definition unhindered :: "World \<Rightarrow> 'a PrologueSkip_scheme \<Rightarrow> bool" where
  "unhindered W s =
     (past_deadlines (e_clock s (e_readings s)) s \<and> GetPlayer W (e_calls s) \<noteq> None \<and>
      (\<forall>player. w_singleton W (e_calls s) = Some player \<longrightarrow> w_3d_loaded W (e_calls s) player) \<and>
      \<not> IsMenuOpen W (e_calls s) LOOKS_MENU \<and> \<not> IsMenuOpen W (e_calls s) SPECIAL_MENU)"

lemma pending_length: "length (pending s) \<le> length (commands s)"
  by (simp add: pending_def)

lemma left_ends:
  "skip_left (Finish s) = 0" "skip_left (BeginCommands s) = length (commands s) + 4"
  "commands (BeginCommands s) = commands s"
  by (simp_all add: skip_left_def Finish_def BeginCommands_def e_now_def pending_def commands_def Let_def)

lemma left_AskSex: "skip_left (AskSex W s) \<le> length (commands s) + 6"
  by (simp add: AskSex_def left_ends Let_def) (simp add: skip_left_def commands_def e_now_def do_call_def)

lemma commands_same: "k_settings s' = k_settings s \<Longrightarrow> commands s' = commands s"
  by (simp add: commands_def)

lemma left_Start: "skip_left (Skip_Start W s) \<le> length (commands s) + 6"
proof -
  obtain u where u: "u = ConsolePrint W ''[F4MP] Skipping the prologue...'' s" by blast
  obtain v where v: "v = (if IsMenuOpen W (e_calls u) LOOKS_MENU \<and> w_ui_queue W (e_calls u)
      then do_call (Ui (HideMenu LOOKS_MENU)) u else u)" by blast
  have c: "commands v = commands s" by (simp add: v u commands_def ConsolePrint_def do_call_def)
  have "skip_left (AskSex W v) \<le> length (commands s) + 6" "skip_left (BeginCommands v) \<le> length (commands s) + 6"
    using left_AskSex [of W v] by (simp_all add: left_ends c)
  then show ?thesis
    unfolding Skip_Start_def u [symmetric] v [symmetric] Let_def by (simp add: left_ends)
qed

lemma left_state:
  "k_state s = kDone \<Longrightarrow> skip_left s = 0" "k_state s = kWaitForPod \<Longrightarrow> skip_left s = 3"
  "k_state s = kRunning \<Longrightarrow> skip_left s = 4 + length (pending s)"
  "k_state s = kSexChoice \<Longrightarrow> skip_left s = length (commands s) + (if k_sexChanged s then 5 else 6)"
  "k_state s = kArmed \<Longrightarrow> skip_left s = length (commands s) + (if k_questStartedAt s = 0 then 8 else 7)"
  by (simp_all add: skip_left_def)

lemma left_run_commands:
  assumes "k_state s = kRunning"
  shows "skip_left (run_commands s) < skip_left s"
proof (cases "dropWhile (\<lambda>c. \<not> is_wait c) (pending s)")
  case Nil
  then have "k_state (run_commands s) = (if set_chargen (k_settings s) then kWaitForPod else kDone)"
    using run_commands_frame [OF assms refl refl refl, unfolded Nil] by simp
  then show ?thesis
    using left_state(1,2) [of "run_commands s"] by (simp add: left_state(3) [OF assms] split: if_splits)
next
  case (Cons w rest)
  then have "length (w # rest) \<le> length (pending s)" by (metis length_dropWhile_le)
  moreover have "k_state (run_commands s) = kRunning" "pending (run_commands s) = rest"
    using run_commands_frame [OF assms refl refl refl] Cons by simp_all
  ultimately show ?thesis by (simp add: left_state(3) assms)
qed

lemma skip_left_same:
  "k_state s' = k_state s \<Longrightarrow> k_settings s' = k_settings s \<Longrightarrow> k_next s' = k_next s \<Longrightarrow>
    k_sexChanged s' = k_sexChanged s \<Longrightarrow> k_questStartedAt s' = k_questStartedAt s \<Longrightarrow> skip_left s' = skip_left s"
  unfolding skip_left_def pending_def commands_def by (simp only:)

text \<open>What a frame at time \<open>t\<close> does in each state.\<close>

lemma left_armed:
  assumes "k_state s = kArmed" and "past_deadlines t s" and "GetPlayer W (e_calls s) \<noteq> None"
  shows "skip_left (update_armed W t s) < skip_left s"
proof -
  obtain v where v: "v = (if MQ101_STARTED \<le> StageOf W (e_calls s) MQ101_ID then s else s\<lparr>k_loggedWaiting := True\<rparr>)"
    by blast
  have fv: "k_questStartedAt v = k_questStartedAt s" "k_armedAt v = k_armedAt s" "k_settings v = k_settings s" "k_state v = kArmed"
    using assms(1) by (simp_all add: v)
  obtain w where w: "w = (if k_questStartedAt v = 0 then v\<lparr>k_questStartedAt := t\<rparr> else v)" by blast
  have fw: "k_questStartedAt w = (if k_questStartedAt s = 0 then t else k_questStartedAt s)" "commands w = commands s"
    "k_state w = kArmed" "k_settings w = k_settings s"
    by (simp_all add: w fv commands_def)
  obtain player where pl: "GetPlayer W (e_calls s) = Some player" using assms(3) by blast
  have "update_armed W t s = (if t - k_questStartedAt w < Seconds (set_startDelay (k_settings w)) then w else Skip_Start W w)"
    using assms(2) pl unfolding update_armed_def v [symmetric] Let_def fv w [symmetric]
    by (simp add: past_deadlines_def w [symmetric, unfolded fv])
  then show ?thesis
    using left_Start [of W w] left_state(5) [of s] left_state(5) [of w] assms(1,2) fw
    by (auto simp: past_deadlines_def)
qed

lemma left_sex_choice:
  assumes "k_state s = kSexChoice" and "past_deadlines t s"
    and "\<forall>player. w_singleton W (e_calls s) = Some player \<longrightarrow> w_3d_loaded W (e_calls s) player"
  shows "skip_left (update_sex_choice W t s) < skip_left s"
proof -
  have b: "skip_left (BeginCommands s) < skip_left s" by (simp add: left_ends) (simp add: skip_left_def assms(1))
  have c: "ApplySexChoice W i s = BeginCommands s \<or>
      (\<not> k_sexChanged s \<and> k_state (ApplySexChoice W i s) = kSexChoice \<and> k_sexChanged (ApplySexChoice W i s) \<and>
       commands (ApplySexChoice W i s) = commands s)" for i
    using assms(1) by (simp add: ApplySexChoice_def e_now_def do_call_def commands_def Let_def)
  have "skip_left (ApplySexChoice W i s) < skip_left s" for i
    using c [of i] b left_state(4) [of s] left_state(4) [of "ApplySexChoice W i s"] assms(1) by (elim disjE) simp_all
  then show ?thesis using b assms(2,3) by (auto simp: update_sex_choice_def past_deadlines_def split: option.splits)
qed

lemma left_menus:
  "k_state s = kWaitForPod \<Longrightarrow> past_deadlines t s \<Longrightarrow> skip_left (update_wait_for_pod W t s) < skip_left s"
  "k_state s = kFaceMenu \<Longrightarrow> past_deadlines t s \<Longrightarrow> \<not> IsMenuOpen W (e_calls s) LOOKS_MENU \<Longrightarrow>
    skip_left (update_face_menu W t s) < skip_left s"
  "k_state s = kSpecialMenu \<Longrightarrow> past_deadlines t s \<Longrightarrow> \<not> IsMenuOpen W (e_calls s) SPECIAL_MENU \<Longrightarrow>
    skip_left (update_special_menu W t s) < skip_left s"
  by (auto simp: update_wait_for_pod_def update_face_menu_def update_special_menu_def past_deadlines_def
      OpenFaceMenu_def Finish_def skip_left_def e_now_def do_call_def Let_def split: option.split)

lemma ready_frame:
  assumes "IsActive s" and "unhindered W s"
  shows "skip_left (Skip_Update W s) < skip_left s"
proof -
  obtain t u where e: "e_now s = (t, u)" by fastforce
  then have tu: "t = e_clock s (e_readings s)" "u = s\<lparr>e_readings := Suc (e_readings s)\<rparr>" by (simp_all add: e_now_def)
  have same: "skip_left u = skip_left s" by (rule skip_left_same) (simp_all add: tu)
  have f: "k_state u = k_state s" "e_calls u = e_calls s" "past_deadlines t u"
    using assms(2) by (simp_all add: tu unhindered_def past_deadlines_def)
  have w: "k_waitUntil u \<le> t" using f(3) by (simp add: past_deadlines_def)
  show ?thesis
    unfolding same [symmetric] using assms f w left_run_commands [of u] left_armed [of u t W] left_sex_choice [of u t W]
      left_menus [of u t W]
    by (cases "k_state s") (simp_all add: Skip_Update_def e IsActive_def unhindered_def)
qed

primrec skip_frames :: "World list \<Rightarrow> 'a PrologueSkip_scheme \<Rightarrow> 'a PrologueSkip_scheme" where
  "skip_frames [] s = s"
| "skip_frames (W # Ws) s = skip_frames Ws (Skip_Update W s)"

primrec all_unhindered :: "World list \<Rightarrow> 'a PrologueSkip_scheme \<Rightarrow> bool" where
  "all_unhindered [] s = True"
| "all_unhindered (W # Ws) s = ((IsActive s \<longrightarrow> unhindered W s) \<and> all_unhindered Ws (Skip_Update W s))"

lemma inactive_stays: "\<not> IsActive s \<Longrightarrow> \<not> IsActive (Skip_Update W s)"
  by (cases "k_state s") (simp_all add: IsActive_def Skip_Update_def e_now_def Let_def)

lemma inactive_frames: "\<not> IsActive s \<Longrightarrow> \<not> IsActive (skip_frames Ws s)"
  by (induction Ws arbitrary: s) (simp_all add: inactive_stays)

lemma inactive_unhindered: "\<not> IsActive s \<Longrightarrow> all_unhindered Ws s"
  by (induction Ws arbitrary: s) (simp_all add: inactive_stays)

text \<open>C28. The skip ends: whatever stages, forms, menus and message boxes the engine reports, from any state
  and whatever it was set to, once it has had as many frames with their deadlines behind them and nothing
  of the game in its way as it has steps left (at most eight more than there are commands), it is over.\<close>

theorem skip_ends:
  assumes "all_unhindered Ws s" and "skip_left s \<le> length Ws"
  shows "\<not> IsActive (skip_frames Ws s) \<and> skip_left s \<le> length (commands s) + 8"
proof -
  have "\<not> IsActive (skip_frames Ws s)"
    using assms
  proof (induction Ws arbitrary: s)
    case Nil
    then show ?case by (cases "k_state s") (auto simp: skip_left_def IsActive_def split: if_splits)
  next
    case (Cons W Ws)
    show ?case
    proof (cases "IsActive s")
      case True
      then have "skip_left (Skip_Update W s) \<le> length Ws" using ready_frame [of s W] Cons.prems by simp
      then show ?thesis using Cons by simp
    qed (simp add: inactive_stays inactive_frames)
  qed
  then show ?thesis using pending_length [of s] by (simp add: skip_left_def split: SkipState.split)
qed

text \<open>A running skip with one command left and no character to make.\<close>

definition demo_skip :: Session where
  "demo_skip = (Session_new True (\<lambda>n. (int n + 1) * 10 ^ 12))\<lparr>k_state := kRunning,
     k_settings := Settings_default\<lparr>set_commands := [''tgm''], set_chargen := False\<rparr>\<rparr>"

lemma demo_skip_unhindered: "all_unhindered (replicate 5 demo_world) demo_skip"
proof -
  have n: "\<not> is_wait ''tgm''" by code_simp
  have one: "unhindered demo_world demo_skip"
    by (simp add: demo_skip_def unhindered_def past_deadlines_def Session_new_def Settings_default_def demo_world_def
        QUEST_START_FALLBACK_def MENU_GRACE_def Seconds_def i64_of_f32_def GetPlayer_def IsMenuOpen_def float_eval)
  obtain u where u: "u = demo_skip\<lparr>e_readings := 1\<rparr>" by blast
  have "pending u = [''tgm'']" "k_state u = kRunning" "\<not> set_chargen (k_settings u)"
    by (simp_all add: u demo_skip_def pending_def commands_def Session_new_def)
  then have "k_state (run_commands u) = kDone"
    using run_commands_frame [OF _ refl refl refl, of u] n by simp
  moreover have "Skip_Update demo_world demo_skip = run_commands u"
    by (simp add: Skip_Update_def e_now_def u demo_skip_def Session_new_def)
  ultimately have "\<not> IsActive (Skip_Update demo_world demo_skip)" by (simp add: IsActive_def)
  then show ?thesis using one by (simp add: numeral_eq_Suc inactive_unhindered inactive_stays)
qed

theorem skip_ends_witness: "\<not> IsActive (skip_frames (replicate 5 demo_world) demo_skip)"
proof -
  have "skip_left demo_skip = 5"
    by (simp add: demo_skip_def skip_left_def pending_def commands_def Session_new_def)
  then show ?thesis using skip_ends [OF demo_skip_unhindered] by simp
qed

end
