(* ===== verification/F4_Chat.thy ===== *)
theory F4_Chat
  imports F4_ServerSpec
begin

text \<open>
  Chat: what a line of chat makes the server do on every branch, and how many lines of one
  player it lets through. The gate is the window start and the count that the code keeps in
  the player.
\<close>

section \<open>The gate\<close>

definition chat_gate :: "int \<Rightarrow> int \<times> u32 \<Rightarrow> bool \<times> int \<times> u32" where
  "chat_gate t g =
     (let (start, n) = (if CHAT_WINDOW \<le> t - fst g then (t, 0) else g)
      in (n + 1 \<le> CHAT_BURST, start, n + 1))"

primrec gate_times :: "int list \<Rightarrow> int \<times> u32 \<Rightarrow> int list" where
  "gate_times [] g = []"
| "gate_times (t # ts) g =
     (let (pass, g') = chat_gate t g in (if pass then [t] else []) @ gate_times ts g')"

text \<open>How many of some times fall into the window of five seconds that begins at \<open>x\<close>.\<close>

definition lines_in :: "int \<Rightarrow> int list \<Rightarrow> nat" where
  "lines_in x ts = length (filter (\<lambda>t. x \<le> t \<and> t < x + CHAT_WINDOW) ts)"

lemma lines_in_simps [simp]:
  "lines_in x [] = 0" "lines_in x (as @ bs) = lines_in x as + lines_in x bs"
  "lines_in x (t # ts) = (if x \<le> t \<and> t < x + CHAT_WINDOW then 1 else 0) + lines_in x ts"
  by (simp_all add: lines_in_def)

lemma set_gate_times: "set (gate_times ts g) \<subseteq> set ts"
  by (induction ts arbitrary: g) (auto simp: Let_def split: prod.split)

lemma lines_in_zero: "\<forall>t \<in> set ts. \<not> (x \<le> t \<and> t < x + CHAT_WINDOW) \<Longrightarrow> lines_in x ts = 0"
  by (simp add: lines_in_def filter_empty_conv)

lemma gate_times_bound:
  assumes "sorted ts" and "\<forall>t \<in> set ts. fst g \<le> t" and "unat (snd g) + length ts < 2 ^ 32"
  shows "(x \<le> fst g \<longrightarrow> lines_in x (gate_times ts g) \<le> 6 - unat (snd g)) \<and>
    (x < fst g + CHAT_WINDOW \<longrightarrow> lines_in x (gate_times ts g) \<le> (6 - unat (snd g)) + 6) \<and>
    lines_in x (gate_times ts g) \<le> 12"
  using assms
proof (induction ts arbitrary: g)
  case (Cons t ts)
  obtain start n where g: "g = (start, n)" by fastforce
  have t: "sorted ts" "\<forall>u \<in> set ts. t \<le> u" "start \<le> t" using Cons.prems g by auto
  have W: "0 < CHAT_WINDOW" by (simp add: CHAT_WINDOW_def)
  show ?case
  proof (cases "CHAT_WINDOW \<le> t - start")
    case True
    then have r: "gate_times (t # ts) g = t # gate_times ts (t, 1)"
      by (simp add: chat_gate_def g CHAT_BURST_def word_le_nat_alt)
    have IH: "(x \<le> t \<longrightarrow> lines_in x (gate_times ts (t, 1)) \<le> 5) \<and>
        (x < t + CHAT_WINDOW \<longrightarrow> lines_in x (gate_times ts (t, 1)) \<le> 11) \<and> lines_in x (gate_times ts (t, 1)) \<le> 12"
      using Cons.IH [of "(t, 1)"] t Cons.prems(3) by simp
    have "lines_in x (gate_times ts (t, 1)) = 0" if "x \<le> start"
      using that True t set_gate_times [of ts "(t, 1)"] by (intro lines_in_zero) fastforce
    then show ?thesis using IH True W unfolding r by (auto simp: g)
  next
    case False
    have n: "unat (n + 1) = unat n + 1" using Cons.prems(3) by (simp add: g unat_word_ariths)
    then have acc: "n + 1 \<le> CHAT_BURST \<longleftrightarrow> unat n < 6" by (simp add: CHAT_BURST_def word_le_nat_alt) arith
    have r: "gate_times (t # ts) g = (if unat n < 6 then [t] else []) @ gate_times ts (start, n + 1)"
      using False by (simp add: chat_gate_def g acc)
    have "\<forall>u \<in> set ts. start \<le> u" using t by force
    then have IH: "(x \<le> start \<longrightarrow> lines_in x (gate_times ts (start, n + 1)) \<le> 6 - (unat n + 1)) \<and>
        (x < start + CHAT_WINDOW \<longrightarrow> lines_in x (gate_times ts (start, n + 1)) \<le> (6 - (unat n + 1)) + 6) \<and>
        lines_in x (gate_times ts (start, n + 1)) \<le> 12"
      using Cons.IH [of "(start, n + 1)"] t Cons.prems(3) by (simp add: n g)
    then show ?thesis using False W unfolding r by (auto simp: g)
  qed
qed simp

section \<open>A line of chat\<close>

text \<open>The text other players are shown: cut, then without control characters.\<close>

definition chat_clean :: "string \<Rightarrow> string" where
  "chat_clean tx = filter (\<lambda>c. \<not> chat_control c) (take MAX_CHAT_BYTES tx)"

definition gate_of :: "Player \<Rightarrow> int \<times> u32" where
  "gate_of p = (p_chatWindowStart p, p_chatWindowCount p)"

definition with_gate :: "int \<times> u32 \<Rightarrow> Player \<Rightarrow> Player" where
  "with_gate g p = p\<lparr>p_chatWindowStart := fst g, p_chatWindowCount := snd g\<rparr>"

definition line_effects :: "Player \<Rightarrow> bool \<Rightarrow> u32 \<Rightarrow> string \<Rightarrow> (peer \<times> Player) list \<Rightarrow> effect list" where
  "line_effects p pass n tx ps =
     (if pass then
        (if chat_clean tx = [] then []
         else map (send_effect kReliable (chat_bytes (p_id p) (chat_clean tx))) (audience None ps))
      else if n = CHAT_BURST + 1 then [send_effect kReliable (chat_bytes SERVER_ID ''Slow down.'') (p_peer p)]
      else [])"

lemma HandleChat_gate:
  assumes "run_state ChatMsg_Read r = ((m, c), r')"
  shows "HandleChat p r s =
    (if \<not> c \<or> chat_text m = [] then s
     else let (pass, g) = chat_gate (clock s (readings s)) (gate_of p);
              s' = put_player (with_gate g p) (s\<lparr>readings := Suc (readings s)\<rparr>)
          in emits (line_effects p pass (snd g) (chat_text m) (players s')) s')"
proof -
  have cut: "(if MAX_CHAT_BYTES < length tx then take MAX_CHAT_BYTES tx else tx) = take MAX_CHAT_BYTES tx" for tx :: string
    by simp
  have same: "p\<lparr>p_chatWindowCount := n\<rparr> = p\<lparr>p_chatWindowStart := p_chatWindowStart p, p_chatWindowCount := n\<rparr>" for n
    by (cases p) simp
  show ?thesis
    unfolding HandleChat_def assms Let_def now_def cut
    by (auto simp: chat_gate_def gate_of_def with_gate_def line_effects_def chat_clean_def Let_def
        Send_emits Broadcast_emits chat_bytes_def [symmetric] not_less not_le same [symmetric])
qed

lemma same_audience:
  assumes "map_of ps k = Some p" and "p_handshaked q = p_handshaked p"
  shows "audience ex (AList.update k q ps) = audience ex ps"
  using assms by (induction ps) (auto simp: audience_def split: if_splits)

lemma chat_packet:
  assumes "message_id bytes = Some kChat" and "map_of (players s) k = Some p" and "p_handshaked p" and "p_peer p = k"
  shows "HandlePacket k bytes s =
    (case body ChatMsg_Read bytes of
       None \<Rightarrow> s
     | Some m \<Rightarrow>
         if chat_text m = [] then s
         else let (pass, g) = chat_gate (clock s (readings s)) (gate_of p)
              in emits (line_effects p pass (snd g) (chat_text m) (players s))
                   (put_player (with_gate g p) (s\<lparr>readings := Suc (readings s)\<rparr>)))"
proof -
  obtain i b r m c r' where x: "run_state ReadHeader (Reader_new bytes) = ((i, b), r)"
    "run_state ChatMsg_Read r = ((m, c), r')" "message_id bytes = (if b then Some i else None)"
    "body ChatMsg_Read bytes = (if b \<and> c then Some m else None)"
    by (rule packet_split [of bytes ChatMsg_Read])
  have b: "b" "i = kChat" using assms(1) x(3) by (auto split: if_splits)
  have aud: "audience None (players (put_player (with_gate g p) s')) = audience None (players s')"
    if "players s' = players s" for g s'
    using assms(2,4) that by (simp add: put_player_def with_gate_def same_audience)
  have "HandlePacket k bytes s = HandleChat p r s"
    using assms(2,3) b by (simp add: HandlePacket_def FindPlayer_def x(1) client_msg_ids)
  then show ?thesis
    using b aud by (auto simp: HandleChat_gate [OF x(2)] x(4) Let_def line_effects_def split: prod.split)
qed

text \<open>C17. What a chat packet does, whatever its bytes: an unreadable or empty line changes nothing; otherwise the
  player's window and count advance at the time read from the clock, the first six lines of a window go to every
  handshaked player under the sender's own id, cut to 512 bytes and without control characters (nothing is sent when
  nothing is left), the seventh gets the sender alone a warning, and later ones are dropped; no other player and no bot
  is touched.\<close>

theorem chat_line:
  assumes "good s" and "map_of (players s) k = Some p" and "p_handshaked p"
    and "message_id bytes = Some kChat" and "s' = HandlePacket k bytes s"
    and "g = (if CHAT_WINDOW \<le> clock s (readings s) - p_chatWindowStart p then (clock s (readings s), 1)
              else (p_chatWindowStart p, p_chatWindowCount p + 1))"
  shows "case body ChatMsg_Read bytes of
      None \<Rightarrow> s' = s
    | Some m \<Rightarrow>
        if chat_text m = [] then s' = s
        else map_of (players s') = (map_of (players s))(k \<mapsto> p\<lparr>p_chatWindowStart := fst g, p_chatWindowCount := snd g\<rparr>) \<and>
          bots s' = bots s \<and>
          out s' = out s @
            (if snd g \<le> 6 then
               (if chat_clean (chat_text m) = [] then []
                else map (send_effect kReliable (chat_bytes (p_id p) (chat_clean (chat_text m)))) (audience None (players s)))
             else if snd g = 7 then [send_effect kReliable (chat_bytes SERVER_ID ''Slow down.'') k] else [])"
proof -
  have k: "p_peer p = k" using good_player [OF assms(1,2)] by simp
  have gate: "chat_gate (clock s (readings s)) (gate_of p) = (snd g \<le> 6, g)"
    by (simp add: chat_gate_def gate_of_def assms(6) CHAT_BURST_def)
  show ?thesis
    using assms(5) k by (auto simp: chat_packet [OF assms(4,2,3) k] gate line_effects_def with_gate_def put_player_def
        AList.update_conv' CHAT_BURST_def split: option.split)
qed

lemma demo_Nora_chat:
  "\<exists>p. map_of (players demo) 7 = Some p \<and> p_id p = 1 \<and> p_handshaked p \<and> p_chatWindowStart p = 0 \<and>
     p_chatWindowCount p = 0"
proof -
  have "map_option (\<lambda>p. (p_id p, p_handshaked p, p_chatWindowStart p, p_chatWindowCount p)) (map_of (players demo) 7) =
      Some (1, True, 0, 0)"
    by code_simp
  then show ?thesis by auto
qed

lemma demo_audience: "audience None (players demo) = [7, 8]"
  by code_simp

text \<open>A line with a control character at its end, and a packet that ends after its id.\<close>

definition demo_chat :: "u8 list" where
  "demo_chat = Encode kChat ChatMsg_Write \<lparr>chat_text = ''Hi'' @ [char_of (10 :: nat)]\<rparr>"

lemma demo_line:
  "message_id demo_chat = Some kChat" "\<exists>m. body ChatMsg_Read demo_chat = Some m \<and> chat_text m \<noteq> [] \<and> chat_clean (chat_text m) = ''Hi''"
  "message_id [kChat] = Some kChat" "body ChatMsg_Read [kChat] = None"
proof -
  have "map_option (\<lambda>m. (chat_text m = [], chat_clean (chat_text m))) (body ChatMsg_Read demo_chat) = Some (False, ''Hi'')"
    by code_simp
  then show "\<exists>m. body ChatMsg_Read demo_chat = Some m \<and> chat_text m \<noteq> [] \<and> chat_clean (chat_text m) = ''Hi''" by auto
qed (code_simp+)

theorem chat_line_witness:
  "out (HandlePacket 7 demo_chat demo) = out demo @ map (send_effect kReliable (chat_bytes 1 ''Hi'')) [7, 8] \<and>
   HandlePacket 7 [kChat] demo = demo"
proof -
  obtain p where p: "map_of (players demo) 7 = Some p" "p_id p = 1" "p_handshaked p" "p_chatWindowStart p = 0"
    "p_chatWindowCount p = 0" using demo_Nora_chat by blast
  obtain m where m: "body ChatMsg_Read demo_chat = Some m" "chat_text m \<noteq> []" "chat_clean (chat_text m) = ''Hi''"
    using demo_line(2) by blast
  show ?thesis
    using chat_line [OF demo_good p(1,3) demo_line(1) refl refl] p(2,4,5) demo_audience m
      chat_line [OF demo_good p(1,3) demo_line(3) refl refl]
    by (simp add: demo_line(4))
qed

end
