(* ===== verification/F4_Flood.thy ===== *)
theory F4_Flood
  imports F4_Chat
begin

text \<open>
  Flooding: how much of what one player types reaches another within five seconds. The
  fixed windows of the gate let through nearly twice the six lines a window allows.
\<close>

definition say :: "string \<Rightarrow> u8 list" where
  "say tx = Encode kChat ChatMsg_Write \<lparr>chat_text = tx\<rparr>"

text \<open>The server handles lines of \<open>k\<close> one after the other.\<close>

definition chatter :: "peer \<Rightarrow> string list \<Rightarrow> Server \<Rightarrow> Server" where
  "chatter k texts s = fold (\<lambda>tx. HandlePacket k (say tx)) texts s"

text \<open>The times it reads from its clock for them.\<close>

definition reading_times :: "nat \<Rightarrow> Server \<Rightarrow> int list" where
  "reading_times n s = map (\<lambda>m. clock s (readings s + m)) [0..<n]"

text \<open>The chat lines from \<open>i\<close> among the messages for \<open>j\<close>.\<close>

definition lines_to :: "PlayerId \<Rightarrow> peer \<Rightarrow> effect list \<Rightarrow> u8 list list" where
  "lines_to i j es =
     filter (\<lambda>b. message_id b = Some kChatBroadcast \<and>
         (case body ChatBroadcastMsg_Read b of None \<Rightarrow> False | Some m \<Rightarrow> cb_from m = i)) (inbox j es)"

lemma say_packet:
  "message_id (say tx) = Some kChat" "body ChatMsg_Read (say tx) = Some \<lparr>chat_text = cut tx\<rparr>" "cut tx = [] \<longleftrightarrow> tx = []"
proof -
  show "message_id (say tx) = Some kChat"
    unfolding say_def chat_msg.Encode_image by (rule message_id_Cons)
  show "body ChatMsg_Read (say tx) = Some \<lparr>chat_text = cut tx\<rparr>"
    by (simp add: say_def body_def chat_msg.receive_Encode ChatMsg_canon_def)
  show "cut tx = [] \<longleftrightarrow> tx = []" by (simp add: cut_def MAX_STRING_BYTES_def)
qed

lemma lines_to_append [simp]: "lines_to i j (es @ ds) = lines_to i j es @ lines_to i j ds"
  by (simp add: lines_to_def)

lemma line_effects_lines:
  assumes "keys_distinct ps" and "p_id p \<noteq> SERVER_ID"
  shows "length (lines_to (p_id p) j (line_effects p pass n tx ps)) \<le> (if pass then 1 else 0)"
proof -
  have "length (lines_to i j (map (send_effect kReliable b) (audience None ps))) \<le> 1" for i b
    using distinct_audience [OF assms(1)] by (simp add: lines_to_def inbox_reliable)
  moreover have "lines_to (p_id p) j [send_effect kReliable (chat_bytes SERVER_ID tx) q] = []" for tx q
    using assms(2) by (simp add: lines_to_def inbox_Cons for_peer_send bodies message_ids)
  ultimately show ?thesis by (auto simp: line_effects_def lines_to_def)
qed

lemma reading_times_Suc:
  "clock s' = clock s \<Longrightarrow> readings s' = Suc (readings s) \<Longrightarrow>
    reading_times (Suc n) s = clock s (readings s) # reading_times n s'"
  by (simp add: reading_times_def upt_rec [of 0 "Suc n"] map_Suc_upt [symmetric] comp_def del: upt_Suc)

lemma chatter_lines:
  assumes "keys_distinct (players s)" and "map_of (players s) k = Some p" and "p_handshaked p" and "p_peer p = k"
    and "p_id p \<noteq> SERVER_ID" and "[] \<notin> set texts"
  shows "\<exists>es. out (chatter k texts s) = out s @ es \<and>
    length (lines_to (p_id p) j es) \<le> length (gate_times (reading_times (length texts) s) (gate_of p))"
  using assms
proof (induction texts arbitrary: s p)
  case (Cons tx texts)
  obtain pass g where g: "chat_gate (clock s (readings s)) (gate_of p) = (pass, g)" by (metis prod.collapse)
  let ?es = "line_effects p pass (snd g) (cut tx) (players s)"
  let ?t = "HandlePacket k (say tx) s"
  have "tx \<noteq> []" using Cons.prems(6) by auto
  then have t: "?t = emits ?es (put_player (with_gate g p) (s\<lparr>readings := Suc (readings s)\<rparr>))"
    by (simp add: chat_packet [OF say_packet(1) Cons.prems(2-4)] say_packet g)
  have f: "map_of (players ?t) k = Some (with_gate g p)" "clock ?t = clock s" "readings ?t = Suc (readings s)"
    "keys_distinct (players ?t)"
    using Cons.prems(1,4) by (simp_all add: t put_player_keys) (simp_all add: put_player_def with_gate_def update_conv')
  have w: "p_id (with_gate g p) = p_id p" "p_handshaked (with_gate g p)" "gate_of (with_gate g p) = g" "p_peer (with_gate g p) = k"
    using Cons.prems(3,4) by (simp_all add: with_gate_def gate_of_def)
  obtain es where es: "out (chatter k texts ?t) = out ?t @ es"
    "length (lines_to (p_id p) j es) \<le> length (gate_times (reading_times (length texts) ?t) g)"
    using Cons.IH [OF f(4,1) w(2,4)] Cons.prems(5,6) w by auto
  have "length (lines_to (p_id p) j ?es) \<le> (if pass then 1 else 0)"
    using Cons.prems(1,5) by (rule line_effects_lines)
  moreover have "out ?t = out s @ ?es" by (simp add: t put_player_def)
  ultimately show ?case
    using es by (cases pass; intro exI [of _ "?es @ es"]) (simp_all add: chatter_def reading_times_Suc [OF f(2,3)] g)
qed (simp add: chatter_def lines_to_def)

text \<open>C30. A flood is held back: however many lines a player sends within five seconds, and whatever it sent
  before, at most eleven of them reach any other client.\<close>

theorem flood_bound:
  assumes "good s" and "map_of (players s) k = Some p" and "p_handshaked p" and "[] \<notin> set texts"
    and "sorted (reading_times (length texts) s)" and "\<forall>t \<in> set (reading_times (length texts) s). x \<le> t \<and> t < x + CHAT_WINDOW"
    and "p_chatWindowStart p \<le> x" and "p_chatWindowStart p + CHAT_WINDOW \<le> x \<or> 0 < p_chatWindowCount p"
    and "unat (p_chatWindowCount p) + length texts < 2 ^ 32"
  shows "length (lines_to (p_id p) j (drop (length (out s)) (out (chatter k texts s)))) \<le> 11"
proof -
  let ?ts = "reading_times (length texts) s"
  have k: "p_peer p = k" "p_id p \<noteq> SERVER_ID"
    using good_player [OF assms(1,2)] assms(3) by (auto simp: player_ok_def SERVER_ID_def)
  have after: "\<forall>t \<in> set ?ts. fst (gate_of p) \<le> t" using assms(6,7) by (force simp: gate_of_def)
  have lines: "lines_in x (gate_times ?ts (gate_of p)) = length (gate_times ?ts (gate_of p))"
    using assms(6) set_gate_times [of ?ts "gate_of p"] by (simp add: lines_in_def filter_id_conv subset_eq)
  have few: "unat (snd (gate_of p)) + length ?ts < 2 ^ 32" using assms(9) by (simp add: gate_of_def reading_times_def)
  have "length (gate_times ?ts (gate_of p)) \<le> 11"
  proof (cases "p_chatWindowStart p + CHAT_WINDOW \<le> x")
    case False
    then have "0 < unat (p_chatWindowCount p)" using assms(8) by (simp add: word_less_nat_alt)
    then show ?thesis
      using gate_times_bound [OF assms(5) after, of x] few False by (simp add: lines) (simp add: gate_of_def, arith)
  next
    case True
    show ?thesis
    proof (cases ?ts)
      case (Cons t ts)
      then have t: "x \<le> t" "t < x + CHAT_WINDOW" "sorted ts" "\<forall>u \<in> set ts. t \<le> u" using assms(5,6) by auto
      then have "gate_times ?ts (gate_of p) = t # gate_times ts (t, 1)"
        using True by (simp add: Cons chat_gate_def gate_of_def CHAT_BURST_def word_le_nat_alt)
      moreover have "lines_in x (gate_times ts (t, 1)) \<le> 5"
        using gate_times_bound [of ts "(t, 1)" x] t few by (simp add: Cons)
      ultimately show ?thesis using t lines by simp
    qed simp
  qed
  moreover obtain es where "out (chatter k texts s) = out s @ es"
    "length (lines_to (p_id p) j es) \<le> length (gate_times ?ts (gate_of p))"
    using chatter_lines [OF good_keys [OF assms(1)] assms(2,3) k assms(4)] by blast
  ultimately show ?thesis by simp
qed

text \<open>Nora types one line, waits 4.9 seconds, types five more, and another six a tenth of a second later.\<close>

definition flood_clock :: "nat \<Rightarrow> int" where
  "flood_clock n = 20 * 10 ^ 9 + (if n = 0 then 0 else if n < 6 then 49 * 10 ^ 8 else 50 * 10 ^ 8)"

definition flood_demo :: Server where
  "flood_demo = chatter 7 [''spam''] (demo\<lparr>readings := 0, clock := flood_clock\<rparr>)"

lemma flood_demo_facts:
  "map_option (\<lambda>p. (p_id p, p_handshaked p, p_chatWindowStart p, p_chatWindowCount p)) (map_of (players flood_demo) 7) =
     Some (1, True, 20 * 10 ^ 9, 1)"
  "sorted (reading_times 11 flood_demo)"
  "list_all (\<lambda>t. 249 * 10 ^ 8 \<le> t \<and> t < 249 * 10 ^ 8 + CHAT_WINDOW) (reading_times 11 flood_demo)"
  by (code_simp, code_simp, code_simp)

lemma flood_demo_good: "good flood_demo"
proof -
  have g: "good (demo\<lparr>readings := 0, clock := flood_clock\<rparr>)"
    using demo_good by (simp add: good_def srv_inv_def in_sync_def participant_def displays_def)
  have "ids_left (demo\<lparr>readings := 0, clock := flood_clock\<rparr>)" by code_simp
  from good_HandlePacket [OF g this] show ?thesis by (simp add: flood_demo_def chatter_def)
qed

theorem flood_bound_witness:
  "length (lines_to 1 8 (drop (length (out flood_demo)) (out (chatter 7 (replicate 11 ''spam'') flood_demo)))) \<le> 11"
proof -
  obtain p where p: "map_of (players flood_demo) 7 = Some p" "p_id p = 1" "p_handshaked p"
    "p_chatWindowStart p = 20 * 10 ^ 9" "p_chatWindowCount p = 1"
    using flood_demo_facts(1) by (auto split: option.splits)
  show ?thesis
    using flood_bound [OF flood_demo_good p(1,3), of "replicate 11 ''spam''" "249 * 10 ^ 8" 8] p flood_demo_facts(2,3)
    by (simp add: list_all_iff)
qed

text \<open>The bound is reached: of twelve lines typed within 5.0 seconds, one at the start and the rest around
  the end of its window, all reach the other player, and eleven of them within a tenth of a second,
  where the limit is meant to be six in any five seconds.\<close>

theorem flood_reaches_eleven:
  "length (lines_to 1 8 (drop (length (out flood_demo)) (out (chatter 7 (replicate 11 ''spam'') flood_demo)))) = 11 \<and>
   list_all (\<lambda>t. 249 * 10 ^ 8 \<le> t \<and> t \<le> 250 * 10 ^ 8) (reading_times 11 flood_demo)"
  by (intro conjI; code_simp)

end
