(* ===== verification/F4_ClientConfigFacts.thy ===== *)
theory F4_ClientConfigFacts
  imports F4_Session
begin

text \<open>
  The client's settings: the bounds that hold whatever the file says, with NaN let through
  by the clamping, the list of commands, and the server's address as text.
\<close>

section \<open>Bounds\<close>

lemma f64_value_le_iff:
  "f64_isfinite a \<Longrightarrow> f64_isfinite b \<Longrightarrow> f64_value a \<le> f64_value b \<longleftrightarrow> f64_key a \<le> f64_key b"
  using double.fkey_less_iff [of "unat b" "unat a"]
  by (simp add: f64_isfinite_def f64_key_def f64_value_def linorder_not_less [symmetric])

lemma f32_of_f64_key:
  assumes "f64_isfinite a"
  shows "f32_key (f32_of_f64 a) = single.rkey (f64_value a)"
proof -
  obtain s m e where "decode double (unat a) = Fin s m e" using f64_finite_decode [OF assms] by blast
  then show ?thesis
    by (simp only: f32_key_def f32_of_f64_def unat_f32_encode single.fkey_encode f64_value_def)
qed

lemma f32_of_f64_mono:
  "f64_isfinite a \<Longrightarrow> f64_isfinite b \<Longrightarrow> f64_key a \<le> f64_key b \<Longrightarrow> f32_key (f32_of_f64 a) \<le> f32_key (f32_of_f64 b)"
  by (simp add: f32_of_f64_key f64_value_le_iff single.rkey_mono)

text \<open>A NaN, or between the two numbers.\<close>

definition nan_or_within :: "f32 \<Rightarrow> f32 \<Rightarrow> f32 \<Rightarrow> bool" where
  "nan_or_within lo hi a = (f32_isnan a \<or> f32_le lo a \<and> f32_le a hi)"

lemma clamped_float:
  assumes "f64_isfinite lo" and "f64_isfinite hi" and "f64_key lo \<le> f64_key hi"
    and "\<not> f32_isnan a" and "f32_key a \<le> f32_key (f32_of_f64 lo)"
    and "\<not> f32_isnan b" and "f32_key (f32_of_f64 hi) \<le> f32_key b"
  shows "nan_or_within a b (f32_of_f64 (f64_clamp v lo hi))"
proof (cases "f64_isnan v")
  case True
  then have "f64_clamp v lo hi = v" by (simp add: f64_clamp_def float_keys)
  then show ?thesis using True by (simp add: nan_or_within_def f32_of_f64_nan)
next
  case False
  let ?c = "f64_clamp v lo hi"
  have k: "f64_key lo \<le> f64_key ?c" "f64_key ?c \<le> f64_key hi" "\<not> f64_isnan ?c"
    using assms(1-3) False f64_finite_not_nan by (auto simp: f64_clamp_def float_keys)
  then have "f64_isfinite ?c" using assms(1,2) f64_key_between by blast
  then show ?thesis
    using assms f32_of_f64_mono [of lo ?c] f32_of_f64_mono [of ?c hi] k
    by (simp add: nan_or_within_def float_keys f32_of_f64_nan)
qed

definition ClientConfig_ok :: "ClientConfig \<Rightarrow> bool" where
  "ClientConfig_ok c =
     (1 \<le> cc_port c \<and> 1 \<le> cc_sendRate c \<and> cc_sendRate c \<le> 60 \<and> (cc_chargenMode c = 0 \<or> cc_chargenMode c = 1) \<and>
      nan_or_within 0 (f32_lit 1000 1) (cc_interpDelayMs c) \<and> nan_or_within 0 (f32_lit 60 1) (cc_skipDelay c) \<and>
      nan_or_within (f32_lit 5 1) (f32_lit 600 1) (cc_podTimeout c))"

lemma float_limits:
  "f64_lit 1000 1 = 0x408F400000000000" "f64_lit 60 1 = 0x404E000000000000" "f64_lit 5 1 = 0x4014000000000000"
  "f64_lit 600 1 = 0x4082C00000000000" "f32_lit 1000 1 = 0x447A0000" "f32_lit 60 1 = 0x42700000"
  "f32_lit 5 1 = 0x40A00000" "f32_lit 600 1 = 0x44160000"
  by (simp_all add: float_eval)

lemma narrowed_limits:
  "f32_of_f64 0 = 0" "f32_of_f64 (f64_lit 1000 1) = f32_lit 1000 1" "f32_of_f64 (f64_lit 60 1) = f32_lit 60 1"
  "f32_of_f64 (f64_lit 5 1) = f32_lit 5 1" "f32_of_f64 (f64_lit 600 1) = f32_lit 600 1"
  unfolding float_limits by (simp_all add: float_eval)

lemma limits_finite:
  "f64_isfinite 0" "f64_isfinite (f64_lit 1000 1)" "f64_isfinite (f64_lit 60 1)" "f64_isfinite (f64_lit 5 1)"
  "f64_isfinite (f64_lit 600 1)" "\<not> f32_isnan 0" "\<not> f32_isnan (f32_lit 1000 1)" "\<not> f32_isnan (f32_lit 60 1)"
  "\<not> f32_isnan (f32_lit 5 1)" "\<not> f32_isnan (f32_lit 600 1)"
  "f64_key 0 \<le> f64_key (f64_lit 1000 1)" "f64_key 0 \<le> f64_key (f64_lit 60 1)"
  "f64_key (f64_lit 5 1) \<le> f64_key (f64_lit 600 1)"
  unfolding float_limits by (simp_all add: f64_key_def float_eval)

lemma float_settings:
  "nan_or_within 0 (f32_lit 1000 1) (f32_of_f64 (f64_clamp v 0 (f64_lit 1000 1)))"
  "nan_or_within 0 (f32_lit 60 1) (f32_of_f64 (f64_clamp v 0 (f64_lit 60 1)))"
  "nan_or_within (f32_lit 5 1) (f32_lit 600 1) (f32_of_f64 (f64_clamp v (f64_lit 5 1) (f64_lit 600 1)))"
  by (rule clamped_float; simp only: narrowed_limits limits_finite order_refl not_False_eq_True)+

lemma ok_updates [simp]:
  "ClientConfig_ok (c\<lparr>cc_skipCommands := x\<rparr>) = ClientConfig_ok c" "ClientConfig_ok (c\<lparr>cc_cloneBase := i\<rparr>) = ClientConfig_ok c"
  "ClientConfig_ok (c\<lparr>cc_host := h\<rparr>) = ClientConfig_ok c" "ClientConfig_ok (c\<lparr>cc_autoConnect := q\<rparr>) = ClientConfig_ok c"
  "ClientConfig_ok (c\<lparr>cc_playerName := n\<rparr>) = ClientConfig_ok c" "ClientConfig_ok (c\<lparr>cc_consoleMessages := q\<rparr>) = ClientConfig_ok c"
  "ClientConfig_ok (c\<lparr>cc_skipPrologue := q\<rparr>) = ClientConfig_ok c" "ClientConfig_ok (c\<lparr>cc_chargen := q\<rparr>) = ClientConfig_ok c"
  by (simp_all add: ClientConfig_ok_def)

lemma ok_settings:
  assumes "ClientConfig_ok c"
  shows "ClientConfig_ok (c\<lparr>cc_port := word_of_int (clamp_int v 1 65535)\<rparr>)"
    and "ClientConfig_ok (c\<lparr>cc_sendRate := word_of_int (clamp_int v 1 60)\<rparr>)"
    and "ClientConfig_ok (c\<lparr>cc_chargenMode := clamp_int v 0 1\<rparr>)"
    and "ClientConfig_ok (c\<lparr>cc_interpDelayMs := f32_of_f64 (f64_clamp d 0 (f64_lit 1000 1))\<rparr>)"
    and "ClientConfig_ok (c\<lparr>cc_skipDelay := f32_of_f64 (f64_clamp d 0 (f64_lit 60 1))\<rparr>)"
    and "ClientConfig_ok (c\<lparr>cc_podTimeout := f32_of_f64 (f64_clamp d (f64_lit 5 1) (f64_lit 600 1))\<rparr>)"
proof -
  have mode: "clamp_int v 0 1 = 0 \<or> clamp_int v 0 1 = 1" by (auto simp: clamp_int_def)
  have "1 \<le> (word_of_int (clamp_int v 1 65535) :: u16)" "1 \<le> (word_of_int (clamp_int v 1 60) :: u32)"
    "(word_of_int (clamp_int v 1 60) :: u32) \<le> 60"
    using clamped_word [of 65535 v, where 'a = 16] clamped_word [of 60 v, where 'a = 32] by (simp_all add: word_le_def)
  then show "ClientConfig_ok (c\<lparr>cc_port := word_of_int (clamp_int v 1 65535)\<rparr>)"
    "ClientConfig_ok (c\<lparr>cc_sendRate := word_of_int (clamp_int v 1 60)\<rparr>)"
    "ClientConfig_ok (c\<lparr>cc_chargenMode := clamp_int v 0 1\<rparr>)"
    "ClientConfig_ok (c\<lparr>cc_interpDelayMs := f32_of_f64 (f64_clamp d 0 (f64_lit 1000 1))\<rparr>)"
    "ClientConfig_ok (c\<lparr>cc_skipDelay := f32_of_f64 (f64_clamp d 0 (f64_lit 60 1))\<rparr>)"
    "ClientConfig_ok (c\<lparr>cc_podTimeout := f32_of_f64 (f64_clamp d (f64_lit 5 1) (f64_lit 600 1))\<rparr>)"
    using assms mode float_settings [of d] unfolding ClientConfig_ok_def by simp_all
qed

lemma default_settings: "ClientConfig_ok (ClientConfig_default\<lparr>cc_path := path\<rparr>)"
  unfolding ClientConfig_ok_def ClientConfig_default_def nan_or_within_def float_limits
  by (simp add: DEFAULT_PORT_def float_eval)

text \<open>C34. Whatever the file says, the client's port is not 0, it sends between 1 and 60 states a second, the
  interpolation delay is between 0 and 1000 ms, the delays of the skip are between 0 and 60 and between 5
  and 600 seconds and the mode is 0 or 1, except that a NaN passes for each of the three times.\<close>

theorem ClientConfig_Load_ok: "ClientConfig_ok (ClientConfig_Load ulong path file)"
proof -
  obtain b ini where l: "Load file [] = (b, ini)" by fastforce
  have split: "ClientConfig_ok (if q then c else d)" if "ClientConfig_ok c" "ClientConfig_ok d" for q c d
    using that by simp
  have opt: "ClientConfig_ok (case n of None \<Rightarrow> c | Some m \<Rightarrow> f m)" if "ClientConfig_ok c" "\<And>m. ClientConfig_ok (f m)"
    for n and f :: "nat \<Rightarrow> ClientConfig" and c
    using that by (cases n) simp_all
  have lets: "ClientConfig_ok (Let e f)" if "ClientConfig_ok e" "\<And>c. ClientConfig_ok c \<Longrightarrow> ClientConfig_ok (f c)" for e f
    using that by (simp add: Let_def)
  have texts: "ClientConfig_ok (Let e f)" if "\<And>x. ClientConfig_ok (f x)" for e :: string and f
    using that by (simp add: Let_def)
  show ?thesis
    unfolding ClientConfig_Load_def l prod.case
    by (cases b; simp only: bool.case;
        intro lets texts split opt ok_settings ok_updates [THEN iffD2] default_settings; assumption?)
qed

definition nan_file :: string where
  "nan_file = ''[Network]'' @ [newline] @ ''InterpDelayMs = nan''"

lemma nan_file_loads: "fst (Load (Some nan_file) [])" "Get (snd (Load (Some nan_file) [])) ''Network'' ''InterpDelayMs'' [] = ''nan''"
  by (code_simp, code_simp)

lemma nan_text: "Numeric ''nan'' = ''nan''" "from_chars_float double ''nan'' = (Some (nan_bits double), [])"
proof -
  show "Numeric ''nan'' = ''nan''" by code_simp
  have "prefix_nocase ''nan'' ''nan''" "\<not> prefix_nocase ''inf'' ''nan''" "\<not> prefix_nocase ''infinity'' ''nan''"
    by (code_simp, code_simp, code_simp)
  then show "from_chars_float double ''nan'' = (Some (nan_bits double), [])"
    by (simp add: from_chars_float_def nan_rest_def isdigit_def of_char_def with_sign_def)
qed

text \<open>A NaN does pass: with this file the client's interpolation delay is not a number, and no clamping
  catches it.\<close>

theorem nan_delay_loads: "f32_isnan (cc_interpDelayMs (ClientConfig_Load ulong path (Some nan_file)))"
proof -
  obtain ini where i: "ini = snd (Load (Some nan_file) [])" by blast
  have l: "Load (Some nan_file) [] = (True, ini)" "Get ini ''Network'' ''InterpDelayMs'' [] = ''nan''"
    using nan_file_loads by (simp_all add: i prod_eq_iff)
  have "GetFloat ini ''Network'' ''InterpDelayMs'' d = word_of_nat (nan_bits double)" for d
    by (simp only: GetFloat_def l(2) nan_text) simp
  moreover have "f64_isnan (word_of_nat (nan_bits double))" by (simp add: float_eval)
  ultimately have n: "f32_isnan (f32_of_f64 (f64_clamp (GetFloat ini ''Network'' ''InterpDelayMs'' d) lo hi))" for d lo hi
    by (simp add: f64_clamp_def float_keys f32_of_f64_nan)
  let ?P = "\<lambda>c. f32_isnan (cc_interpDelayMs c)"
  have set: "?P (c\<lparr>cc_interpDelayMs := f32_of_f64 (f64_clamp (GetFloat ini ''Network'' ''InterpDelayMs'' d) lo hi)\<rparr>)"
    for c :: ClientConfig and d lo hi
    using n by simp
  have any: "?P (Let e f)" if "\<And>c. ?P (f c)" for f and e :: ClientConfig
    using that by (simp add: Let_def)
  have lets: "?P (Let e f)" if "?P e" "\<And>c. ?P c \<Longrightarrow> ?P (f c)" for e f
    using that by (simp add: Let_def)
  have texts: "?P (Let e f)" if "\<And>x. ?P (f x)" for e :: string and f
    using that by (simp add: Let_def)
  have split: "?P (if q then c else d)" if "?P c" "?P d" for q c d
    using that by simp
  have opt: "?P (case m of None \<Rightarrow> c | Some m \<Rightarrow> f m)" if "?P c" "\<And>m. ?P (f m)" for m and f :: "nat \<Rightarrow> ClientConfig" and c
    using that by (cases m) simp_all
  have keep: "?P (c\<lparr>cc_playerName := x1\<rparr>)" "?P (c\<lparr>cc_consoleMessages := q\<rparr>)" "?P (c\<lparr>cc_skipPrologue := q\<rparr>)"
    "?P (c\<lparr>cc_skipDelay := fl\<rparr>)" "?P (c\<lparr>cc_podTimeout := fl\<rparr>)" "?P (c\<lparr>cc_chargen := q\<rparr>)" "?P (c\<lparr>cc_chargenMode := i\<rparr>)"
    "?P (c\<lparr>cc_skipCommands := cmds\<rparr>)" "?P (c\<lparr>cc_cloneBase := w\<rparr>)" if "?P c" for c x1 q fl i cmds w
    using that by simp_all
  show ?thesis
    unfolding ClientConfig_Load_def l(1) prod.case bool.case
    by (rule any, rule any, rule any, rule any, rule any, rule lets, rule set, (intro lets texts split opt keep; assumption?))
qed

section \<open>The list of commands\<close>

primrec join_items :: "string list \<Rightarrow> string" where
  "join_items [] = []"
| "join_items (x # xs) = x @ (if xs = [] then [] else ''; '' @ join_items xs)"

definition item_ok :: "string \<Rightarrow> bool" where
  "item_ok x = (x \<noteq> [] \<and> semicolon \<notin> set x \<and> \<not> blank_or_tab (hd x) \<and> \<not> blank_or_tab (last x))"

lemma split_last: "semicolon \<notin> set x \<Longrightarrow> split_list x = [x]"
  by (subst split_list.simps) (auto simp: dropWhile_eq_Nil_conv takeWhile_eq_all_conv Let_def)

lemma split_item: "semicolon \<notin> set x \<Longrightarrow> split_list (x @ semicolon # rest) = x # split_list rest"
  by (subst split_list.simps) (simp add: takeWhile_append dropWhile_append Let_def)

lemma tab_char: "char_of (9 :: nat) = CHR 0x09"
  by code_simp

lemma blank_not_semicolon: "blank_or_tab c \<Longrightarrow> c \<noteq> semicolon"
  by (auto simp: blank_or_tab_def semicolon_def tab_char)

lemma strip_padded:
  assumes "item_ok x" and "\<forall>c \<in> set blanks. blank_or_tab c"
  shows "strip_item (blanks @ x) = x"
proof -
  have "dropWhile blank_or_tab (blanks @ x) = x"
    using assms by (cases x) (auto simp: item_ok_def dropWhile_append)
  moreover have "dropWhile blank_or_tab (rev x) = rev x"
    using assms(1) by (cases x rule: rev_cases) (auto simp: item_ok_def)
  ultimately show ?thesis by (simp add: strip_item_def)
qed

lemma strip_items:
  assumes "\<forall>x \<in> set items. item_ok x" and "items \<noteq> []" and "\<forall>c \<in> set blanks. blank_or_tab c"
  shows "map strip_item (split_list (blanks @ join_items items)) = items"
  using assms
proof (induction items arbitrary: blanks)
  case (Cons x xs)
  have x: "semicolon \<notin> set (blanks @ x)" "strip_item (blanks @ x) = x"
    using Cons.prems blank_not_semicolon strip_padded [of x blanks] by (auto simp: item_ok_def)
  show ?case
  proof (cases "xs = []")
    case True
    then show ?thesis using x by (simp add: split_last)
  next
    case False
    have "split_list ((blanks @ x) @ semicolon # '' '' @ join_items xs) = (blanks @ x) # split_list ('' '' @ join_items xs)"
      by (rule split_item [OF x(1)])
    moreover have "map strip_item (split_list ('' '' @ join_items xs)) = xs"
      using Cons.prems False by (intro Cons.IH) (simp_all add: blank_or_tab_def)
    ultimately show ?thesis using False x(2) by (simp add: semicolon_def)
  qed
qed simp

text \<open>The commands of the skip survive being written into one line of the file: a list of commands
  without semicolons and without blanks at their ends, joined by semicolons and blanks, is read back as
  exactly that list, and no commands as none.\<close>

theorem commands_roundtrip:
  assumes "\<forall>x \<in> set items. item_ok x"
  shows "skip_items (join_items items) = items"
proof (cases "items = []")
  case True
  then show ?thesis by (simp add: skip_items_def split_last strip_item_def)
next
  case False
  have "filter (\<lambda>x. x \<noteq> []) items = items"
    using assms by (intro filter_True) (simp add: item_ok_def)
  then show ?thesis using strip_items [OF assms False, of "[]"] by (simp add: skip_items_def)
qed

theorem commands_roundtrip_witness:
  "skip_items ''setstage MQ101 900; wait 2'' = [''setstage MQ101 900'', ''wait 2'']"
  using commands_roundtrip [of "[''setstage MQ101 900'', ''wait 2'']"]
  by (simp add: item_ok_def semicolon_def blank_or_tab_def tab_char)

section \<open>The server's address\<close>

lemma from_chars_unsigned_to_string: "n \<le> hi \<Longrightarrow> from_chars_unsigned 10 hi (to_string n) = (Some n, [])"
  by (simp add: from_chars_unsigned_def Let_def takeWhile_to_string dropWhile_to_string
      decimal_value_to_string [unfolded decimal_value_def])

lemma digits_no_colon: "CHR '':'' \<notin> set (to_string n)"
  using to_string_plain [of "CHR '':''" n] by (auto simp: isdigit_def)

text \<open>The address the client shows for its server is one it accepts: setting the server to it gives the same
  host and port again, as long as the host is not empty and has no colon of its own.\<close>

theorem address_roundtrip:
  assumes "cc_host (s_config s) \<noteq> []" and "CHR '':'' \<notin> set (cc_host (s_config s))" and "cc_port (s_config s) \<noteq> 0"
  shows "SetServer (ServerAddress s) s' =
    (True, s'\<lparr>s_config := (s_config s')\<lparr>cc_host := cc_host (s_config s), cc_port := cc_port (s_config s)\<rparr>\<rparr>)"
proof -
  let ?h = "cc_host (s_config s)" and ?p = "cc_port (s_config s)"
  have p: "0 < unat ?p" "unat ?p \<le> 65535"
    using assms(3) unsigned_less [of ?p, where ?'a = nat] by (simp_all add: unat_gt_0)
  have "count_list (?h @ '':'' @ to_string (unat ?p)) (CHR '':'') = 1"
    using assms(2) digits_no_colon [of "unat ?p"] by (simp add: count_list_0_iff)
  moreover have "takeWhile (\<lambda>c. c \<noteq> CHR '':'') (?h @ '':'' @ to_string (unat ?p)) = ?h"
    "dropWhile (\<lambda>c. c \<noteq> CHR '':'') (?h @ '':'' @ to_string (unat ?p)) = '':'' @ to_string (unat ?p)"
    using assms(2) by (auto simp: takeWhile_append dropWhile_append)
  ultimately show ?thesis
    using p assms(1) by (simp add: SetServer_def ServerAddress_def from_chars_unsigned_to_string Let_def)
qed

theorem address_roundtrip_witness:
  "fst (SetServer (ServerAddress (Session_new True (\<lambda>_. 0))) (Session_new True (\<lambda>_. 0)))"
  by (subst address_roundtrip) (simp_all add: Session_new_def ClientConfig_default_def DEFAULT_PORT_def)

end
