(* ===== verification/F4_ClientInv.thy ===== *)
theory F4_ClientInv
  imports F4_ClientFacts
begin

text \<open>
  The invariant of the client: the tables of remote players are sound, the connection's
  fields fit together, and what a session knows of a server it forgets with the connection.
  Every input of the client keeps it, as long as ENet delivers its events in the order its
  documentation gives: a connect only while connecting, a packet only while connected, and
  nothing without a connection.
\<close>

section \<open>The invariant\<close>

definition snapshots_ok :: "TimedState list \<Rightarrow> bool" where
  "snapshots_ok xs = (sorted_wrt (<) (map ts_timeMs xs) \<and> length xs \<le> MAX_SNAPSHOTS)"

definition remotes_ok :: "(PlayerId \<times> RemotePlayer) list \<Rightarrow> bool" where
  "remotes_ok ps = (keys_distinct ps \<and> (\<forall>(i, p) \<in> set ps. rp_id p = i \<and> snapshots_ok (rp_snapshots p)))"

definition session_ok :: "Session \<Rightarrow> bool" where
  "session_ok s =
     (remotes_ok (r_players s) \<and> (n_peer s \<noteq> None \<longleftrightarrow> n_state s \<noteq> kDisconnected) \<and> (n_peer s \<noteq> None \<longrightarrow> n_host s) \<and>
      (s_welcomed s \<longrightarrow> n_state s = kConnected) \<and> (n_state s \<noteq> kConnected \<longrightarrow> r_players s = []) \<and>
      (\<not> s_welcomed s \<longrightarrow> s_myId s = INVALID_PLAYER_ID))"

text \<open>What the invariant looks at.\<close>

definition essence where
  "essence (s :: Session) = (n_state s, n_peer s, n_host s, r_players s, s_myId s, s_welcomed s)"

lemma session_ok_essence: "essence s' = essence s \<Longrightarrow> session_ok s' = session_ok s"
  by (simp add: essence_def session_ok_def)

lemma essence_calls: "calls_only P s s' \<Longrightarrow> essence s' = essence s"
  using calls_only_parts [of P s s'] by (simp add: essence_def)

lemma essence_simps [simp]:
  "essence (Print W text s) = essence s" "essence (ConsolePrint W text s) = essence s"
  "essence (NetClient_Send ch bytes s) = essence s" "essence (RestorePlayerControl W s) = essence s"
  "essence (RenameCloneBase b n s) = essence s" "essence (ApplyCloneIdentity r n b' s) = essence s"
  "essence (do_call c s) = essence s" "essence (PrintDebug W s) = essence s" "essence (PrintGraph W names s) = essence s"
  "essence (snd (Register W s)) = essence s"
  using essence_calls [OF calls_PrintDebug [of any_call]] essence_calls [OF calls_PrintGraph [of any_call]]
    essence_calls [OF calls_Register [of any_call]] essence_calls [OF calls_Print [of any_call]] essence_calls [OF calls_ConsolePrint [of any_call]]
    essence_calls [OF calls_NetClient_Send [of any_call]] essence_calls [OF calls_RestorePlayerControl [of any_call]]
    essence_calls [OF calls_RenameCloneBase [of any_call]] essence_calls [OF calls_ApplyCloneIdentity [of _ any_call]]
    essence_calls [OF calls_only_do [of any_call]]
  by simp_all

lemma essence_fields [simp]:
  "essence (s\<lparr>e_readings := n\<rparr>) = essence s" "essence (s\<lparr>s_config := c\<rparr>) = essence s"
  "essence (s\<lparr>s_lastNameCheck := t\<rparr>) = essence s" "essence (s\<lparr>s_sentName := nm\<rparr>) = essence s"
  "essence (s\<lparr>s_lastSent := st\<rparr>) = essence s" "essence (s\<lparr>s_hasLastSent := b\<rparr>) = essence s"
  "essence (s\<lparr>s_lastSend := t\<rparr>) = essence s" "essence (s\<lparr>s_inWorld := b\<rparr>) = essence s"
  "essence (s\<lparr>s_manualDisconnect := b\<rparr>) = essence s" "essence (s\<lparr>s_lastReconnectAttempt := t\<rparr>) = essence s"
  "essence (s\<lparr>r_drive := b\<rparr>) = essence s" "essence (s\<lparr>r_move := b\<rparr>) = essence s" "essence (s\<lparr>r_pacify := b\<rparr>) = essence s"
  "essence (s\<lparr>r_ghost := b\<rparr>) = essence s" "essence (s\<lparr>r_duplicate := b\<rparr>) = essence s"
  "essence (s\<lparr>r_baseFormId := i\<rparr>) = essence s" "essence (s\<lparr>r_interpDelayMs := f\<rparr>) = essence s"
  "essence (s\<lparr>n_connectStart := t\<rparr>) = essence s" "essence (s\<lparr>r_serverClock := ck\<rparr>) = essence s"
  by (simp_all add: essence_def)

section \<open>The skip\<close>

lemma essence_skip_fields [simp]:
  "essence (s\<lparr>k_settings := c\<rparr>) = essence s" "essence (s\<lparr>k_state := st\<rparr>) = essence s" "essence (s\<lparr>k_next := n\<rparr>) = essence s"
  "essence (s\<lparr>k_armedAt := t\<rparr>) = essence s" "essence (s\<lparr>k_questStartedAt := t\<rparr>) = essence s"
  "essence (s\<lparr>k_stateSince := t\<rparr>) = essence s" "essence (s\<lparr>k_waitUntil := t\<rparr>) = essence s"
  "essence (s\<lparr>k_faceMenuSeen := b\<rparr>) = essence s" "essence (s\<lparr>k_specialMenuSeen := b\<rparr>) = essence s"
  "essence (s\<lparr>k_loggedWaiting := b\<rparr>) = essence s" "essence (s\<lparr>k_sexChanged := b\<rparr>) = essence s"
  "essence (s\<lparr>k_sexChoice := i\<rparr>) = essence s"
  by (simp_all add: essence_def)

lemma essence_now [simp]: "essence (snd (e_now s)) = essence s"
  by (simp add: e_now_def)

lemma essence_steps [simp]:
  "essence (Finish s) = essence s" "essence (BeginCommands s) = essence s" "essence (AskSex W s) = essence s"
  "essence (OpenFaceMenu W s) = essence s" "essence (OpenSpecialMenu W s) = essence s"
  "essence (Skip_OnNewGame s) = essence s" "essence (Skip_OnLeaveWorld s) = essence s"
  "essence (SexChoiceCallback b s) = essence s" "essence (Configure c s) = essence s"
  "essence (snd (RunNextCommand s)) = essence s"
  by (simp_all add: Finish_def BeginCommands_def AskSex_def OpenFaceMenu_def OpenSpecialMenu_def Skip_OnNewGame_def
      Skip_OnLeaveWorld_def SexChoiceCallback_def Configure_def RunNextCommand_def e_now_def Let_def case_prod_beta
      split: option.split)

lemma essence_more_steps [simp]:
  "essence (Skip_Start W s) = essence s" "essence (ApplySexChoice W c s) = essence s"
  by (simp_all add: Skip_Start_def ApplySexChoice_def e_now_def Let_def case_prod_beta)

lemma essence_run_commands [simp]:
  fixes s :: Session
  shows "essence (run_commands s) = essence s"
proof (induction s rule: run_commands.induct)
  case (1 s)
  obtain b s' where r: "RunNextCommand s = (b, s')" by fastforce
  have "essence s' = essence s" using essence_steps(10) [of s] by (simp add: r)
  then show ?case using 1 r by (subst run_commands.simps) (simp split: bool.split)
qed

lemma essence_Skip_Update [simp]: "essence (Skip_Update W s) = essence s"
  by (simp add: Skip_Update_def update_armed_def update_sex_choice_def update_wait_for_pod_def update_face_menu_def
      update_special_menu_def e_now_def Let_def case_prod_beta split: SkipState.split)

section \<open>The tables\<close>

definition link_of where
  "link_of (s :: Session) = (n_state s, n_peer s, n_host s, s_myId s, s_welcomed s)"

text \<open>A step that at most changes the tables, and keeps them sound.\<close>

definition table_step :: "Session \<Rightarrow> Session \<Rightarrow> bool" where
  "table_step s s' = (link_of s' = link_of s \<and> (remotes_ok (r_players s) \<longrightarrow> remotes_ok (r_players s')))"

lemma table_step_refl [simp]: "table_step s s"
  by (simp add: table_step_def)

lemma table_step_trans: "table_step s t \<Longrightarrow> table_step t u \<Longrightarrow> table_step s u"
  by (simp add: table_step_def)

lemma table_step_essence: "table_step s u \<Longrightarrow> essence t = essence u \<Longrightarrow> table_step s t"
  by (simp add: essence_def table_step_def link_of_def)

lemma table_step_same: "essence s' = essence s \<Longrightarrow> table_step s s'"
  by (rule table_step_essence [OF table_step_refl])

lemma table_step_put:
  assumes "remotes_ok (r_players s) \<Longrightarrow> rp_id p = i \<and> snapshots_ok (rp_snapshots p)"
  shows "table_step s (put_remote i p s)"
  using assms by (auto simp: table_step_def link_of_def put_remote_def remotes_ok_def alist.valid_put alist.entries_put)

lemma remotes_okD:
  "remotes_ok ps \<Longrightarrow> map_of ps i = Some p \<Longrightarrow> rp_id p = i \<and> snapshots_ok (rp_snapshots p)"
  by (auto simp: remotes_ok_def dest: map_of_SomeD)

lemma snapshots_ok_Nil [simp]: "snapshots_ok []"
  by (simp add: snapshots_ok_def)

lemma table_step_Add: "table_step s (RemotePlayers_Add i n s)"
proof -
  obtain p where p: "p = (case map_of (r_players s) i of None \<Rightarrow> RemotePlayer_default | Some p \<Rightarrow> p)\<lparr>rp_id := i, rp_name := n\<rparr>"
    by blast
  have "table_step s (put_remote i p s)"
    by (rule table_step_put) (auto simp: p RemotePlayer_default_def dest: remotes_okD split: option.split)
  moreover have "essence (RemotePlayers_Add i n s) = essence (put_remote i p s)"
    by (simp add: RemotePlayers_Add_def Let_def p)
  ultimately show ?thesis by (rule table_step_essence)
qed

lemma table_step_Rename: "table_step s (RemotePlayers_Rename W i n s)"
proof (cases "map_of (r_players s) i")
  case (Some p)
  have "table_step s (put_remote i (p\<lparr>rp_name := n\<rparr>) s)"
    by (rule table_step_put) (auto dest: remotes_okD [OF _ Some])
  moreover have "essence (RemotePlayers_Rename W i n s) = essence (put_remote i (p\<lparr>rp_name := n\<rparr>) s)"
    by (simp add: RemotePlayers_Rename_def Some Let_def split: option.split)
  ultimately show ?thesis by (rule table_step_essence)
qed (simp add: RemotePlayers_Rename_def table_step_Add)

lemma table_step_Remove: "table_step s (RemotePlayers_Remove W i s)"
proof (cases "map_of (r_players s) i")
  case (Some p)
  have "essence (snd (Despawn W (rp_actor p) s)) = essence s"
    using calls_Despawn_allowed [OF allows_any, of s W "rp_actor p"] by (blast intro: essence_calls)
  then show ?thesis
    by (auto simp: RemotePlayers_Remove_def Some case_prod_beta Let_def table_step_def link_of_def essence_def
        remotes_ok_def alist.valid_drop alist.entries_drop)
qed (simp add: RemotePlayers_Remove_def)

lemma snapshots_ok_suffix: "snapshots_ok (xs @ ys) \<Longrightarrow> snapshots_ok ys"
  by (simp add: snapshots_ok_def sorted_wrt_append)

lemma sorted_le_last: "sorted_wrt (<) (map f xs) \<Longrightarrow> x \<in> set xs \<Longrightarrow> f x \<le> (f (last xs) :: int)"
proof (induction xs)
  case (Cons a xs)
  then show ?case by (cases "xs = []") (auto intro: less_imp_le)
qed simp

lemma snapshots_ok_push: "snapshots_ok xs \<Longrightarrow> snapshots_ok (push_snapshot t xs)"
proof (cases "xs \<noteq> [] \<and> ts_timeMs t \<le> ts_timeMs (last xs)")
  case False
  assume ok: "snapshots_ok xs"
  then have "sorted_wrt (<) (map ts_timeMs xs)" by (simp add: snapshots_ok_def)
  moreover have "ts_timeMs x < ts_timeMs t" if "x \<in> set xs" for x
    using sorted_le_last [OF calculation that] False that by fastforce
  ultimately have srt: "sorted_wrt (<) (map ts_timeMs (xs @ [t]))" by (auto simp: sorted_wrt_append)
  have "sorted_wrt (<) (map ts_timeMs (drop n (xs @ [t])))" for n
    using srt by (metis append_take_drop_id map_append sorted_wrt_append)
  then show ?thesis using False srt by (auto simp: push_snapshot_def snapshots_ok_def Let_def simp del: drop_append)
qed (auto simp: push_snapshot_def)

lemma essence_NoteServerTime [simp]: "essence (NoteServerTime t s) = essence s"
proof -
  have "essence (s\<lparr>r_hasOffset := b\<rparr>) = essence s" "essence (s\<lparr>r_offsetMs := f\<rparr>) = essence s" for b f and s :: Session
    by (simp_all add: essence_def)
  then show ?thesis by (simp add: NoteServerTime_def LocalMs_def e_now_def Let_def)
qed

lemma r_players_essence: "essence t = essence u \<Longrightarrow> r_players t = r_players u"
  by (simp add: essence_def)

lemma table_step_ApplyState: "table_step s (RemotePlayers_ApplyState i st t s)"
proof -
  obtain u where u: "u = (if map_of (r_players s) i = None then RemotePlayers_Add i (CHR ''#'' # to_string (unat i)) s else s)"
    by blast
  have su: "table_step s u" by (simp add: u table_step_Add)
  obtain m c where uw: "Unwrap t (r_serverClock u) = (m, c)" by fastforce
  obtain v where v: "v = NoteServerTime m (u\<lparr>r_serverClock := c\<rparr>)" by blast
  have sv: "table_step s v" by (rule table_step_essence [OF su]) (simp add: v)
  have "table_step v (put_remote i (p\<lparr>rp_snapshots := push_snapshot x (rp_snapshots p)\<rparr>) v)"
    if "map_of (r_players v) i = Some p" for p x
    by (rule table_step_put) (auto dest: remotes_okD [OF _ that] simp: snapshots_ok_push)
  then have "table_step s (case map_of (r_players v) i of None \<Rightarrow> v
      | Some p \<Rightarrow> put_remote i (p\<lparr>rp_snapshots := push_snapshot \<lparr>ts_state = st, ts_timeMs = m\<rparr> (rp_snapshots p)\<rparr>) v)"
    by (auto simp: sv intro: table_step_trans [OF sv] split: option.split)
  then show ?thesis
    unfolding RemotePlayers_ApplyState_def Let_def u [symmetric] uw prod.case v [symmetric] .
qed

text \<open>Steps that change each remote player in place.\<close>

lemma forget_history_suffix: "\<exists>ys. xs = ys @ forget_history m xs"
proof (induction m xs rule: forget_history.induct)
  case (1 r a b c rest)
  then show ?case by (auto, metis append_Cons)
qed simp_all

lemma in_place_keys: "in_place R ps qs \<Longrightarrow> map fst qs = map fst ps"
  unfolding in_place_def by (induction rule: list_all2_induct) auto

lemma in_place_mem: "in_place R ps qs \<Longrightarrow> (i, q) \<in> set qs \<Longrightarrow> \<exists>p. (i, p) \<in> set ps \<and> R p q"
  unfolding in_place_def by (induction rule: list_all2_induct) auto

lemma in_place_remotes_ok:
  assumes "in_place R ps qs" and "remotes_ok ps"
    and "\<And>p q. R p q \<Longrightarrow> rp_id q = rp_id p \<and> (\<exists>ys. rp_snapshots p = ys @ rp_snapshots q)"
  shows "remotes_ok qs"
proof -
  have "rp_id q = i \<and> snapshots_ok (rp_snapshots q)" if m: "(i, q) \<in> set qs" for i q
  proof -
    obtain p where p: "(i, p) \<in> set ps" "R p q" using in_place_mem [OF assms(1) m] by blast
    then have "rp_id p = i \<and> snapshots_ok (rp_snapshots p)" using assms(2) by (auto simp: remotes_ok_def)
    then show ?thesis using assms(3) [OF p(2)] by (metis snapshots_ok_suffix)
  qed
  moreover have "keys_distinct qs" using assms(1,2) by (simp add: keys_distinct_def remotes_ok_def in_place_keys)
  ultimately show ?thesis by (auto simp: remotes_ok_def)
qed

lemma names_in_place:
  assumes "in_place R ps qs" and "\<And>p q. R p q \<Longrightarrow> rp_name q = rp_name p"
  shows "map_option rp_name (map_of qs i) = map_option rp_name (map_of ps i)"
  using assms(1) unfolding in_place_def
  by (induction rule: list_all2_induct) (auto dest: assms(2))

definition place_step :: "Session \<Rightarrow> Session \<Rightarrow> bool" where
  "place_step s s' = (table_step s s' \<and> (r_players s = [] \<longrightarrow> r_players s' = []) \<and>
     (\<forall>i. map_option rp_name (map_of (r_players s') i) = map_option rp_name (map_of (r_players s) i)))"

lemma place_step_refl [simp]: "place_step s s"
  by (simp add: place_step_def)

lemma place_step_trans: "place_step s t \<Longrightarrow> place_step t u \<Longrightarrow> place_step s u"
  by (auto simp: place_step_def intro: table_step_trans)

lemma place_step_essence: "place_step s u \<Longrightarrow> essence t = essence u \<Longrightarrow> place_step s t"
  by (auto simp: place_step_def intro: table_step_essence dest: r_players_essence)

lemma place_step_same: "essence s' = essence s \<Longrightarrow> place_step s s'"
  by (rule place_step_essence [OF place_step_refl])

lemma place_step_map:
  assumes "\<And>p. rp_id (f p) = rp_id p \<and> rp_snapshots (f p) = rp_snapshots p \<and> rp_name (f p) = rp_name p"
  shows "place_step s (s\<lparr>r_players := map (\<lambda>(i, p). (i, f p)) (r_players s)\<rparr>)"
proof -
  have ip: "in_place (\<lambda>p q. q = f p) (r_players s) (map (\<lambda>(i, p). (i, f p)) (r_players s))"
    by (auto simp: in_place_def list_all2_conv_all_nth case_prod_beta)
  have "remotes_ok (map (\<lambda>(i, p). (i, f p)) (r_players s))" if "remotes_ok (r_players s)"
    by (rule in_place_remotes_ok [OF ip that]) (simp add: assms)
  moreover have "map_option rp_name (map_of (map (\<lambda>(i, p). (i, f p)) (r_players s)) i) = map_option rp_name (map_of (r_players s) i)" for i
    by (rule names_in_place [OF ip]) (simp add: assms)
  ultimately show ?thesis by (simp add: place_step_def table_step_def link_of_def)
qed

lemma DespawnAll_shape:
  fixes s :: Session
  shows "essence (DespawnAll W s) = essence (s\<lparr>r_players := map (\<lambda>(i, p). (i, p\<lparr>rp_actor := None\<rparr>)) (r_players s)\<rparr>)"
proof -
  obtain qs u where u: "Despawn_loop W (r_players s) s = (qs, u)" by fastforce
  then have q: "qs = map (\<lambda>(i, p). (i, p\<lparr>rp_actor := None\<rparr>)) (r_players s)" and c: "calls_only any_call s u"
    using Despawn_loop_frame [OF allows_any, of W "r_players s" s] by simp_all
  show ?thesis using essence_calls [OF c] by (simp add: DespawnAll_def u q essence_def)
qed

lemma place_step_DespawnAll: "place_step s (DespawnAll W s)"
  by (rule place_step_essence [OF _ DespawnAll_shape]) (rule place_step_map, simp)

lemma place_step_Respawn: "place_step s (Respawn W s)"
  unfolding Respawn_def Let_def
  by (rule place_step_trans [OF place_step_DespawnAll place_step_map]) (simp add: reset_actor_def)

lemma place_step_ForgetActors: "place_step s (ForgetActors s)"
  unfolding ForgetActors_def by (rule place_step_map) (simp add: reset_actor_def)

lemma place_step_Update: "place_step s (RemotePlayers_Update W s)"
proof (cases "GetSpace W (e_calls s) (GetPlayer W (e_calls s))")
  case (Some space)
  obtain t u where tu: "e_now s = (t, u)" by fastforce
  obtain l v where lv: "LocalMs u = (l, v)" by fastforce
  have v: "essence v = essence s" using tu lv by (auto simp: LocalMs_def e_now_def)
  obtain m where m: "m = f64_sub (f64_sub l (r_offsetMs v)) (f64_of_f32 (r_interpDelayMs v))" by blast
  obtain qs w where w: "Update_loop W space t m (r_players v) v = (qs, w)" by fastforce
  note fr = Update_loop_frame [OF allows_any, of m "r_players v" W space t v, unfolded w fst_conv snd_conv]
  have "remotes_ok (r_players v) \<longrightarrow> remotes_ok qs"
    using in_place_remotes_ok [OF conjunct1 [OF fr]] forget_history_suffix by (auto simp: same_remote_def)
  moreover have "r_players v = [] \<longrightarrow> qs = []"
    using in_place_keys [OF conjunct1 [OF fr]] by auto
  moreover have "map_option rp_name (map_of qs i) = map_option rp_name (map_of (r_players v) i)" for i
    by (rule names_in_place [OF conjunct1 [OF fr]]) (simp add: same_remote_def)
  moreover have "essence w = essence s" using essence_calls [OF conjunct2 [OF fr]] v by simp
  ultimately have "place_step s (w\<lparr>r_players := qs\<rparr>)"
    using v by (simp add: place_step_def table_step_def link_of_def essence_def)
  then show ?thesis
    by (simp add: RemotePlayers_Update_def Some tu lv m [symmetric] w Let_def)
qed (simp add: RemotePlayers_Update_def)

section \<open>Packets\<close>

lemma session_ok_table: "session_ok s \<Longrightarrow> n_state s = kConnected \<Longrightarrow> table_step s s' \<Longrightarrow> session_ok s' \<and> n_state s' = kConnected"
  by (simp add: session_ok_def table_step_def link_of_def)

lemma session_ok_place: "session_ok s \<Longrightarrow> place_step s s' \<Longrightarrow> session_ok s'"
  by (auto simp: session_ok_def place_step_def table_step_def link_of_def)

lemma essence_state: "essence t = essence u \<Longrightarrow> n_state t = n_state u"
  by (simp add: essence_def)

lemma essence_SendState [simp]: "essence (SendState W b s) = essence s"
  by (simp add: SendState_def e_now_def Let_def split: option.split)

lemma essence_SyncName [simp]: "essence (SyncName W s) = essence s"
  by (simp add: SyncName_def e_now_def Let_def)

definition stays_connected :: "Session \<Rightarrow> Session \<Rightarrow> bool" where
  "stays_connected s s' = (session_ok s \<and> n_state s = kConnected \<longrightarrow> session_ok s' \<and> n_state s' = kConnected)"

lemma stays_table: "table_step s s' \<Longrightarrow> stays_connected s s'"
  using session_ok_table by (auto simp: stays_connected_def)

lemma stays_refl [simp]: "stays_connected s s"
  by (simp add: stays_connected_def)

lemma stays_essence: "stays_connected s u \<Longrightarrow> essence t = essence u \<Longrightarrow> stays_connected s t"
  unfolding stays_connected_def using session_ok_essence essence_state by metis

lemma stays_Print [simp]: "stays_connected s (Print W text u) = stays_connected s u"
  by (rule iffI; erule stays_essence; simp)

lemma stays_SendState [simp]: "stays_connected s (SendState W b u) = stays_connected s u"
  by (rule iffI; erule stays_essence; simp)

lemma stays_welcome: "stays_connected s (s\<lparr>s_myId := i, s_serverName := n, s_welcomed := True\<rparr>)"
  by (simp add: stays_connected_def session_ok_def)

lemma stays_if: "stays_connected s t \<Longrightarrow> stays_connected s u \<Longrightarrow> stays_connected s (if b then t else u)"
  by simp

lemmas stays_tables = stays_table [OF table_step_Add] stays_table [OF table_step_Rename]
  stays_table [OF table_step_Remove] stays_table [OF table_step_ApplyState]

lemma stays_HandlePacket: "stays_connected s (Session_HandlePacket W bytes s)"
  unfolding Session_HandlePacket_def Let_def case_prod_beta
  by (intro stays_if stays_Print [THEN iffD2] stays_SendState [THEN iffD2] stays_tables stays_welcome stays_refl)

section \<open>The connection\<close>

lemma Clear_shape: "essence (RemotePlayers_Clear W s) = essence (s\<lparr>r_players := []\<rparr>)"
  using DespawnAll_shape [of W s] by (simp add: RemotePlayers_Clear_def Let_def essence_def)

lemma disconnected_ok:
  assumes "n_peer s = None" and "n_state s = kDisconnected"
  shows "session_ok (on_disconnected W reason s) \<and> n_state (on_disconnected W reason s) = kDisconnected"
proof -
  let ?t = "s\<lparr>s_welcomed := False, s_myId := INVALID_PLAYER_ID, s_serverName := [], s_hasLastSent := False\<rparr>"
  have e: "essence (on_disconnected W reason s) = essence (?t\<lparr>r_players := []\<rparr>)"
    by (simp only: on_disconnected_def Let_def essence_simps Clear_shape)
  have "session_ok (?t\<lparr>r_players := []\<rparr>)"
    using assms by (simp add: session_ok_def remotes_ok_def keys_distinct_def)
  then show ?thesis using session_ok_essence [OF e] essence_state [OF e] assms by simp
qed

lemma Reset_fields [simp]:
  fixes s :: Session
  shows "n_peer (NetClient_Reset s) = None" "n_state (NetClient_Reset s) = kDisconnected"
    "n_host (NetClient_Reset s) = n_host s" "r_players (NetClient_Reset s) = r_players s"
    "s_myId (NetClient_Reset s) = s_myId s" "s_welcomed (NetClient_Reset s) = s_welcomed s"
  by (simp_all add: NetClient_Reset_def enet_def do_call_def Let_def split: option.split)

lemma notify_callbacks [simp]: "notify_disconnected (callbacks W) reason s = on_disconnected W reason s"
  by (simp add: notify_disconnected_def callbacks_def)

lemma session_ok_Disconnect: "session_ok s \<Longrightarrow> session_ok (NetClient_Disconnect (callbacks W) s) \<and>
    n_state (NetClient_Disconnect (callbacks W) s) = kDisconnected"
  by (simp add: NetClient_Disconnect_def disconnected_ok)

lemma session_ok_Fail: "session_ok (NetClient_Fail (callbacks W) reason s)"
  by (simp add: NetClient_Fail_def disconnected_ok)

lemma session_ok_Connect:
  assumes "session_ok s" and "n_state s = kDisconnected"
  shows "session_ok (snd (NetClient_Connect W h p s))"
proof -
  have "r_players s = []" "\<not> s_welcomed s" "s_myId s = INVALID_PLAYER_ID"
    using assms by (auto simp: session_ok_def)
  then show ?thesis
    using assms by (simp add: NetClient_Connect_def enet_def do_call_def e_now_def Let_def session_ok_def split: option.split)
qed

text \<open>What ENet may deliver in which state of the connection.\<close>

primrec events_ok :: "NetState \<Rightarrow> net_client_event list \<Rightarrow> bool" where
  "events_ok st [] = True"
| "events_ok st (e # es) =
     (case e of
        CliConnect \<Rightarrow> st = kConnecting \<and> events_ok kConnected es
      | CliReceive bytes \<Rightarrow> st = kConnected \<and> events_ok st es
      | CliDisconnect \<Rightarrow> st \<noteq> kDisconnected \<and> events_ok kDisconnected es
      | CliNone \<Rightarrow> events_ok st es)"

lemma essence_enet [simp]: "essence (enet c s) = essence s"
  by (simp add: enet_def)

lemma essence_on_connected [simp]: "essence (on_connected W s) = essence s"
  by (simp add: on_connected_def Let_def)

lemma pump_event_ok:
  assumes "session_ok s" and "events_ok (n_state s) (e # es)"
  shows "session_ok (pump_event (callbacks W) e s) \<and> events_ok (n_state (pump_event (callbacks W) e s)) es"
proof (cases e)
  case CliConnect
  let ?s = "s\<lparr>n_state := kConnected\<rparr>"
  have e: "essence (pump_event (callbacks W) e s) = essence ?s"
    by (simp add: pump_event_def callbacks_def CliConnect Let_def)
  have "session_ok ?s" using assms CliConnect by (auto simp: session_ok_def)
  then show ?thesis using assms CliConnect session_ok_essence [OF e] essence_state [OF e] by simp
next
  case (CliReceive bytes)
  have e: "essence (pump_event (callbacks W) e s) = essence (Session_HandlePacket W bytes s)"
    by (simp add: pump_event_def callbacks_def CliReceive)
  show ?thesis
    using assms CliReceive session_ok_essence [OF e] essence_state [OF e] stays_HandlePacket [of s W bytes]
    by (auto simp: stays_connected_def)
next
  case CliDisconnect
  then show ?thesis using assms by (simp add: pump_event_def Let_def disconnected_ok)
next
  case CliNone
  then show ?thesis using assms by (simp add: pump_event_def)
qed

lemma pump_fold_ok:
  "session_ok s \<Longrightarrow> events_ok (n_state s) es \<Longrightarrow>
    session_ok (fold (\<lambda>e s. pump_event (callbacks W) e (enet HostService s)) es s)"
proof (induction es arbitrary: s)
  case (Cons e es)
  have en: "essence (enet HostService s) = essence s" by simp
  have "session_ok (enet HostService s)" "events_ok (n_state (enet HostService s)) (e # es)"
    using Cons.prems session_ok_essence [OF en] essence_state [OF en] by simp_all
  from pump_event_ok [OF this, of W] show ?case using Cons.IH by simp
qed simp

lemma session_ok_Pump:
  assumes "session_ok s" and "n_host s \<longrightarrow> events_ok (n_state s) es"
  shows "session_ok (NetClient_Pump (callbacks W) es s)"
proof (cases "n_host s")
  case True
  have "session_ok (pump_loop (callbacks W) es s)"
    using pump_fold_ok [OF assms(1)] assms(2) True session_ok_essence [OF essence_enet] by (simp add: pump_loop_def)
  moreover have "session_ok (t\<lparr>e_readings := n\<rparr>) = session_ok t" for t n
    by (rule session_ok_essence) simp
  ultimately show ?thesis
    using True by (simp add: NetClient_Pump_def e_now_def Let_def session_ok_Fail)
qed (simp add: NetClient_Pump_def assms)

section \<open>Every input\<close>

lemma session_ok_same: "session_ok u \<Longrightarrow> essence t = essence u \<Longrightarrow> session_ok t"
  using session_ok_essence by blast

lemma session_ok_session_Connect:
  assumes "session_ok s"
  shows "session_ok (Session_Connect W manual s)"
proof -
  obtain u where u: "u = (if manual then let (t, s) = e_now (s\<lparr>s_manualDisconnect := False\<rparr>); s = s\<lparr>s_lastReconnectAttempt := t\<rparr>
      in if n_state s \<noteq> kDisconnected then NetClient_Disconnect (callbacks W) s else s else s)" by blast
  have pre: "session_ok u \<and> n_state u = kDisconnected" if "manual \<or> n_state s = kDisconnected"
  proof (cases manual)
    case True
    let ?v = "(snd (e_now (s\<lparr>s_manualDisconnect := False\<rparr>)))\<lparr>s_lastReconnectAttempt := fst (e_now (s\<lparr>s_manualDisconnect := False\<rparr>))\<rparr>"
    have "session_ok ?v" by (rule session_ok_same [OF assms]) simp
    then show ?thesis using True session_ok_Disconnect [of ?v W] by (auto simp: u Let_def case_prod_beta)
  qed (use that assms in \<open>simp add: u\<close>)
  obtain v where v: "v = Print W (''[F4MP] Connecting to '' @ ServerAddress u @ ''...'') u" by blast
  obtain b w where w: "NetClient_Connect W (cc_host (s_config v)) (cc_port (s_config v)) v = (b, w)" by fastforce
  have "session_ok w" if "manual \<or> n_state s = kDisconnected"
  proof -
    have e: "essence v = essence u" by (simp add: v)
    have "session_ok v" "n_state v = kDisconnected"
      using pre [OF that] session_ok_same [OF _ e] essence_state [OF e] by simp_all
    from session_ok_Connect [OF this, of W "cc_host (s_config v)" "cc_port (s_config v)"] show ?thesis by (simp add: w)
  qed
  moreover have "session_ok (Print W msg w)" if "session_ok w" for msg
    by (rule session_ok_same [OF that]) simp
  moreover have "session_ok (ConsolePrint W msg s)" for msg
    by (rule session_ok_same [OF assms]) simp
  moreover have "Session_Connect W manual s =
      (if \<not> s_inWorld s
       then (if manual then ConsolePrint W ''[F4MP] Load a save or start a new game first.'' s else s)
       else if \<not> manual \<and> n_state s \<noteq> kDisconnected then s
       else if b then w else Print W ''[F4MP] Could not start connection (see F4MP.log)'' w)"
    using w unfolding Session_Connect_def u [symmetric] v
    by (simp only: Let_def prod.case)
  ultimately show ?thesis using assms by simp
qed

lemma session_ok_session_Disconnect:
  assumes "session_ok s"
  shows "session_ok (Session_Disconnect W manual s)"
proof -
  let ?t = "if manual then s\<lparr>s_manualDisconnect := True\<rparr> else s"
  have t: "session_ok ?t" by (rule session_ok_same [OF assms]) simp
  then have "session_ok (ConsolePrint W msg ?t)" for msg by (rule session_ok_same) simp
  with t show ?thesis by (cases manual) (simp_all add: Session_Disconnect_def Let_def session_ok_Disconnect)
qed

lemma session_ok_reconnect:
  assumes "session_ok s"
  shows "session_ok (auto_reconnect W s)"
proof -
  have "session_ok (s\<lparr>e_readings := n\<rparr>)" "session_ok (s\<lparr>e_readings := n, s_lastReconnectAttempt := t\<rparr>)" for n t
    by (rule session_ok_same [OF assms], simp)+
  then show ?thesis
    using assms by (simp add: auto_reconnect_def e_now_def Let_def session_ok_session_Connect)
qed

lemma session_ok_Tick:
  assumes "session_ok s" and "n_host s \<longrightarrow> events_ok (n_state s) es"
  shows "session_ok (Tick W es s)"
proof -
  obtain u where u: "u = NetClient_Pump (callbacks W) es s" by blast
  have "session_ok u" unfolding u by (rule session_ok_Pump [OF assms])
  then have "session_ok (Skip_Update W u)" by (rule session_ok_same) simp
  then have v: "session_ok (auto_reconnect W (Skip_Update W u))" by (rule session_ok_reconnect)
  then have "session_ok (SyncName W (SendState W False (auto_reconnect W (Skip_Update W u))))" by (rule session_ok_same) simp
  from session_ok_place [OF this place_step_Update] v \<open>session_ok u\<close> show ?thesis
    by (simp add: Tick_def u [symmetric] Let_def)
qed

lemma place_step_SetCloneBase: "place_step s (RemotePlayers_SetCloneBase W i s)"
  unfolding RemotePlayers_SetCloneBase_def by (rule place_step_trans [OF place_step_same place_step_Respawn]) simp

lemma place_step_options:
  "place_step s (SetPacify W b s)" "place_step s (SetGhost W b s)" "place_step s (SetDuplicate W b s)"
  unfolding SetPacify_def SetGhost_def SetDuplicate_def
  by (rule place_step_trans [OF place_step_same place_step_Respawn]; simp)+

lemma place_step_clone_option: "clone_option W opt b s = Some s' \<Longrightarrow> place_step s s'"
  unfolding clone_option_def
  by (auto simp: place_step_options place_step_Respawn intro: place_step_same split: if_splits)

lemma place_step_SetCloneOption: "place_step s (snd (SetCloneOption W opt b s))"
  unfolding SetCloneOption_def
  by (auto intro: place_step_essence [OF place_step_clone_option] split: option.split)

lemma place_step_prints:
  "place_step s (ConsolePrint W text s)" "place_step s (Usage W s)" "place_step s (PrintStatus W s)"
  "place_step s (PrintPlayers W s)" "place_step s (SendChat W text s)" "place_step s (SetPlayerName W text s)"
  "place_step s (snd (SetServer text s))" "place_step s (RestorePlayerControl W s)"
  "place_step s (PrintDebug W s)" "place_step s (PrintGraph W names s)"
proof -
  have f: "essence (fold (ConsolePrint W) xs s) = essence s" for xs s
    by (induction xs arbitrary: s) simp_all
  have g: "essence (fold (\<lambda>(i, p) s. ConsolePrint W (h i p s) s) xs s) = essence s" for xs h s
    by (induction xs arbitrary: s) (simp_all add: case_prod_beta)
  have x: "place_step s t" if "essence t = essence s" for t by (rule place_step_same [OF that])
  show "place_step s (ConsolePrint W text s)" "place_step s (Usage W s)" "place_step s (PrintStatus W s)"
    "place_step s (PrintPlayers W s)" "place_step s (SendChat W text s)" "place_step s (SetPlayerName W text s)"
    "place_step s (snd (SetServer text s))" "place_step s (RestorePlayerControl W s)"
    "place_step s (PrintDebug W s)" "place_step s (PrintGraph W names s)"
    by (rule x, simp add: Usage_def f PrintStatus_def PrintPlayers_def g SendChat_def SetPlayerName_def SetServer_def Let_def
        split: option.split)+
qed

lemma session_ok_clonebase: "session_ok s \<Longrightarrow> session_ok (Execute_clonebase W ulong args s)"
proof -
  assume s: "session_ok s"
  have "place_step s (Session_SetCloneBase W i s)" for i
    unfolding Session_SetCloneBase_def by (rule place_step_essence [OF place_step_SetCloneBase]) simp
  then show ?thesis
    using s by (auto simp: Execute_clonebase_def Let_def intro: session_ok_place place_step_prints(1)
        split: option.split list.split prod.split)
qed

lemma session_ok_command: "session_ok s \<Longrightarrow> session_ok (Execute_command W ulong cmd args s)"
proof -
  assume s: "session_ok s"
  note p = session_ok_place [OF s place_step_prints(1)] session_ok_place [OF s place_step_prints(2)]
    session_ok_place [OF s place_step_prints(3)] session_ok_place [OF s place_step_prints(4)]
    session_ok_place [OF s place_step_prints(5)] session_ok_place [OF s place_step_prints(6)]
    session_ok_place [OF s place_step_trans [OF place_step_prints(8) place_step_prints(1)]]
    session_ok_place [OF s place_step_trans [OF place_step_prints(1) place_step_prints(2)]]
    session_ok_place [OF s place_step_SetCloneOption]
    session_ok_place [OF s place_step_prints(9)] session_ok_place [OF s place_step_prints(10)]
    session_ok_place [OF s place_step_trans [OF place_step_prints(7) place_step_prints(1)]]
    session_ok_session_Connect [OF session_ok_place [OF s place_step_prints(7)]]
  have if2: "session_ok (if b then t else u)" if "session_ok t" "session_ok u" for b t u using that by simp
  show ?thesis
    unfolding Execute_command_def Let_def case_prod_beta
    by (intro if2 p s session_ok_session_Connect session_ok_session_Disconnect session_ok_clonebase)
qed

lemma session_ok_Execute: "session_ok s \<Longrightarrow> session_ok (Execute W ulong line s)"
  by (simp add: Execute_def Let_def case_prod_beta session_ok_command)

lemma session_ok_handler: "session_ok s \<Longrightarrow> session_ok (Console_ExecuteCommand W ulong line s)"
  by (simp add: Console_ExecuteCommand_def session_ok_Execute)

lemma session_ok_game:
  assumes "session_ok s"
  shows "session_ok (OnEnterWorld s)" "session_ok (OnNewGame s)" "session_ok (OnLeaveWorld s)"
proof -
  have e: "session_ok (OnEnterWorld s)" if "session_ok s" for s
    unfolding OnEnterWorld_def by (rule session_ok_place [OF session_ok_same place_step_ForgetActors]) (use that in simp_all)
  show "session_ok (OnEnterWorld s)" by (rule e [OF assms])
  show "session_ok (OnNewGame s)"
    unfolding OnNewGame_def by (rule session_ok_same [OF e [OF assms]]) simp
  show "session_ok (OnLeaveWorld s)"
    unfolding OnLeaveWorld_def by (rule session_ok_place [OF session_ok_same place_step_ForgetActors]) (use assms in simp_all)
qed

text \<open>An input comes with the world it finds.\<close>

definition client_admits :: "Session \<Rightarrow> World \<times> client_input \<Rightarrow> bool" where
  "client_admits s i = (case snd i of InTick es \<Rightarrow> n_host s \<longrightarrow> events_ok (n_state s) es | _ \<Rightarrow> True)"

definition client_run :: "nat \<Rightarrow> World \<times> client_input \<Rightarrow> Session \<Rightarrow> Session" where
  "client_run ulong i s = client_step ulong (fst i) (snd i) s"

lemma session_ok_step: "session_ok s \<Longrightarrow> client_admits s i \<Longrightarrow> session_ok (client_run ulong i s)"
  unfolding client_run_def client_step_def client_admits_def
  by (auto simp: session_ok_Tick session_ok_game session_ok_handler OnPreSave_def
      intro: session_ok_place place_step_DespawnAll session_ok_same split: client_input.splits)

interpretation cli: invariant_machine "client_run ulong" client_admits session_ok
  for ulong
  by unfold_locales (rule session_ok_step)

end
