(* ===== verification/F4_ClientSpec.thy ===== *)
theory F4_ClientSpec
  imports F4_ClientInv F4_Snapshots F4_DemoWorld
begin

text \<open>
  What the client promises over its runs: any sequence of frames, game events, console
  lines and answers to the message box, each with whatever the engine answers then.
\<close>

section \<open>Runs\<close>

definition client_runs :: "nat \<Rightarrow> (World \<times> client_input) list \<Rightarrow> Session \<Rightarrow> Session" where
  "client_runs ulong inputs s = fold (client_run ulong) inputs s"

primrec client_admitted :: "nat \<Rightarrow> (World \<times> client_input) list \<Rightarrow> Session \<Rightarrow> bool" where
  "client_admitted ulong [] s = True"
| "client_admitted ulong (i # inputs) s =
     (client_admits s i \<and> client_admitted ulong inputs (client_run ulong i s))"

lemma cli_run: "cli.run ulong inputs s = client_runs ulong inputs s"
  by (induction inputs arbitrary: s) (simp_all add: client_runs_def)

lemma cli_admits: "cli.admits ulong inputs s = client_admitted ulong inputs s"
  by (induction inputs arbitrary: s) simp_all

lemma session_ok_load: "session_ok (plugin_load W ulong initialized clk path file)"
proof -
  have new: "session_ok ((Session_new initialized clk)\<lparr>s_config := c, r_interpDelayMs := d\<rparr>)" for c d
    by (simp add: session_ok_def Session_new_def remotes_ok_def keys_distinct_def)
  show ?thesis
    unfolding plugin_load_def Session_Init_def Let_def case_prod_beta
    by (rule session_ok_same [OF session_ok_place [OF new place_step_SetCloneBase]]) simp
qed

lemma session_ok_runs:
  "client_admitted ulong inputs (plugin_load W ulong initialized clk path file) \<Longrightarrow>
    session_ok (client_runs ulong inputs (plugin_load W ulong initialized clk path file))"
  using cli.run_inv [OF session_ok_load] by (simp add: cli_run cli_admits)

text \<open>A save is loaded, the next frame connects; then the server announces a player and the connection
  breaks.\<close>

definition demo_load :: Session where
  "demo_load = plugin_load demo_world 32 True (\<lambda>_. 20 * 10 ^ 9) ''F4MP.ini'' None"

definition demo_connected :: "(World \<times> client_input) list" where
  "demo_connected =
     [(demo_world, InPostLoadGame), (demo_world, InTick []),
      (demo_world, InTick [CliConnect, CliReceive (joined_bytes 5 ''Nora'')])]"

definition demo_lost :: "(World \<times> client_input) list" where
  "demo_lost = demo_connected @ [(demo_world, InTick [CliDisconnect])]"

section \<open>A demonstration\<close>

text \<open>The client of the demonstration once its connection is under way.\<close>

definition demo_connecting :: Session where
  "demo_connecting = client_runs 32 (take 2 demo_connected) demo_load"

lemma demo_connecting_fields:
  "n_state demo_connecting = kConnecting" "n_host demo_connecting" "s_inWorld demo_connecting"
  "r_players demo_connecting = []" "\<not> s_welcomed demo_connecting" "s_myId demo_connecting = INVALID_PLAYER_ID"
  "client_admitted 32 (take 2 demo_connected) demo_load" "n_peer demo_connecting = Some 1"
  "n_enetReady demo_connecting" "n_connectStart demo_connecting = 20 * 10 ^ 9" "\<not> s_manualDisconnect demo_connecting"
  "s_lastReconnectAttempt demo_connecting = 20 * 10 ^ 9" "cc_autoConnect (s_config demo_connecting)"
  "k_state demo_connecting = kIdle"
  by (simp_all add: demo_connecting_def demo_connected_def client_runs_def client_run_def client_step_def OnEnterWorld_def
      ForgetActors_def demo_load_def plugin_load_def Register_def ClientConfig_Load_def Load_def Session_Init_def Configure_def
      RemotePlayers_SetCloneBase_def Respawn_def DespawnAll_def Session_new_def ClientConfig_default_def
      Tick_def NetClient_Pump_def Skip_Update_def auto_reconnect_def e_now_def RECONNECT_INTERVAL_def Session_Connect_def
      Print_def ConsolePrint_def do_call_def demo_world_def NetClient_Connect_def NetClient_Reset_def enet_def
      Session_IsConnected_def IsConnected_def client_admits_def Let_def)

lemma faces_enet: "faces (enet c s) = faces s"
  by (rule faces_same) (simp_all add: enet_def do_call_def)

lemma faces_essence: "essence t = essence s \<Longrightarrow> faces t = faces s"
  by (simp add: essence_def faces_def)

text \<open>A frame on a standing connection shows the players the packets have left.\<close>

lemma faces_place: "place_step s s' \<Longrightarrow> faces s' = faces s"
  by (simp add: place_step_def table_step_def link_of_def faces_def)

lemma faces_Update: "faces (RemotePlayers_Update W s) = faces s"
  by (rule faces_place [OF place_step_Update])

lemma faces_Tick:
  assumes "n_state (NetClient_Pump (callbacks W) es s) = kConnected"
  shows "faces (Tick W es s) = faces (NetClient_Pump (callbacks W) es s)"
proof -
  obtain u where u: "u = NetClient_Pump (callbacks W) es s" by blast
  have "n_state (Skip_Update W u) = kConnected" using assms essence_state [of "Skip_Update W u" u] by (simp add: u)
  then have a: "auto_reconnect W (Skip_Update W u) = Skip_Update W u" by (simp add: auto_reconnect_def)
  show ?thesis
    unfolding Tick_def u [symmetric] Let_def a
    by (simp add: faces_Update faces_essence [of "SyncName W (SendState W False (Skip_Update W u))" u]
        faces_essence [of "Skip_Update W u" u])
qed

text \<open>A frame with a connect and one packet.\<close>

lemma Tick_connect:
  assumes "session_ok s" and "n_state s = kConnecting" and "n_host s"
  shows "faces (Tick W [CliConnect, CliReceive bytes] s) = heard bytes (faces s)"
proof -
  let ?t = "pump_event (callbacks W) CliConnect (enet HostService s)"
  let ?u = "pump_event (callbacks W) (CliReceive bytes) (enet HostService ?t)"
  have s: "session_ok (enet HostService s)" "n_state (enet HostService s) = kConnecting"
    using assms(1,2) by (simp_all add: session_ok_essence [OF essence_enet] essence_state [OF essence_enet])
  have t: "session_ok ?t" "n_state ?t = kConnected" "faces ?t = faces s"
    using pump_event_ok [of "enet HostService s" CliConnect "[]" W] s
      essence_state [OF essence_on_connected] faces_essence [OF essence_on_connected]
    by (simp_all add: pump_event_def callbacks_def) (simp_all add: faces_def enet_def do_call_def)
  then have "session_ok (enet HostService ?t)" "n_state (enet HostService ?t) = kConnected"
    by (simp_all add: session_ok_essence [OF essence_enet] essence_state [OF essence_enet])
  then have u: "n_state ?u = kConnected" "faces ?u = heard bytes (faces s)"
    using stays_HandlePacket [of "enet HostService ?t" W bytes] t(3)
    by (simp_all add: pump_event_def callbacks_def stays_connected_def essence_state [OF essence_enet]
        faces_enet packet_faces)
  have n: "n_state (enet HostService ?u) = kConnected" by (simp add: u essence_state [OF essence_enet])
  have p: "NetClient_Pump (callbacks W) [CliConnect, CliReceive bytes] s = enet HostService ?u"
    using assms(3) n by (simp add: NetClient_Pump_def pump_loop_def)
  show ?thesis using faces_Tick [of W "[CliConnect, CliReceive bytes]" s] n u by (simp add: p faces_enet)
qed

lemma demo_joined:
  "client_admitted 32 demo_connected demo_load"
  "faces (client_runs 32 demo_connected demo_load) = (INVALID_PLAYER_ID, [5 \<mapsto> ''Nora''])"
proof -
  have d: "demo_connected = take 2 demo_connected @ [(demo_world, InTick [CliConnect, CliReceive (joined_bytes 5 ''Nora'')])]"
    by (simp add: demo_connected_def)
  have app: "client_admitted ulong (xs @ ys) s = (client_admitted ulong xs s \<and> client_admitted ulong ys (client_runs ulong xs s))"
    for ulong xs ys s by (induction xs arbitrary: s) (simp_all add: client_runs_def)
  show "client_admitted 32 demo_connected demo_load"
    by (subst d) (simp add: app demo_connecting_fields demo_connecting_def [symmetric] client_admits_def)
  have ok: "session_ok demo_connecting"
    using session_ok_runs [OF demo_connecting_fields(7) [unfolded demo_load_def]]
    by (simp add: demo_connecting_def demo_load_def)
  have e: "client_runs 32 demo_connected demo_load =
      Tick demo_world [CliConnect, CliReceive (joined_bytes 5 ''Nora'')] demo_connecting"
    by (subst d) (simp add: client_runs_def demo_connecting_def client_run_def client_step_def)
  have "faces demo_connecting = roster_start"
    using demo_connecting_fields by (simp add: faces_def roster_start_def)
  then show "faces (client_runs 32 demo_connected demo_load) = (INVALID_PLAYER_ID, [5 \<mapsto> ''Nora''])"
    using Tick_connect [OF ok demo_connecting_fields(1,2)]
    by (simp add: e heard_def message_ids server_msg_ids roster_start_def INVALID_PLAYER_ID_def cut_def MAX_STRING_BYTES_def)
qed

section \<open>The local player is left alone\<close>

lemma Update_calls:
  fixes s :: Session
  assumes al: "allows W P"
  shows "\<exists>cs. e_calls (RemotePlayers_Update W s) = e_calls s @ cs \<and> list_all P cs"
proof (cases "GetSpace W (e_calls s) (GetPlayer W (e_calls s))")
  case (Some space)
  have n: "calls_only P s (snd (e_now (snd (e_now s))))"
    by (rule calls_only_trans [OF calls_only_now calls_only_now])
  show ?thesis
    using calls_only_trans [OF n conjunct2 [OF Update_loop_frame [OF al]]]
    by (auto simp: RemotePlayers_Update_def Some LocalMs_def case_prod_beta Let_def calls_only_def)
qed (simp add: RemotePlayers_Update_def)

text \<open>C19. Driving, despawning and respawning the clones never acts on the local player's own actor, even when
  a clone's handle leads to it: of all the calls these operations make, none has it as its target.\<close>

theorem local_player_never_driven:
  fixes s :: Session
  assumes "\<forall>h. w_singleton W h = me"
    and "s' \<in> {RemotePlayers_Update W s, DespawnAll W s, Respawn W s, RemotePlayers_Remove W i s, RemotePlayers_Clear W s}"
  shows "\<exists>cs. e_calls s' = e_calls s @ cs \<and> (\<forall>r x. Actor r x \<in> set cs \<longrightarrow> Some r \<noteq> me)"
proof -
  let ?P = "\<lambda>c. case c of Actor r x \<Rightarrow> Some r \<noteq> me | _ \<Rightarrow> True"
  have al: "allows W ?P" using assms(1) by (auto simp: allows_def form_free_def acts_on_def)
  let ?Q = "\<lambda>u. \<exists>cs. e_calls u = e_calls s @ cs \<and> list_all ?P cs"
  have q: "?Q u" if "calls_only ?P s u" for u using that by (auto simp: calls_only_def)
  have d: "?Q (DespawnAll W s)"
    using q [of "snd (Despawn_loop W (r_players s) s)"] Despawn_loop_frame [OF al, of "r_players s" s]
    by (simp add: DespawnAll_def case_prod_beta)
  have u: "?Q (RemotePlayers_Update W s)" by (rule Update_calls [OF al])
  have r: "?Q (RemotePlayers_Remove W i s)"
    using q [OF conjunct1 [OF calls_Despawn_allowed [OF al]]]
    by (auto simp: RemotePlayers_Remove_def case_prod_beta split: option.split)
  have "?Q s'" using assms(2) d u r by (auto simp: Respawn_def RemotePlayers_Clear_def Let_def)
  then show ?thesis by (auto simp: list_all_iff split: call.splits)
qed

text \<open>A clone whose handle leads to the player.\<close>

definition demo_clone :: Session where
  "demo_clone = (Session_new True (\<lambda>_. 0))\<lparr>r_players := [(5, RemotePlayer_default\<lparr>rp_actor := Some 7\<rparr>),
     (6, RemotePlayer_default\<lparr>rp_actor := Some 9\<rparr>)]\<rparr>"

theorem local_player_never_driven_witness:
  "\<exists>cs. e_calls (DespawnAll demo_world demo_clone) = cs \<and> cs \<noteq> [] \<and> (\<forall>r x. Actor r x \<in> set cs \<longrightarrow> r \<noteq> 20)"
proof -
  have "\<forall>h. w_singleton demo_world h = Some 20" by (simp add: demo_world_def)
  moreover have "e_calls (DespawnAll demo_world demo_clone) \<noteq> []"
    by (simp add: DespawnAll_def demo_clone_def Session_new_def RemotePlayer_default_def Despawn_def w_resolve_def
        demo_world_def do_call_def Let_def)
  moreover have "e_calls demo_clone = []" by (simp add: demo_clone_def Session_new_def)
  ultimately show ?thesis
    using local_player_never_driven [of demo_world "Some 20" "DespawnAll demo_world demo_clone" demo_clone 0] by simp
qed

section \<open>Late states\<close>

lemma update_packet:
  assumes "i \<noteq> s_myId s"
  shows "Session_HandlePacket W (update_bytes i t st) s = RemotePlayers_ApplyState i st t s"
proof -
  obtain j b r m c r' where x: "run_state ReadHeader (Reader_new (update_bytes i t st)) = ((j, b), r)"
    "run_state PlayerStateUpdateMsg_Read r = ((m, c), r')"
    "message_id (update_bytes i t st) = (if b then Some j else None)"
    "body PlayerStateUpdateMsg_Read (update_bytes i t st) = (if b \<and> c then Some m else None)"
    by (rule packet_split [of "update_bytes i t st" PlayerStateUpdateMsg_Read])
  have "b" "j = kPlayerStateUpdate" "c" "m = \<lparr>psu_id = i, psu_timeMs = t, psu_state = st\<rparr>"
    using x(3,4) by (auto simp: message_ids bodies split: if_splits)
  then show ?thesis using assms by (simp add: Session_HandlePacket_def x(1,2) server_msg_ids Let_def)
qed

text \<open>C20. A state update that arrives after its player has left brings the player back: the client shows a
  participant named by the bare id, with that state as its history, although the player is gone.\<close>

theorem late_state_revives:
  assumes "i \<noteq> s_myId s"
  shows "\<exists>p. map_of (r_players (Session_HandlePacket W' (update_bytes i t st) (Session_HandlePacket W (left_bytes i) s))) i = Some p \<and>
    rp_name p = CHR ''#'' # to_string (unat i) \<and> map ts_state (rp_snapshots p) = [st]"
proof -
  let ?u = "Session_HandlePacket W (left_bytes i) s"
  have f: "faces ?u = (s_myId s, (snd (faces s))(i := None))"
    by (simp add: packet_faces heard_def message_ids server_msg_ids) (simp add: faces_def)
  then have u: "s_myId ?u = s_myId s" "map_of (r_players ?u) i = None"
    by (auto simp: faces_def dest: fun_cong [of _ _ i])
  have e: "Session_HandlePacket W' (update_bytes i t st) ?u = RemotePlayers_ApplyState i st t ?u"
    using assms u(1) by (intro update_packet) simp
  have "snd (faces (RemotePlayers_ApplyState i st t ?u)) i = Some (placeholder i)"
    by (simp add: f)
  moreover have "shots (RemotePlayers_ApplyState i st t ?u) i = Some [\<lparr>ts_state = st, ts_timeMs = fst (Unwrap t (r_serverClock ?u))\<rparr>]"
    using ApplyState_history [of i st t ?u] u(2) by (simp add: shots_def kept_def push_snapshot_def MAX_SNAPSHOTS_def)
  ultimately show ?thesis unfolding e by (auto simp: faces_def shots_def placeholder_def)
qed

theorem late_state_revives_witness:
  "\<exists>p. map_of (r_players (Session_HandlePacket demo_world (update_bytes 5 0 PlayerState_default)
      (Session_HandlePacket demo_world (left_bytes 5) (client_runs 32 demo_connected demo_load)))) 5 = Some p \<and>
    rp_name p = ''#5''"
proof -
  have "s_myId (client_runs 32 demo_connected demo_load) = INVALID_PLAYER_ID"
    using demo_joined(2) by (simp add: faces_def)
  moreover have five: "to_string (unat (5 :: PlayerId)) = ''5''" by code_simp
  ultimately show ?thesis
    using late_state_revives [of 5 "client_runs 32 demo_connected demo_load" demo_world 0 PlayerState_default demo_world]
    by (auto simp: INVALID_PLAYER_ID_def five)
qed

section \<open>The two ends\<close>

text \<open>What a session that shows the roster of its inbox knows of a server in good order.\<close>

lemma roster_agrees:
  assumes "good s" and "map_of (players s) k = Some p" and "p_handshaked p" and "shows_roster (faces c) (view k (out s))"
  shows "s_myId c = p_id p \<and>
    (\<forall>i n. participant s i n \<and> i \<noteq> p_id p \<longrightarrow> (\<exists>q. map_of (r_players c) i = Some q \<and> rp_name q = n)) \<and>
    (\<forall>i. (\<nexists>n. participant s i n \<and> i \<noteq> p_id p) \<longrightarrow> NameOf i c = CHR ''#'' # to_string (unat i))"
proof -
  have v: "fst (view k (out s)) = p_id p" "\<And>i n. snd (view k (out s)) i = Some n \<longleftrightarrow> participant s i n \<and> i \<noteq> p_id p"
    using in_syncD [of s, OF _ assms(2,3)] assms(1) by (auto simp: good_def displays_def)
  have nm: "name_ok i (snd (faces c) i) (snd (view k (out s)) i)" for i using assms(4) by (simp add: shows_roster_def)
  have "s_myId c = p_id p" using assms(4) v(1) by (simp add: shows_roster_def faces_def)
  moreover have "\<exists>q. map_of (r_players c) i = Some q \<and> rp_name q = n" if "participant s i n" "i \<noteq> p_id p" for i n
  proof -
    have "snd (view k (out s)) i = Some n" using that v(2) by blast
    then show ?thesis using nm [of i] by (auto simp: name_ok_def faces_def)
  qed
  moreover have "NameOf i c = CHR ''#'' # to_string (unat i)" if "\<nexists>n. participant s i n \<and> i \<noteq> p_id p" for i
  proof -
    have "snd (view k (out s)) i = None" using that v(2) by (metis option.exhaust)
    then have "snd (faces c) i = None \<or> snd (faces c) i = Some (placeholder i)" using nm [of i] by (simp add: name_ok_def)
    then show ?thesis
      by (auto simp: faces_def NameOf_def RemotePlayers_Find_def placeholder_def split: option.splits)
  qed
  ultimately show ?thesis by blast
qed

lemma player_id_valid:
  assumes "good s" and "map_of (players s) k = Some p" and "p_handshaked p"
  shows "p_id p \<noteq> INVALID_PLAYER_ID"
proof -
  have "participant s (p_id p) (p_name p)" using assms(2,3) by (rule participant_player)
  then have "p_id p < nextId s" using participant_id [of s] assms(1) by (auto simp: good_def)
  then show ?thesis
    using unsigned_less [of "nextId s", where ?'a = nat] by (auto simp: INVALID_PLAYER_ID_def word_less_nat_alt)
qed

text \<open>C8. The two ends agree: a client that has handled, from a session without remote players, what the
  server has sent it reliably since its welcome, with state updates lost, repeated or interleaved at
  will, knows its own id and shows every other participant under the right name; everyone else, a
  player that has left included, it shows at most as a placeholder with the bare id.\<close>

theorem client_agrees_with_server:
  assumes "1 + ids_used inputs < 2 ^ 32"
    and "s = server_run ulong cosf sinf inputs (started cfg clk)"
    and "map_of (players s) k = Some p" and "p_handshaked p"
    and "r_players c = []"
    and "filter (\<lambda>b. \<not> is_update b) (map snd ps) = filter (\<lambda>b. \<not> is_update b) (since_welcome (inbox k (out s)))"
    and "c' = session_packets ps c"
  shows "s_myId c' = p_id p \<and>
    (\<forall>i n. participant s i n \<and> i \<noteq> p_id p \<longrightarrow> (\<exists>q. map_of (r_players c') i = Some q \<and> rp_name q = n)) \<and>
    (\<forall>i. (\<nexists>n. participant s i n \<and> i \<noteq> p_id p) \<longrightarrow> NameOf i c' = CHR ''#'' # to_string (unat i))"
proof -
  have g: "good s" using good_run [OF assms(1)] assms(2) by simp
  have "fst (view k (out s)) = p_id p" using in_syncD [of s, OF _ assms(3,4)] g by (simp add: good_def displays_def)
  then have "list_ex is_welcome (inbox k (out s))"
    using no_welcome_id [of "inbox k (out s)" roster_start] player_id_valid [OF g assms(3,4)]
    by (auto simp: view_def roster_start_def)
  moreover have "only_placeholders (faces c)" using assms(5) by (simp add: only_placeholders_def faces_def)
  ultimately have "shows_roster (faces c') (view k (out s))"
    using welcomed_agree [OF _ _ assms(6)] by (simp add: assms(7) faces_packets view_def)
  then show ?thesis by (rule roster_agrees [OF g assms(3,4)])
qed

text \<open>The demonstration of the server, seen by a client that handles all it is sent.\<close>

theorem client_agrees_with_server_witness:
  "NameOf 2 (session_packets (map (\<lambda>b. (demo_world, b)) (since_welcome (inbox 7 (out demo)))) (Session_new True (\<lambda>_. 0))) = ''Dogmeat''"
proof -
  obtain p where p: "map_of (players demo) 7 = Some p" "p_id p = 1" "p_handshaked p" using demo_Nora by blast
  let ?ps = "map (\<lambda>b. (demo_world, b)) (since_welcome (inbox 7 (out demo)))"
  have "map snd ?ps = since_welcome (inbox 7 (out demo))" by (simp add: comp_def)
  moreover have "r_players (Session_new True (\<lambda>_. 0)) = []" by (simp add: Session_new_def)
  ultimately have "\<exists>q. map_of (r_players (session_packets ?ps (Session_new True (\<lambda>_. 0)))) 2 = Some q \<and> rp_name q = ''Dogmeat''"
    using client_agrees_with_server [OF demo_ids demo_def p(1,3) _ _ refl, of "Session_new True (\<lambda>_. 0)" ?ps] p(2) demo_Dogmeat
    by simp
  then show ?thesis by (auto simp: NameOf_def RemotePlayers_Find_def)
qed

end
