(* ===== verification/F4_BeforeWelcome.thy ===== *)
theory F4_BeforeWelcome
  imports F4_ClientRoster F4_ClientSpec
begin

text \<open>
  Before the server has welcomed it the client sends nothing but hello: one lemma per
  operation, then every input.
\<close>

text \<open>Nothing is sent but a hello the server accepts, reliably.\<close>

definition hello_only :: "call \<Rightarrow> bool" where
  "hello_only c = (case c of Enet (PeerSend p n b bytes) \<Rightarrow> b \<and> valid_hello bytes | _ \<Rightarrow> True)"

text \<open>A step that sends at most hello and does not get itself welcomed.\<close>

definition shy :: "Session \<Rightarrow> Session \<Rightarrow> bool" where
  "shy s s' = ((\<exists>cs. e_calls s' = e_calls s @ cs \<and> list_all hello_only cs) \<and> (s_welcomed s' \<longrightarrow> s_welcomed s))"

lemma shy_trans: "shy s t \<Longrightarrow> shy t u \<Longrightarrow> shy s u"
  by (auto simp: shy_def)

lemma shy_calls: "calls_only hello_only s s' \<Longrightarrow> shy s s'"
  using calls_only_session [of hello_only s s'] by (auto simp: shy_def calls_only_def)

lemma shy_same: "e_calls s' = e_calls s \<Longrightarrow> s_welcomed s' = s_welcomed s \<Longrightarrow> shy s s'"
  by (simp add: shy_def)

lemma shy_refl [simp]: "shy s s"
  by (simp add: shy_same)

lemma shy_then: "shy s t \<Longrightarrow> e_calls u = e_calls t \<Longrightarrow> s_welcomed u = s_welcomed t \<Longrightarrow> shy s u"
  by (simp add: shy_def)

lemma shy_if: "shy s t \<Longrightarrow> shy s u \<Longrightarrow> shy s (if b then t else u)"
  by simp

lemma hello_only_frees [simp]:
  "acts_on r hello_only" "ui_free hello_only" "form_free hello_only" "allows W hello_only"
  by (simp_all add: acts_on_def ui_free_def form_free_def allows_def hello_only_def)

lemma shy_prints [simp]: "shy s (Print W msg s)" "shy s (ConsolePrint W msg s)" "shy s (RestorePlayerControl W s)"
  by (rule shy_calls, rule call_rules, simp)+

lemma shy_fold: "(\<And>x s. shy s (f x s)) \<Longrightarrow> shy s (fold f xs s)"
  by (induction xs arbitrary: s) (auto intro: shy_trans)

lemma shy_do: "hello_only c \<Longrightarrow> shy s (do_call c s)"
  by (rule shy_calls) (rule calls_only_do)

lemma shy_Add: "shy s (RemotePlayers_Add i n s)"
  unfolding RemotePlayers_Add_def Let_def
  by (rule shy_trans [OF shy_same shy_calls [OF calls_RenameCloneBase]]) (simp_all add: put_remote_def)

lemma shy_Rename: "shy s (RemotePlayers_Rename W i n s)"
proof (cases "map_of (r_players s) i")
  case (Some p)
  let ?u = "RenameCloneBase (rp_base p) n (put_remote i (p\<lparr>rp_name := n\<rparr>) s)"
  have u: "shy s ?u"
    by (rule shy_trans [OF shy_same shy_calls [OF calls_RenameCloneBase]]) (simp_all add: put_remote_def)
  have "shy s (ApplyCloneIdentity (Some r) n False ?u)" for r
    by (rule shy_trans [OF u shy_calls [OF calls_ApplyCloneIdentity]]) simp
  then show ?thesis using u by (simp add: RemotePlayers_Rename_def Some Let_def split: option.split)
qed (simp add: RemotePlayers_Rename_def shy_Add)

lemma shy_Despawn: "shy s (snd (Despawn W h s))"
  using calls_Despawn_allowed [of W hello_only s h] by (simp add: shy_calls)

lemma shy_Remove: "shy s (RemotePlayers_Remove W i s)"
  by (auto simp: RemotePlayers_Remove_def case_prod_beta intro: shy_then [OF shy_Despawn] split: option.split)

lemma shy_ApplyState: "shy s (RemotePlayers_ApplyState i st t s)"
proof -
  obtain u where u: "u = (if map_of (r_players s) i = None then RemotePlayers_Add i (CHR ''#'' # to_string (unat i)) s else s)"
    by blast
  have su: "shy s u" by (simp add: u shy_Add)
  have n: "e_calls (NoteServerTime m v) = e_calls v" "s_welcomed (NoteServerTime m v) = s_welcomed v" for m and v :: Session
    by (simp_all add: NoteServerTime_def LocalMs_def e_now_def Let_def)
  show ?thesis
    unfolding RemotePlayers_ApplyState_def Let_def u [symmetric] case_prod_beta
    by (rule shy_then [OF su]) (auto simp: n put_remote_def split: option.split)
qed

lemma shy_DespawnAll: "shy s (DespawnAll W s)"
  using Despawn_loop_frame [of W hello_only "r_players s" s]
  by (auto simp: DespawnAll_def case_prod_beta intro: shy_then [OF shy_calls])

lemma shy_Respawn: "shy s (Respawn W s)"
  by (auto simp: Respawn_def Let_def intro: shy_then [OF shy_DespawnAll])

lemma shy_Clear: "shy s (RemotePlayers_Clear W s)"
  by (auto simp: RemotePlayers_Clear_def Let_def intro: shy_then [OF shy_DespawnAll])

section \<open>The connection\<close>

lemma valid_hello_Encode:
  "hello_protocolVersion m = PROTOCOL_VERSION \<Longrightarrow> valid_hello (Encode kHello HelloMsg_Write m)"
proof -
  assume v: "hello_protocolVersion m = PROTOCOL_VERSION"
  have "message_id (Encode kHello HelloMsg_Write m) = Some kHello"
    by (simp add: hello_msg.Encode_image message_id_Cons)
  moreover have "body HelloMsg_Read (Encode kHello HelloMsg_Write m) = Some (HelloMsg_canon m)"
    by (simp add: body_def hello_msg.receive_Encode)
  ultimately show ?thesis using v by (simp add: valid_hello_def HelloMsg_canon_def)
qed

lemma shy_hello: "shy s (on_connected W s)"
proof -
  have "shy u (NetClient_Send kReliable (Encode kHello HelloMsg_Write m) u)" if "hello_protocolVersion m = PROTOCOL_VERSION"
    for u m
    by (rule shy_calls, rule calls_NetClient_Send) (simp add: hello_only_def valid_hello_Encode that)
  note hello = this
  show ?thesis
    unfolding on_connected_def Let_def by (rule shy_trans [OF shy_same hello]) simp_all
qed

lemma shy_disconnected: "shy s (on_disconnected W reason s)"
  unfolding on_disconnected_def Let_def
  by (rule shy_trans [OF _ shy_trans [OF shy_Clear shy_prints(1)]]) (simp add: shy_def)

lemma shy_enet: "hello_only (Enet c) \<Longrightarrow> shy s (enet c s)"
  unfolding enet_def by (rule shy_do)

lemma hello_only_calls [simp]:
  "hello_only (Enet (HostCreate a b))" "hello_only (Enet (AddressSetHost h))" "hello_only (Enet (HostConnect q a))"
  "hello_only (Enet (PeerTimeout k u v w))" "hello_only (Enet (PeerDisconnectNow k))" "hello_only (Enet (PeerReset k))"
  "hello_only (Enet HostService)" "hello_only (Enet PacketDestroy)" "hello_only (Ui x)"
  by (simp_all add: hello_only_def)

lemma shy_Reset: "shy s (NetClient_Reset s)"
proof -
  have "shy s ((enet c s)\<lparr>n_peer := None, n_state := kDisconnected\<rparr>)" if "hello_only (Enet c)" for c
    by (rule shy_then [OF shy_enet [OF that]]) simp_all
  then show ?thesis
    by (auto simp: NetClient_Reset_def Let_def shy_same split: option.split)
qed

lemma shy_Connect: "shy s (snd (NetClient_Connect W h p s))"
proof -
  have e: "shy s (enet c u)" if "shy s u" "hello_only (Enet c)" for c u
    using that by (intro shy_trans [OF that(1) shy_enet])
  obtain u1 where u1: "u1 = NetClient_Reset s" by blast
  have s1: "shy s u1" by (simp add: u1 shy_Reset)
  obtain u2 where u2: "u2 = (if n_host u1 then u1 else let s = enet (HostCreate 1 (unat (channel_number kCount))) u1
      in s\<lparr>n_host := w_host_create W (e_calls s)\<rparr>)" by blast
  have s2: "shy s u2" unfolding u2 Let_def by (intro shy_if s1 shy_then [OF e [OF s1]]) simp_all
  obtain u3 where u3: "u3 = enet (AddressSetHost (takeWhile (\<lambda>c. c \<noteq> char_of (0 :: nat)) h)) u2" by blast
  have s3: "shy s u3" unfolding u3 by (rule e [OF s2]) simp
  obtain u4 where u4: "u4 = (enet (HostConnect p (unat (channel_number kCount))) u3)" by blast
  have s4: "shy s (u4\<lparr>n_peer := k\<rparr>)" for k unfolding u4 by (rule shy_then [OF e [OF s3]]) simp_all
  have s5: "shy s (snd (e_now ((enet (PeerTimeout k a b c) (u4\<lparr>n_peer := j\<rparr>))\<lparr>n_state := kConnecting\<rparr>))\<lparr>n_connectStart := t\<rparr>)"
    for k a b c j t
    by (rule shy_then [OF e [OF s4]]) (simp_all add: e_now_def)
  show ?thesis
    unfolding NetClient_Connect_def u1 [symmetric] Let_def
    unfolding u2 [unfolded Let_def, symmetric]
    unfolding u3 [symmetric] u4 [symmetric]
    using s1 s2 s3 s4 s5 by (simp add: case_prod_beta split: option.split)
qed

lemma shy_Disconnect: "shy s (NetClient_Disconnect (callbacks W) s)"
  unfolding NetClient_Disconnect_def notify_callbacks
  by (intro shy_if shy_refl shy_trans [OF shy_Reset shy_disconnected])

lemma shy_Fail: "shy s (NetClient_Fail (callbacks W) reason s)"
  unfolding NetClient_Fail_def notify_callbacks by (rule shy_trans [OF shy_Reset shy_disconnected])

section \<open>Packets and frames\<close>

lemma shy_HandlePacket:
  assumes "\<not> is_welcome bytes"
  shows "shy s (Session_HandlePacket W bytes s)"
proof -
  obtain i b r m c r' where x: "run_state ReadHeader (Reader_new bytes) = ((i, b), r)"
    "run_state WelcomeMsg_Read r = ((m, c), r')" "message_id bytes = (if b then Some i else None)"
    "body WelcomeMsg_Read bytes = (if b \<and> c then Some m else None)"
    by (rule packet_split [of bytes WelcomeMsg_Read])
  have w: "\<not> c" if "b" "i = kWelcome" using assms that by (auto simp: is_welcome_def x split: if_splits)
  have p: "shy s (Print W msg u)" if "shy s u" for msg u by (rule shy_trans [OF that shy_prints(1)])
  have "Session_HandlePacket W bytes s = (if b \<and> i = kWelcome then s else Session_HandlePacket W bytes s)"
    using w by (simp add: Session_HandlePacket_def x(1,2) Let_def)
  moreover have "shy s (Session_HandlePacket W bytes s)" if "\<not> (b \<and> i = kWelcome)"
    using that unfolding Session_HandlePacket_def x(1) Let_def case_prod_beta fst_conv snd_conv
    by (cases b; simp only: not_True_eq_False not_False_eq_True if_True if_False simp_thms;
        intro shy_if p shy_refl shy_Add shy_Rename shy_Remove shy_ApplyState)
  ultimately show ?thesis by (metis shy_refl)
qed

definition no_welcome_event :: "net_client_event \<Rightarrow> bool" where
  "no_welcome_event e = (case e of CliReceive bytes \<Rightarrow> \<not> is_welcome bytes | _ \<Rightarrow> True)"

lemma shy_pump_event: "no_welcome_event e \<Longrightarrow> shy s (pump_event (callbacks W) e (enet HostService s))"
proof -
  assume ev: "no_welcome_event e"
  have h: "shy s (enet HostService s)" by (rule shy_enet) simp
  have c: "shy s (on_connected W ((enet HostService s)\<lparr>n_state := kConnected\<rparr>))"
    by (rule shy_trans [OF shy_then [OF h] shy_hello]) simp_all
  have d: "shy s (on_disconnected W reason ((enet HostService s)\<lparr>n_peer := None, n_state := kDisconnected\<rparr>))" for reason
    by (rule shy_trans [OF shy_then [OF h] shy_disconnected]) simp_all
  have r: "shy s (enet PacketDestroy (Session_HandlePacket W bytes (enet HostService s)))" if "\<not> is_welcome bytes" for bytes
    by (rule shy_trans [OF h shy_trans [OF shy_HandlePacket [OF that] shy_enet]]) simp
  show ?thesis
    using ev h c d r by (cases e) (simp_all add: pump_event_def callbacks_def notify_disconnected_def no_welcome_event_def Let_def)
qed

lemma shy_events: "list_all no_welcome_event es \<Longrightarrow> shy s (fold (\<lambda>e s. pump_event (callbacks W) e (enet HostService s)) es s)"
  by (induction es arbitrary: s) (auto intro: shy_trans [OF shy_pump_event])

lemma shy_Pump_after:
  assumes "\<not> n_host s \<Longrightarrow> shy t s" and "shy t (pump_loop (callbacks W) es s)"
  shows "shy t (NetClient_Pump (callbacks W) es s)"
proof -
  have "shy t (snd (e_now (pump_loop (callbacks W) es s)))"
    by (rule shy_then [OF assms(2)]) (simp_all add: e_now_def)
  then show ?thesis
    using assms by (simp add: NetClient_Pump_def case_prod_beta Let_def shy_trans [OF _ shy_Fail])
qed

lemma shy_Pump: "list_all no_welcome_event es \<Longrightarrow> shy s (NetClient_Pump (callbacks W) es s)"
  by (rule shy_Pump_after) (simp_all add: pump_loop_def shy_trans [OF shy_events shy_enet])

lemma shy_session_Connect: "shy s (Session_Connect W manual s)"
proof -
  obtain u where u: "u = (if manual then let (t, s) = e_now (s\<lparr>s_manualDisconnect := False\<rparr>); s = s\<lparr>s_lastReconnectAttempt := t\<rparr>
      in if n_state s \<noteq> kDisconnected then NetClient_Disconnect (callbacks W) s else s else s)" by blast
  have v: "shy s ((snd (e_now (s\<lparr>s_manualDisconnect := False\<rparr>)))\<lparr>s_lastReconnectAttempt := t\<rparr>)" for t
    by (rule shy_same) (simp_all add: e_now_def)
  have su: "shy s u" unfolding u Let_def case_prod_beta
    by (intro shy_if shy_refl v shy_trans [OF v shy_Disconnect])
  obtain w where w: "w = Print W (''[F4MP] Connecting to '' @ ServerAddress u @ ''...'') u" by blast
  have sw: "shy s w" unfolding w by (rule shy_trans [OF su shy_prints(1)])
  note c = shy_trans [OF sw shy_Connect]
  show ?thesis
    unfolding Session_Connect_def u [symmetric]
    unfolding Let_def w [symmetric] case_prod_beta
    by (intro shy_if shy_refl shy_prints c shy_trans [OF c shy_prints(1)])
qed

lemma shy_Session_Disconnect: "shy s (Session_Disconnect W manual s)"
proof -
  have m: "shy s (if manual then s\<lparr>s_manualDisconnect := True\<rparr> else s)" by (simp add: shy_same)
  show ?thesis
    unfolding Session_Disconnect_def Let_def
    by (intro shy_if shy_trans [OF m shy_prints(2)] shy_trans [OF m shy_Disconnect])
qed

lemma shy_do_now: "e_calls (do_call c s) = e_calls s @ [c]" "s_welcomed (do_call c s') = s_welcomed s'"
  "e_calls (snd (e_now s)) = e_calls s" "s_welcomed (snd (e_now s')) = s_welcomed s'"
  by (simp_all add: do_call_def e_now_def)

lemma shy_skip_steps:
  "shy s (Finish s)" "shy s (BeginCommands s)" "shy s (AskSex W s)" "shy s (OpenFaceMenu W s)" "shy s (OpenSpecialMenu W s)"
  "shy s (snd (RunNextCommand s))" "shy s (ApplySexChoice W i s)"
  by (simp_all add: shy_def shy_do_now Finish_def BeginCommands_def AskSex_def OpenFaceMenu_def OpenSpecialMenu_def
      RunNextCommand_def ApplySexChoice_def case_prod_beta Let_def split: option.split)

lemma shy_ui: "shy s t \<Longrightarrow> shy s (do_call (Ui x) t)"
  by (rule shy_trans [OF _ shy_do]) simp_all

lemma shy_Start: "shy s (Skip_Start W s)"
  unfolding Skip_Start_def Let_def
  by (intro shy_if shy_skip_steps(1) shy_trans [OF _ shy_skip_steps(2)] shy_trans [OF _ shy_skip_steps(3)] shy_ui shy_prints)

lemma shy_run_commands:
  fixes s :: Session
  shows "shy s (run_commands s)"
proof (induction s rule: run_commands.induct)
  case (1 s)
  obtain b s' where r: "RunNextCommand s = (b, s')" by fastforce
  have "shy s s'" using shy_skip_steps(6) [of s] by (simp add: r)
  then show ?case using 1 r by (subst run_commands.simps) (auto intro: shy_trans split: bool.split)
qed

lemma shy_skip: "shy s (Skip_Update W s)"
proof -
  obtain t u where e: "e_now s = (t, u)" by fastforce
  then have su: "shy s u" by (auto simp: e_now_def intro!: shy_same)
  have f: "shy u (u\<lparr>k_loggedWaiting := b\<rparr>)" "shy u (u\<lparr>k_questStartedAt := q\<rparr>)"
    "shy u (u\<lparr>k_loggedWaiting := b, k_questStartedAt := q\<rparr>)" "shy u (u\<lparr>k_faceMenuSeen := b\<rparr>)" "shy u (u\<lparr>k_specialMenuSeen := b\<rparr>)"
    for b q
    by (rule shy_same; simp)+
  have m: "shy u ((OpenSpecialMenu W u)\<lparr>k_specialMenuSeen := b, k_stateSince := q, k_state := st\<rparr>)" for b q st
    by (rule shy_then [OF shy_skip_steps(5)]) simp_all
  have r: "shy u (Finish (RestorePlayerControl W u))" by (rule shy_trans [OF shy_prints(3) shy_skip_steps(1)])
  have "shy u (update_armed W t u)" "shy u (update_sex_choice W t u)" "shy u (update_wait_for_pod W t u)"
    "shy u (update_face_menu W t u)" "shy u (update_special_menu W t u)" "shy u (if t < k_waitUntil u then u else run_commands u)"
    using f m r
    by (auto simp: update_armed_def update_sex_choice_def update_wait_for_pod_def update_face_menu_def
        update_special_menu_def Let_def shy_skip_steps shy_run_commands intro: shy_trans [OF _ shy_Start])
  then show ?thesis
    by (cases "k_state u") (auto simp: Skip_Update_def e intro: shy_trans [OF su])
qed

lemma shy_reconnect: "shy s (auto_reconnect W s)"
proof -
  have r: "shy s ((snd (e_now s))\<lparr>s_lastReconnectAttempt := t\<rparr>)" "shy s (snd (e_now s))" for t
    by (rule shy_same; simp add: e_now_def)+
  show ?thesis
    unfolding auto_reconnect_def Let_def case_prod_beta
    by (intro shy_if shy_refl r shy_trans [OF r(1) shy_session_Connect])
qed

lemma shy_Tick_after:
  assumes su: "shy s (NetClient_Pump (callbacks W) es t)" and "\<not> s_welcomed s"
  shows "shy s (Tick W es t)"
proof -
  obtain u where u: "u = NetClient_Pump (callbacks W) es t" by blast
  obtain v where v: "v = auto_reconnect W (Skip_Update W u)" by blast
  have sv: "shy s v" unfolding v u by (rule shy_trans [OF shy_trans [OF su shy_skip] shy_reconnect])
  then have "\<not> Session_IsConnected v" using assms(2) by (simp add: shy_def Session_IsConnected_def)
  then show ?thesis using su sv by (simp add: Tick_def u [symmetric] v [symmetric] Let_def)
qed

lemma shy_Tick: "list_all no_welcome_event es \<Longrightarrow> \<not> s_welcomed s \<Longrightarrow> shy s (Tick W es s)"
  by (rule shy_Tick_after [OF shy_Pump])

section \<open>The console\<close>

lemma shy_lists:
  "shy s (fold (ConsolePrint W) xs s)" "shy s (fold (\<lambda>(i, p) s. ConsolePrint W (h i p s) s) ps s)" "shy s (Usage W s)"
  unfolding Usage_def case_prod_beta by (rule shy_fold shy_prints)+

lemma shy_PrintStatus: "shy s (PrintStatus W s)"
  unfolding PrintStatus_def by (rule shy_prints)

lemma shy_PrintPlayers: "shy s (PrintPlayers W s)"
  unfolding PrintPlayers_def Let_def
  by (intro shy_if shy_prints shy_trans [OF shy_trans [OF shy_prints(2) shy_prints(2)] shy_lists(2)])

lemma shy_debug: "shy s (PrintDebug W s)" "shy s (PrintGraph W names s)"
  by (rule shy_calls, rule call_rules, simp)+

lemma shy_clone_option: "clone_option W opt b s = Some s' \<Longrightarrow> shy s s'"
  unfolding clone_option_def SetPacify_def SetGhost_def SetDuplicate_def
  by (auto intro: shy_same shy_Respawn shy_trans [OF shy_same shy_Respawn] split: if_splits)

lemma shy_options: "shy s (snd (SetCloneOption W opt b s))" "shy s (Execute_clonebase W ulong args s)"
proof -
  show "shy s (snd (SetCloneOption W opt b s))"
    by (auto simp: SetCloneOption_def intro: shy_trans [OF shy_clone_option shy_prints(2)] split: option.split)
  have "shy s (Session_SetCloneBase W i s)" for i
    unfolding Session_SetCloneBase_def RemotePlayers_SetCloneBase_def
    by (rule shy_trans [OF shy_trans [OF shy_same shy_Respawn] shy_prints(2)]) simp_all
  then show "shy s (Execute_clonebase W ulong args s)"
    by (auto simp: Execute_clonebase_def Let_def split: option.split list.split prod.split)
qed

lemma shy_talk: "\<not> s_welcomed s \<Longrightarrow> shy s (SendChat W msg s)" "shy s (SetPlayerName W msg s)" "shy s (snd (SetServer msg s))"
proof -
  show "\<not> s_welcomed s \<Longrightarrow> shy s (SendChat W msg s)" by (simp add: SendChat_def Session_IsConnected_def)
  show "shy s (SetPlayerName W msg s)"
    unfolding SetPlayerName_def Let_def by (rule shy_then [OF shy_trans [OF shy_same shy_prints(2)]]) simp_all
  show "shy s (snd (SetServer msg s))" by (auto simp: SetServer_def Let_def shy_same split: option.split)
qed

lemma shy_Execute:
  assumes "\<not> s_welcomed s"
  shows "shy s (Execute W ulong line s)"
proof -
  have r: "shy s (ConsolePrint W msg (RestorePlayerControl W s))" "shy s (Usage W (ConsolePrint W msg s))" for msg
    by (rule shy_trans [OF shy_prints(3) shy_prints(2)]) (rule shy_trans [OF shy_prints(2) shy_lists(3)])
  have c: "shy s (ConsolePrint W msg (snd (SetServer tx s)))" "shy s (Session_Connect W True (snd (SetServer tx s)))" for msg tx
    by (rule shy_trans [OF shy_talk(3) shy_prints(2)]) (rule shy_trans [OF shy_talk(3) shy_session_Connect])
  have "shy s (Execute_command W ulong cmd args s)" for cmd args
    unfolding Execute_command_def Let_def case_prod_beta
    by (intro shy_if shy_refl shy_prints r c shy_lists shy_PrintStatus shy_PrintPlayers shy_debug shy_options shy_talk assms
        shy_session_Connect shy_Session_Disconnect)
  then show ?thesis by (simp add: Execute_def Let_def case_prod_beta)
qed

section \<open>Every input\<close>

lemma shy_game: "shy s (OnEnterWorld s)" "shy s (OnNewGame s)" "shy s (OnLeaveWorld s)"
  by (rule shy_same; simp add: OnEnterWorld_def OnNewGame_def OnLeaveWorld_def ForgetActors_def Skip_OnNewGame_def
      Skip_OnLeaveWorld_def e_now_def Let_def)+

definition no_welcome :: "World \<times> client_input \<Rightarrow> bool" where
  "no_welcome i = (case snd i of InTick es \<Rightarrow> list_all no_welcome_event es | _ \<Rightarrow> True)"

lemma shy_input: "no_welcome i \<Longrightarrow> \<not> s_welcomed s \<Longrightarrow> shy s (client_run ulong i s)"
  unfolding client_run_def client_step_def no_welcome_def
  by (cases "snd i") (simp_all add: shy_Tick shy_game shy_Execute Console_ExecuteCommand_def OnPreSave_def shy_DespawnAll SexChoiceCallback_def shy_same)

lemma shy_run: "list_all no_welcome inputs \<Longrightarrow> \<not> s_welcomed s \<Longrightarrow> shy s (client_runs ulong inputs s)"
proof (induction inputs arbitrary: s)
  case (Cons i inputs)
  have "shy s (client_run ulong i s)" using Cons.prems by (simp add: shy_input)
  moreover from this have "shy (client_run ulong i s) (client_runs ulong inputs (client_run ulong i s))"
    using Cons by (auto simp: shy_def)
  ultimately show ?case by (simp add: client_runs_def shy_trans)
qed (simp add: client_runs_def)

lemma load_quiet: "\<not> s_welcomed (plugin_load W ulong initialized clk path file)"
  "list_all hello_only (e_calls (plugin_load W ulong initialized clk path file))"
  by (simp_all add: plugin_load_def Register_def do_call_def hello_only_def Session_Init_def Configure_def RemotePlayers_SetCloneBase_def Respawn_def DespawnAll_def
      Session_new_def Let_def)

text \<open>C24. Until the server welcomes it the client gives nothing away: whatever the game, the player at the console
  and the network do, as long as no readable welcome arrives every packet it sends is a hello of the server's
  protocol version, complete and on the reliable channel.\<close>

theorem nothing_before_welcome:
  assumes "list_all no_welcome inputs"
    and "Enet (PeerSend p n b bytes) \<in> set (e_calls (client_runs ulong inputs (plugin_load W ulong initialized clk path file)))"
  shows "valid_hello bytes \<and> b"
proof -
  let ?s = "plugin_load W ulong initialized clk path file"
  have "shy ?s (client_runs ulong inputs ?s)" by (rule shy_run [OF assms(1) load_quiet(1)])
  moreover have "list_all hello_only (e_calls ?s)" by (rule load_quiet(2))
  ultimately have "list_all hello_only (e_calls (client_runs ulong inputs ?s))" by (auto simp: shy_def)
  then have "hello_only (Enet (PeerSend p n b bytes))" using assms(2) by (auto simp: list_all_iff)
  then show ?thesis by (simp add: hello_only_def)
qed

text \<open>The demonstration client connects and is answered with a refusal of another version's server.\<close>

definition demo_refused :: "(World \<times> client_input) list" where
  "demo_refused = take 2 demo_connected @ [(demo_world, InTick [CliConnect, CliReceive (reject_bytes ''Server is full'')])]"

lemma demo_refused_quiet: "list_all no_welcome demo_refused"
  by (simp add: demo_refused_def demo_connected_def no_welcome_def no_welcome_event_def is_welcome_def message_ids server_msg_ids)

lemma demo_refused_hello:
  "\<exists>n b bytes. Enet (PeerSend 1 n b bytes) \<in> set (e_calls (client_runs 32 demo_refused demo_load))"
proof -
  let ?es = "[CliConnect, CliReceive (reject_bytes ''Server is full'')]"
  have q: "list_all no_welcome_event ?es" "list_all no_welcome_event [CliReceive (reject_bytes ''Server is full'')]"
    by (simp_all add: no_welcome_event_def is_welcome_def message_ids server_msg_ids)
  obtain t where t: "t = pump_event (callbacks demo_world) CliConnect (enet HostService demo_connecting)" by blast
  have "\<exists>n b bytes. Enet (PeerSend 1 n b bytes) \<in> set (e_calls t)"
    using demo_connecting_fields(8)
    by (simp add: t pump_event_def callbacks_def on_connected_def NetClient_Send_def enet_def do_call_def Let_def) blast
  moreover have "shy t (Tick demo_world ?es demo_connecting)"
  proof (rule shy_Tick_after)
    have "shy demo_connecting t" unfolding t by (rule shy_pump_event) (simp add: no_welcome_event_def)
    then show "\<not> s_welcomed t" using demo_connecting_fields(5) by (auto simp: shy_def)
    have "shy t (pump_loop (callbacks demo_world) ?es demo_connecting)"
      using shy_trans [OF shy_events [OF q(2), of t demo_world] shy_enet [of HostService]] by (simp add: pump_loop_def t)
    then show "shy t (NetClient_Pump (callbacks demo_world) ?es demo_connecting)"
      by (rule shy_Pump_after [rotated]) (simp add: demo_connecting_fields)
  qed
  moreover have "client_runs 32 demo_refused demo_load = Tick demo_world ?es demo_connecting"
    by (simp add: demo_refused_def client_runs_def demo_connecting_def client_run_def client_step_def)
  ultimately show ?thesis by (fastforce simp: shy_def)
qed

theorem nothing_before_welcome_witness:
  "\<exists>n b bytes. Enet (PeerSend 1 n b bytes) \<in> set (e_calls (client_runs 32 demo_refused demo_load)) \<and> valid_hello bytes"
  using demo_refused_hello nothing_before_welcome [OF demo_refused_quiet] unfolding demo_load_def by blast

end
