(* ===== verification/F4_ClientTalk.thy ===== *)
theory F4_ClientTalk
  imports F4_BeforeWelcome
begin

text \<open>
  What a packet of either side must be for the other to read it, and that a client, whatever
  happens to it, sends nothing else: one lemma per operation that sends; the operations that
  send at most hello are those of the time before the welcome.
\<close>

section \<open>Packets the other side reads\<close>

definition reads :: "(Reader, 'a \<times> bool) state \<Rightarrow> u8 list \<Rightarrow> bool" where
  "reads rd b = (body rd b \<noteq> None)"

text \<open>A whole message with an id the server, or a client, has a handler for.\<close>

definition client_packet :: "u8 list \<Rightarrow> bool" where
  "client_packet b =
     (case message_id b of
        None \<Rightarrow> False
      | Some i \<Rightarrow>
          if i = kHello then reads HelloMsg_Read b
          else if i = kPlayerState then reads PlayerStateMsg_Read b
          else if i = kChat then reads ChatMsg_Read b
          else if i = kSetName then reads SetNameMsg_Read b
          else False)"

definition server_packet :: "u8 list \<Rightarrow> bool" where
  "server_packet b =
     (case message_id b of
        None \<Rightarrow> False
      | Some i \<Rightarrow>
          if i = kWelcome then reads WelcomeMsg_Read b
          else if i = kReject then reads RejectMsg_Read b
          else if i = kPlayerJoined then reads PlayerJoinedMsg_Read b
          else if i = kPlayerLeft then reads PlayerLeftMsg_Read b
          else if i = kPlayerRenamed then reads PlayerRenamedMsg_Read b
          else if i = kPlayerStateUpdate then reads PlayerStateUpdateMsg_Read b
          else if i = kChatBroadcast then reads ChatBroadcastMsg_Read b
          else False)"

lemma server_packets [simp]:
  "server_packet (joined_bytes i n)" "server_packet (left_bytes i)" "server_packet (renamed_bytes i n)"
  "server_packet (welcome_bytes i c)" "server_packet (chat_bytes i tx)" "server_packet (reject_bytes tx)"
  "server_packet (update_bytes i t st)"
  by (simp_all add: server_packet_def reads_def message_ids bodies server_msg_ids)

lemma client_message_ids:
  "message_id (Encode kHello HelloMsg_Write h) = Some kHello"
  "message_id (Encode kPlayerState PlayerStateMsg_Write m) = Some kPlayerState"
  "message_id (Encode kChat ChatMsg_Write c) = Some kChat"
  "message_id (Encode kSetName SetNameMsg_Write n) = Some kSetName"
  by (simp_all only: hello_msg.Encode_image player_state_msg.Encode_image chat_msg.Encode_image
      set_name_msg.Encode_image message_id_Cons)

lemma client_reads:
  "reads HelloMsg_Read (Encode kHello HelloMsg_Write h)"
  "reads PlayerStateMsg_Read (Encode kPlayerState PlayerStateMsg_Write m)"
  "reads ChatMsg_Read (Encode kChat ChatMsg_Write c)"
  "reads SetNameMsg_Read (Encode kSetName SetNameMsg_Write n)"
  by (simp_all only: reads_def body_def hello_msg.receive_Encode player_state_msg.receive_Encode chat_msg.receive_Encode
      set_name_msg.receive_Encode option.map option.distinct not_False_eq_True)

lemma client_ids_differ:
  "kPlayerState \<noteq> kHello" "kChat \<noteq> kHello" "kSetName \<noteq> kHello"
  "kChat \<noteq> kPlayerState" "kSetName \<noteq> kPlayerState" "kSetName \<noteq> kChat"
  by (simp_all add: client_msg_ids)

lemma client_packets [simp]:
  "client_packet (Encode kHello HelloMsg_Write h)" "client_packet (Encode kPlayerState PlayerStateMsg_Write m)"
  "client_packet (Encode kChat ChatMsg_Write c)" "client_packet (Encode kSetName SetNameMsg_Write n)"
  unfolding client_packet_def client_message_ids option.case by (simp_all only: client_reads client_ids_differ if_True if_False refl)

definition is_state :: "u8 list \<Rightarrow> bool" where
  "is_state b = (message_id b = Some kPlayerState)"

lemma states [simp]:
  "is_state (Encode kPlayerState PlayerStateMsg_Write m)" "\<not> is_state (Encode kChat ChatMsg_Write c)"
  "\<not> is_state (Encode kSetName SetNameMsg_Write n)"
  unfolding is_state_def client_message_ids by (simp_all add: client_msg_ids)

section \<open>What the client sends\<close>

text \<open>States, and nothing else, travel unreliably.\<close>

definition client_call :: "call \<Rightarrow> bool" where
  "client_call c = (case c of Enet (PeerSend p n rel b) \<Rightarrow> client_packet b \<and> rel = (\<not> is_state b) | _ \<Rightarrow> True)"

definition speaks :: "Session \<Rightarrow> Session \<Rightarrow> bool" where
  "speaks s s' = (\<exists>cs. e_calls s' = e_calls s @ cs \<and> list_all client_call cs)"

lemma valid_hello_packet: "valid_hello b \<Longrightarrow> client_packet b \<and> \<not> is_state b"
  by (auto simp: valid_hello_def client_packet_def reads_def is_state_def client_msg_ids split: option.splits)

lemma hello_only_call: "hello_only c \<Longrightarrow> client_call c"
  by (auto simp: hello_only_def client_call_def valid_hello_packet split: call.splits enet_call.splits)

lemma speaks_shy: "shy s s' \<Longrightarrow> speaks s s'"
  by (auto simp: shy_def speaks_def list_all_iff hello_only_call)

lemma speaks_trans: "speaks s t \<Longrightarrow> speaks t u \<Longrightarrow> speaks s u"
  by (auto simp: speaks_def)

lemma speaks_then: "speaks s t \<Longrightarrow> e_calls u = e_calls t \<Longrightarrow> speaks s u"
  by (simp add: speaks_def)

lemma speaks_same: "e_calls s' = e_calls s \<Longrightarrow> speaks s s'"
  by (simp add: speaks_def)

lemma speaks_refl [simp]: "speaks s s"
  by (simp add: speaks_same)

lemma speaks_if: "speaks s t \<Longrightarrow> speaks s u \<Longrightarrow> speaks s (if b then t else u)"
  by simp

lemma speaks_Send: "client_packet bytes \<Longrightarrow> (ch = kReliable) = (\<not> is_state bytes) \<Longrightarrow> speaks s (NetClient_Send ch bytes s)"
  by (simp add: NetClient_Send_def enet_def do_call_def speaks_def client_call_def split: option.split)

lemma speaks_now: "speaks s (snd (e_now s))"
  by (rule speaks_same) (simp add: e_now_def)

lemma speaks_SendState: "speaks s (SendState W force s)"
proof (cases "LocalPlayer_Sample W (e_calls s)")
  case (Some st)
  have "speaks s ((NetClient_Send kUnreliable (Encode kPlayerState PlayerStateMsg_Write m) (snd (e_now s)))
      \<lparr>s_lastSent := x, s_hasLastSent := True, s_lastSend := n\<rparr>)" for m x n
    by (rule speaks_trans [OF speaks_now speaks_then [OF speaks_Send]]) simp_all
  then show ?thesis
    unfolding SendState_def Some option.case Let_def case_prod_beta by (intro speaks_if speaks_now)
qed (simp add: SendState_def)

lemma speaks_SyncName: "speaks s (SyncName W s)"
proof -
  have n: "speaks s ((snd (e_now s))\<lparr>s_lastNameCheck := t\<rparr>)" for t by (rule speaks_then [OF speaks_now]) simp
  have m: "speaks s (NetClient_Send kReliable (Encode kSetName SetNameMsg_Write m)
      ((snd (e_now s))\<lparr>s_lastNameCheck := t, s_sentName := x\<rparr>))" for t m x
    by (rule speaks_trans [OF speaks_then [OF speaks_now] speaks_Send]) simp_all
  show ?thesis
    unfolding SyncName_def Let_def case_prod_beta by (intro speaks_if speaks_now n m)
qed

lemma speaks_SendChat: "speaks s (SendChat W line s)"
  unfolding SendChat_def Let_def by (intro speaks_if speaks_refl speaks_shy [OF shy_prints(2)] speaks_Send) simp_all

lemma speaks_Update: "speaks s (RemotePlayers_Update W s)"
  using Update_calls [of W hello_only s] by (auto simp: speaks_def list_all_iff hello_only_call)

section \<open>Packets and frames\<close>

lemma speaks_HandlePacket: "speaks s (Session_HandlePacket W bytes s)"
proof (cases "is_welcome bytes")
  case True
  obtain i b r m c r' where x: "run_state ReadHeader (Reader_new bytes) = ((i, b), r)"
    "run_state WelcomeMsg_Read r = ((m, c), r')" "message_id bytes = (if b then Some i else None)"
    "body WelcomeMsg_Read bytes = (if b \<and> c then Some m else None)"
    by (rule packet_split [of bytes WelcomeMsg_Read])
  have w: "b" "i = kWelcome" using True by (auto simp: is_welcome_def x split: if_splits)
  have p: "speaks s (Print W msg u)" if "speaks s u" for msg u
    by (rule speaks_trans [OF that speaks_shy [OF shy_prints(1)]])
  have e: "speaks s (s\<lparr>s_myId := j, s_serverName := n, s_welcomed := True\<rparr>)" for j n by (simp add: speaks_same)
  have st: "speaks s (SendState W f u)" if "speaks s u" for f u by (rule speaks_trans [OF that speaks_SendState])
  show ?thesis
    unfolding Session_HandlePacket_def x(1) Let_def prod.case x(2)
    using w by (simp add: st p e)
next
  case False
  then show ?thesis by (rule speaks_shy [OF shy_HandlePacket])
qed

lemma speaks_pump_event: "speaks s (pump_event (callbacks W) e (enet HostService s))"
proof (cases e)
  case (CliReceive bytes)
  have "speaks s (enet HostService s)" by (rule speaks_shy [OF shy_enet]) simp
  moreover have "speaks t (enet PacketDestroy t)" for t by (rule speaks_shy [OF shy_enet]) simp
  ultimately have "speaks s (enet PacketDestroy (Session_HandlePacket W bytes (enet HostService s)))"
    using speaks_HandlePacket by (blast intro: speaks_trans)
  then show ?thesis by (simp add: pump_event_def callbacks_def CliReceive)
qed (rule speaks_shy [OF shy_pump_event]; simp add: no_welcome_event_def)+

lemma speaks_Pump: "speaks s (NetClient_Pump (callbacks W) es s)"
proof -
  have "speaks s (fold (\<lambda>e s. pump_event (callbacks W) e (enet HostService s)) es s)"
    by (induction es arbitrary: s) (auto intro: speaks_trans [OF speaks_pump_event])
  moreover have "speaks t (enet HostService t)" for t by (rule speaks_shy [OF shy_enet]) simp
  ultimately have l: "speaks s (pump_loop (callbacks W) es s)" unfolding pump_loop_def by (rule speaks_trans)
  have f: "speaks t (NetClient_Fail (callbacks W) reason t)" for t reason by (rule speaks_shy [OF shy_Fail])
  note n = speaks_trans [OF l speaks_now]
  show ?thesis
    unfolding NetClient_Pump_def Let_def case_prod_beta by (intro speaks_if speaks_refl l n speaks_trans [OF n f])
qed

lemma speaks_Tick: "speaks s (Tick W es s)"
proof -
  obtain v where v: "v = auto_reconnect W (Skip_Update W (NetClient_Pump (callbacks W) es s))" by blast
  have sv: "speaks s v"
    unfolding v by (rule speaks_trans [OF speaks_Pump speaks_shy [OF shy_trans [OF shy_skip shy_reconnect]]])
  have "speaks v (RemotePlayers_Update W (SyncName W (SendState W False v)))"
    by (rule speaks_trans [OF speaks_SendState speaks_trans [OF speaks_SyncName speaks_Update]])
  then show ?thesis
    unfolding Tick_def Let_def v [symmetric] by (intro speaks_if speaks_Pump sv speaks_trans [OF sv])
qed

lemma speaks_Execute: "speaks s (Execute W ulong line s)"
proof -
  have r: "shy s (ConsolePrint W msg (RestorePlayerControl W s))" "shy s (Usage W (ConsolePrint W msg s))" for msg
    by (rule shy_trans [OF shy_prints(3) shy_prints(2)]) (rule shy_trans [OF shy_prints(2) shy_lists(3)])
  have c: "shy s (ConsolePrint W msg (snd (SetServer tx s)))" "shy s (Session_Connect W True (snd (SetServer tx s)))" for msg tx
    by (rule shy_trans [OF shy_talk(3) shy_prints(2)]) (rule shy_trans [OF shy_talk(3) shy_session_Connect])
  have name: "shy s (SetPlayerName W msg s)" for msg
    unfolding SetPlayerName_def Let_def by (rule shy_then [OF shy_trans [OF shy_same shy_prints(2)]]) simp_all
  have "speaks s (Execute_command W ulong cmd args s)" for cmd args
    unfolding Execute_command_def Let_def case_prod_beta
    by (intro speaks_if speaks_SendChat)
      (rule speaks_shy, intro shy_refl shy_prints r c shy_lists shy_PrintStatus shy_PrintPlayers shy_debug shy_options
        name shy_talk(3) shy_session_Connect shy_Session_Disconnect)+
  then show ?thesis by (simp add: Execute_def Let_def case_prod_beta)
qed

text \<open>Every input.\<close>

lemma speaks_input: "speaks s (client_run ulong i s)"
  unfolding client_run_def client_step_def
  by (cases "snd i")
    (simp_all add: speaks_Tick speaks_Execute Console_ExecuteCommand_def OnPreSave_def speaks_shy shy_game shy_DespawnAll
      SexChoiceCallback_def shy_same)

end
