(* ===== verification/F4_ClientLink.thy ===== *)
theory F4_ClientLink
  imports F4_BeforeWelcome
begin

text \<open>
  The client's end of one connection: while the connection stands, what the session shows
  changes by the packets it receives and by nothing else; a client that is connected after
  an input was connected before it, or has been told so by ENet.
\<close>

section \<open>Steps that receive nothing\<close>

definition calm :: "Session \<Rightarrow> Session \<Rightarrow> bool" where
  "calm s s' = (n_state s' = kConnected \<longrightarrow> n_state s = kConnected \<and> faces s' = faces s)"

lemma calm_trans: "calm s t \<Longrightarrow> calm t u \<Longrightarrow> calm s u"
  by (simp add: calm_def)

lemma calm_essence: "essence s' = essence s \<Longrightarrow> calm s s'"
  using essence_state [of s' s] faces_essence [of s' s] by (simp add: calm_def)

lemma calm_place: "place_step s s' \<Longrightarrow> calm s s'"
  using faces_place [of s s'] by (simp add: calm_def place_step_def table_step_def link_of_def)

lemma calm_if: "calm s t \<Longrightarrow> calm s u \<Longrightarrow> calm s (if b then t else u)"
  by simp

lemma calm_off: "n_state s' \<noteq> kConnected \<Longrightarrow> calm s s'"
  by (simp add: calm_def)

lemma on_disconnected_state: "n_state (on_disconnected W reason s) = n_state s"
proof -
  have "essence (on_disconnected W reason s) =
      essence (s\<lparr>s_welcomed := False, s_myId := INVALID_PLAYER_ID, s_serverName := [], s_hasLastSent := False, r_players := []\<rparr>)"
    by (simp only: on_disconnected_def Let_def essence_simps Clear_shape)
  from essence_state [OF this] show ?thesis by simp
qed

lemma Disconnect_state: "n_state (NetClient_Disconnect (callbacks W) s) = kDisconnected"
  by (simp add: NetClient_Disconnect_def on_disconnected_state)

lemma NetClient_Connect_state:
  fixes s :: Session
  shows "n_state s = kDisconnected \<Longrightarrow> n_state (snd (NetClient_Connect W h p s)) \<noteq> kConnected"
  by (simp add: NetClient_Connect_def enet_def do_call_def e_now_def Let_def split: option.split)

lemma calm_Session_Connect: "calm s (Session_Connect W manual s)"
proof -
  obtain u where u: "u = (if manual then let (t, s) = e_now (s\<lparr>s_manualDisconnect := False\<rparr>); s = s\<lparr>s_lastReconnectAttempt := t\<rparr>
      in if n_state s \<noteq> kDisconnected then NetClient_Disconnect (callbacks W) s else s else s)" by blast
  obtain v where v: "v = Print W (''[F4MP] Connecting to '' @ ServerAddress u @ ''...'') u" by blast
  obtain b w where w: "NetClient_Connect W (cc_host (s_config v)) (cc_port (s_config v)) v = (b, w)" by fastforce
  have "n_state w \<noteq> kConnected" if "manual \<or> n_state s = kDisconnected"
  proof -
    have "n_state u = kDisconnected" using that by (auto simp: u Let_def case_prod_beta Disconnect_state e_now_def)
    moreover have "essence v = essence u" by (simp add: v)
    ultimately have "n_state v = kDisconnected" using essence_state [of v u] by simp
    from NetClient_Connect_state [OF this, of W "cc_host (s_config v)" "cc_port (s_config v)"] show ?thesis by (simp add: w)
  qed
  moreover have "n_state (Print W msg w) = n_state w" for msg by (rule essence_state) simp
  moreover have "Session_Connect W manual s =
      (if \<not> s_inWorld s
       then (if manual then ConsolePrint W ''[F4MP] Load a save or start a new game first.'' s else s)
       else if \<not> manual \<and> n_state s \<noteq> kDisconnected then s
       else if b then w else Print W ''[F4MP] Could not start connection (see F4MP.log)'' w)"
    using w unfolding Session_Connect_def u [symmetric] v by (simp only: Let_def prod.case)
  ultimately show ?thesis by (auto intro: calm_essence calm_off)
qed

lemma calm_Session_Disconnect: "calm s (Session_Disconnect W manual s)"
proof -
  have "calm s (ConsolePrint W msg (if manual then s\<lparr>s_manualDisconnect := True\<rparr> else s))" for msg
    by (rule calm_essence) simp
  moreover have "calm s (NetClient_Disconnect (callbacks W) t)" for t
    by (rule calm_off) (simp add: Disconnect_state)
  ultimately show ?thesis
    unfolding Session_Disconnect_def Let_def by (intro calm_if)
qed

lemma calm_reconnect: "calm s (auto_reconnect W s)"
proof -
  have "calm s (Session_Connect W False ((snd (e_now s))\<lparr>s_lastReconnectAttempt := t\<rparr>))" for t
    by (rule calm_trans [OF calm_essence calm_Session_Connect]) simp
  then show ?thesis
    unfolding auto_reconnect_def Let_def case_prod_beta by (auto intro!: calm_if calm_essence)
qed

lemma calm_clonebase: "calm s (Execute_clonebase W ulong args s)"
proof -
  have "place_step s (Session_SetCloneBase W i s)" for i
    unfolding Session_SetCloneBase_def by (rule place_step_essence [OF place_step_SetCloneBase]) simp
  then show ?thesis
    by (auto simp: Execute_clonebase_def Let_def intro: calm_place place_step_prints(1)
        split: option.split list.split prod.split)
qed

lemma calm_command: "calm s (Execute_command W ulong cmd args s)"
proof -
  note p = place_step_prints [THEN calm_place]
  show ?thesis
    unfolding Execute_command_def Let_def case_prod_beta
    by (intro calm_if p calm_Session_Connect calm_Session_Disconnect calm_clonebase
        calm_place [OF place_step_SetCloneOption] calm_trans [OF p(7) p(1)] calm_trans [OF p(7) calm_Session_Connect]
        calm_trans [OF p(8) p(1)] calm_trans [OF p(1) p(2)])
qed

lemma calm_game: "calm s (OnEnterWorld s)" "calm s (OnNewGame s)" "calm s (OnLeaveWorld s)" "calm s (OnPreSave W s)"
proof -
  have e: "calm s (OnEnterWorld s)" for s
    unfolding OnEnterWorld_def by (rule calm_trans [OF calm_essence calm_place [OF place_step_ForgetActors]]) simp
  show "calm s (OnEnterWorld s)" by (rule e)
  show "calm s (OnNewGame s)"
    unfolding OnNewGame_def by (rule calm_trans [OF e calm_essence]) simp
  show "calm s (OnLeaveWorld s)"
    unfolding OnLeaveWorld_def by (rule calm_trans [OF calm_essence calm_place [OF place_step_ForgetActors]]) simp
  show "calm s (OnPreSave W s)"
    unfolding OnPreSave_def by (rule calm_place [OF place_step_DespawnAll])
qed

section \<open>Packets\<close>

text \<open>The packets among a frame's events.\<close>

primrec payloads :: "net_client_event list \<Rightarrow> u8 list list" where
  "payloads [] = []"
| "payloads (e # es) = (case e of CliReceive bytes \<Rightarrow> [bytes] | _ \<Rightarrow> []) @ payloads es"

definition received :: "client_input \<Rightarrow> u8 list list" where
  "received i = (case i of InTick es \<Rightarrow> payloads es | _ \<Rightarrow> [])"

lemma state_table: "table_step s s' \<Longrightarrow> n_state s' = n_state s"
  by (simp add: table_step_def link_of_def)

lemma state_HandlePacket: "n_state (Session_HandlePacket W bytes s) = n_state s"
proof -
  have p: "n_state (Print W msg u) = x" "n_state (SendState W b u) = x" if "n_state u = x" for msg b u x
    using that essence_state [of "Print W msg u" u] essence_state [of "SendState W b u" u] by simp_all
  have i: "n_state (if b then t else u) = x" if "n_state t = x" "n_state u = x" for b t u x
    using that by simp
  have w: "n_state (s\<lparr>s_myId := j, s_serverName := n, s_welcomed := True\<rparr>) = n_state s" for j n by simp
  show ?thesis
    unfolding Session_HandlePacket_def Let_def case_prod_beta
    by (intro i p w refl state_table table_step_Add table_step_Rename table_step_Remove table_step_ApplyState)
qed

definition listens :: "u8 list list \<Rightarrow> Session \<Rightarrow> Session \<Rightarrow> bool" where
  "listens bs s s' = (n_state s' = kConnected \<longrightarrow> n_state s \<noteq> kDisconnected \<and> faces s' = fold heard bs (faces s))"

lemma listens_calm: "listens bs s t \<Longrightarrow> calm t u \<Longrightarrow> listens bs s u"
  by (simp add: listens_def calm_def)

lemma listens_events:
  "events_ok (n_state s) es \<Longrightarrow> listens (payloads es) s (fold (\<lambda>e s. pump_event (callbacks W) e (enet HostService s)) es s)"
proof (induction es arbitrary: s)
  case Nil
  then show ?case by (simp add: listens_def)
next
  case (Cons e es)
  let ?s = "enet HostService s"
  let ?t = "pump_event (callbacks W) e ?s"
  have n: "n_state ?s = n_state s" by (rule essence_state) simp
  have r: "fold (\<lambda>e s. pump_event (callbacks W) e (enet HostService s)) (e # es) s =
      fold (\<lambda>e s. pump_event (callbacks W) e (enet HostService s)) es ?t" by simp
  show ?case
  proof (cases e)
    case CliConnect
    have t: "n_state ?t = kConnected" "faces ?t = faces s"
      using essence_state [OF essence_on_connected] faces_essence [OF essence_on_connected] faces_enet
      by (simp_all add: pump_event_def callbacks_def CliConnect) (simp add: faces_def enet_def do_call_def)
    then show ?thesis
      using Cons CliConnect unfolding r by (fastforce simp: listens_def)
  next
    case (CliReceive bytes)
    have "faces ?t = heard bytes (faces s)" "n_state ?t = n_state (Session_HandlePacket W bytes ?s)"
      using essence_state [OF essence_enet, of PacketDestroy "Session_HandlePacket W bytes ?s"]
      by (simp_all add: pump_event_def callbacks_def CliReceive faces_enet packet_faces)
    moreover have "n_state (Session_HandlePacket W bytes ?s) = kConnected"
      using Cons.prems n by (simp add: CliReceive state_HandlePacket)
    ultimately show ?thesis
      using Cons CliReceive unfolding r by (fastforce simp: listens_def)
  next
    case CliDisconnect
    then have "n_state ?t = kDisconnected" by (simp add: pump_event_def Let_def on_disconnected_state)
    moreover from this have "listens (payloads es) ?t (fold (\<lambda>e s. pump_event (callbacks W) e (enet HostService s)) es ?t)"
      using Cons.prems by (intro Cons.IH) (simp add: CliDisconnect)
    ultimately show ?thesis unfolding r by (simp add: listens_def)
  next
    case CliNone
    then show ?thesis
      using Cons.IH [of ?s] Cons.prems n unfolding r by (simp add: listens_def pump_event_def faces_enet)
  qed
qed

lemma listens_Pump:
  assumes "events_ok (n_state s) es" and "n_host s"
  shows "listens (payloads es) s (NetClient_Pump (callbacks W) es s)"
proof -
  let ?t = "pump_loop (callbacks W) es s"
  have t: "listens (payloads es) s ?t"
    unfolding pump_loop_def by (rule listens_calm [OF listens_events [OF assms(1)] calm_essence]) simp
  have n: "calm ?t (snd (e_now ?t))" by (rule calm_essence) simp
  have f: "calm ?t (NetClient_Fail (callbacks W) reason u)" for reason u
    by (rule calm_off) (simp add: NetClient_Fail_def on_disconnected_state)
  show ?thesis
    unfolding NetClient_Pump_def Let_def case_prod_beta
    using assms(2) t listens_calm [OF t n] listens_calm [OF t f] by simp
qed

lemma calm_Tick_rest:
  "calm u (if \<not> s_inWorld u then u
     else let s = Skip_Update W u; s = auto_reconnect W s
          in if Session_IsConnected s then RemotePlayers_Update W (SyncName W (SendState W False s)) else s)"
proof -
  have a: "calm u (auto_reconnect W (Skip_Update W u))"
    by (rule calm_trans [OF calm_essence calm_reconnect]) simp
  have "calm s (RemotePlayers_Update W (SyncName W (SendState W False s)))" for s
    by (rule calm_trans [OF calm_essence calm_place [OF place_step_Update]]) simp
  from calm_trans [OF a this] a show ?thesis unfolding Let_def by (intro calm_if) (simp_all add: calm_def)
qed

text \<open>The theorem of the client's end, for every input.\<close>

lemma listens_step:
  assumes "session_ok s" and "client_admits s (W, i)" and "n_state s \<noteq> kDisconnected"
  shows "listens (received i) s (client_run ulong (W, i) s)"
proof -
  have h: "n_host s" using assms(1,3) by (simp add: session_ok_def)
  have c: "listens [] s t" if "calm s t" for t
    using that assms(3) by (auto simp: listens_def calm_def)
  show ?thesis
  proof (cases i)
    case (InTick es)
    have "events_ok (n_state s) es" using assms(2) h by (simp add: client_admits_def InTick)
    from listens_calm [OF listens_Pump [OF this h] calm_Tick_rest] show ?thesis
      by (simp add: client_run_def client_step_def InTick received_def Tick_def Let_def)
  next
    case (InConsole line)
    show ?thesis
      using c [OF calm_command]
      by (simp add: client_run_def client_step_def InConsole received_def Console_ExecuteCommand_def Execute_def
          case_prod_beta Let_def)
  next
    case (InSexAnswer b)
    have "calm s (SexChoiceCallback b s)" by (rule calm_essence) (simp add: SexChoiceCallback_def)
    from c [OF this] show ?thesis by (simp add: client_run_def client_step_def InSexAnswer received_def)
  next
    case InGameDataReady
    then show ?thesis using c [of s] by (simp add: client_run_def client_step_def received_def calm_def)
  qed (simp_all add: client_run_def client_step_def received_def c calm_game)
qed

end
