(* ===== verification/F4_ClientKeeps.thy ===== *)
theory F4_ClientKeeps
  imports F4_ClientTalk F4_ClientLink
begin

text \<open>
  What the client keeps and what it forgets: which fields each operation leaves alone, that
  what the session knows of a server goes with the connection, and when it last sent its
  state. One lemma per operation, then every input.
\<close>

section \<open>What the skip leaves alone\<close>

text \<open>Everything but the state of the skip itself, the calls made and the readings of the clock.\<close>

definition aside where
  "aside (s :: Session) = (e_clock s, (n_host s, n_peer s, n_state s, n_enetReady s, n_connectStart s),
     (r_players s, r_hasOffset s, r_serverClock s), PrologueSkip.more s)"

definition apart :: "Session \<Rightarrow> Session \<Rightarrow> bool" where
  "apart s s' = (aside s' = aside s \<and> e_readings s \<le> e_readings s')"

lemma apart_refl [simp]: "apart s s"
  by (simp add: apart_def)

lemma apart_trans: "apart s t \<Longrightarrow> apart t u \<Longrightarrow> apart s u"
  by (auto simp: apart_def)

lemma apart_if: "apart s t \<Longrightarrow> apart s u \<Longrightarrow> apart s (if b then t else u)"
  by simp

lemma apart_same: "aside s' = aside s \<Longrightarrow> e_readings s' = e_readings s \<Longrightarrow> apart s s'"
  by (simp add: apart_def)

lemma apart_calls: "calls_only P s s' \<Longrightarrow> apart s s'"
  by (cases s; cases s') (simp add: calls_only_def apart_def aside_def)

lemma apart_do: "apart s (do_call c s)"
  by (rule apart_calls [OF calls_only_do [of any_call]]) simp

lemma apart_prints: "apart s (ConsolePrint W msg s)" "apart s (Print W msg s)" "apart s (RestorePlayerControl W s)"
  by (rule apart_calls [of any_call], rule call_rules, simp)+

lemma apart_steps:
  "apart s (Finish s)" "apart s (BeginCommands s)" "apart s (AskSex W s)" "apart s (OpenFaceMenu W s)"
  "apart s (OpenSpecialMenu W s)" "apart s (snd (RunNextCommand s))" "apart s (ApplySexChoice W i s)"
  by (simp_all add: apart_def aside_def do_call_def e_now_def Finish_def BeginCommands_def AskSex_def OpenFaceMenu_def
      OpenSpecialMenu_def RunNextCommand_def ApplySexChoice_def case_prod_beta Let_def split: option.split)

lemma apart_ui: "apart s t \<Longrightarrow> apart s (do_call c t)"
  by (rule apart_trans [OF _ apart_do])

lemma apart_Start: "apart s (Skip_Start W s)"
  unfolding Skip_Start_def Let_def
  by (intro apart_if apart_steps(1) apart_trans [OF _ apart_steps(2)] apart_trans [OF _ apart_steps(3)] apart_ui apart_prints)

lemma apart_run_commands:
  fixes s :: Session
  shows "apart s (run_commands s)"
proof (induction s rule: run_commands.induct)
  case (1 s)
  obtain b s' where r: "RunNextCommand s = (b, s')" by fastforce
  have "apart s s'" using apart_steps(6) [of s] by (simp add: r)
  then show ?case using 1 r by (subst run_commands.simps) (auto intro: apart_trans split: bool.split)
qed

lemma apart_skip: "apart s (Skip_Update W s)"
proof -
  obtain t u where e: "e_now s = (t, u)" by fastforce
  then have su: "apart s u" by (auto simp: e_now_def apart_def aside_def)
  have f: "apart u (u\<lparr>k_loggedWaiting := b\<rparr>)" "apart u (u\<lparr>k_questStartedAt := q\<rparr>)"
    "apart u (u\<lparr>k_loggedWaiting := b, k_questStartedAt := q\<rparr>)" "apart u (u\<lparr>k_faceMenuSeen := b\<rparr>)" "apart u (u\<lparr>k_specialMenuSeen := b\<rparr>)"
    for b q
    by (simp_all add: apart_def aside_def)
  have "apart v (v\<lparr>k_specialMenuSeen := b, k_stateSince := q, k_state := st\<rparr>)" for v b q st
    by (simp add: apart_def aside_def)
  note m = apart_trans [OF apart_steps(5) this]
  have r: "apart u (Finish (RestorePlayerControl W u))" by (rule apart_trans [OF apart_prints(3) apart_steps(1)])
  have "apart u (update_armed W t u)" "apart u (update_sex_choice W t u)" "apart u (update_wait_for_pod W t u)"
    "apart u (update_face_menu W t u)" "apart u (update_special_menu W t u)" "apart u (if t < k_waitUntil u then u else run_commands u)"
    using f m r
    by (auto simp: update_armed_def update_sex_choice_def update_wait_for_pod_def update_face_menu_def
        update_special_menu_def Let_def apart_steps apart_run_commands intro: apart_trans [OF _ apart_Start])
  then show ?thesis
    by (cases "k_state u") (auto simp: Skip_Update_def e intro: apart_trans [OF su])
qed

lemma apart_fields:
  assumes "apart s s'"
  shows "e_clock s' = e_clock s" "n_host s' = n_host s" "n_peer s' = n_peer s" "n_state s' = n_state s"
    "n_enetReady s' = n_enetReady s" "r_players s' = r_players s" "r_hasOffset s' = r_hasOffset s"
    "r_serverClock s' = r_serverClock s" "s_config s' = s_config s" "s_serverName s' = s_serverName s" "s_inWorld s' = s_inWorld s"
    "s_manualDisconnect s' = s_manualDisconnect s" "s_lastSend s' = s_lastSend s"
    "s_lastReconnectAttempt s' = s_lastReconnectAttempt s" "s_hasLastSent s' = s_hasLastSent s" "e_readings s \<le> e_readings s'"
  using assms by (cases s; cases s'; simp add: apart_def aside_def)+

section \<open>What is kept and what is forgotten\<close>

text \<open>What the session remembers of a server beyond the invariant \<open>session_ok\<close>; a session without a connection
  remembers nothing.\<close>

definition memory where
  "memory (s :: Session) = (s_serverName s, s_hasLastSent s, r_hasOffset s, r_serverClock s)"

definition blank :: "Session \<Rightarrow> bool" where
  "blank s = (memory s = ([], False, False, ServerClock_new))"

definition tidy :: "Session \<Rightarrow> Session \<Rightarrow> bool" where
  "tidy s s' = ((n_state s \<noteq> kConnected \<longrightarrow> blank s) \<longrightarrow> n_state s' \<noteq> kConnected \<longrightarrow> blank s')"

text \<open>The time of the last state, the rate, and the clock stay.\<close>

definition pace :: "Session \<Rightarrow> Session \<Rightarrow> bool" where
  "pace s s' = (s_lastSend s' = s_lastSend s \<and> cc_sendRate (s_config s') = cc_sendRate (s_config s) \<and>
     e_clock s' = e_clock s \<and> e_readings s \<le> e_readings s')"

definition steady :: "Session \<Rightarrow> Session \<Rightarrow> bool" where
  "steady s s' = (pace s s' \<and> tidy s s')"

text \<open>All of it, and the connection.\<close>

definition still :: "Session \<Rightarrow> Session \<Rightarrow> bool" where
  "still s s' = (pace s s' \<and> n_state s' = n_state s \<and> s_inWorld s' = s_inWorld s \<and> memory s' = memory s)"

lemma still_steady: "still s s' \<Longrightarrow> steady s s'"
  by (simp add: still_def steady_def tidy_def blank_def)

lemma keeps_trans:
  "pace s t \<Longrightarrow> pace t u \<Longrightarrow> pace s u" "tidy s t \<Longrightarrow> tidy t u \<Longrightarrow> tidy s u"
  "steady s t \<Longrightarrow> steady t u \<Longrightarrow> steady s u" "still s t \<Longrightarrow> still t u \<Longrightarrow> still s u"
  by (auto simp: pace_def tidy_def steady_def still_def)

lemma keeps_refl [simp]: "pace s s" "tidy s s" "steady s s" "still s s"
  by (simp_all add: pace_def tidy_def steady_def still_def)

lemma keeps_if:
  "pace s t \<Longrightarrow> pace s u \<Longrightarrow> pace s (if b then t else u)" "steady s t \<Longrightarrow> steady s u \<Longrightarrow> steady s (if b then t else u)"
  "still s t \<Longrightarrow> still s u \<Longrightarrow> still s (if b then t else u)"
  by simp_all

lemma steadyD: "steady s s' \<Longrightarrow> pace s s'" "steady s s' \<Longrightarrow> tidy s s'"
  by (simp_all add: steady_def)

lemma stillD: "still s s' \<Longrightarrow> pace s s'" "still s s' \<Longrightarrow> tidy s s'"
  using still_steady steadyD by blast+

lemmas still_then = keeps_trans(3) [OF still_steady still_steady]

lemma still_apart: "apart s s' \<Longrightarrow> still s s'"
  using apart_fields [of s s'] by (simp add: still_def pace_def memory_def)

lemma still_calls: "calls_only P s s' \<Longrightarrow> still s s'"
  by (rule still_apart [OF apart_calls])

lemma still_fold: "(\<And>x s. still s (f x s)) \<Longrightarrow> still s (fold f xs s)"
  by (induction xs arbitrary: s) (auto intro: keeps_trans(4))

text \<open>Updates of the fields that play no part in it.\<close>

definition keeps_view where
  "keeps_view (s :: Session) = (memory s, n_state s, s_inWorld s, s_lastSend s, cc_sendRate (s_config s), e_clock s, e_readings s)"

lemma still_view: "still s t \<Longrightarrow> keeps_view u = keeps_view t \<Longrightarrow> still s u"
  by (simp add: still_def pace_def keeps_view_def)

lemma still_same: "keeps_view u = keeps_view s \<Longrightarrow> still s u"
  by (rule still_view [OF keeps_refl(4)])

lemmas keeps_view_simps = keeps_view_def memory_def

section \<open>The remote players\<close>

lemma still_prints [simp]: "still s (Print W msg s)" "still s (ConsolePrint W msg s)" "still s (RestorePlayerControl W s)"
  by (rule still_apart [OF apart_prints(2)], rule still_apart [OF apart_prints(1)], rule still_apart [OF apart_prints(3)])

lemma still_put: "still s (put_remote i p s)"
  by (rule still_same) (simp add: put_remote_def keeps_view_simps)

lemma still_Add: "still s (RemotePlayers_Add i n s)"
  unfolding RemotePlayers_Add_def Let_def
  by (rule keeps_trans(4) [OF still_put still_calls [OF calls_RenameCloneBase [of any_call]]]) simp

lemma still_Rename: "still s (RemotePlayers_Rename W i n s)"
proof (cases "map_of (r_players s) i")
  case (Some p)
  let ?u = "RenameCloneBase (rp_base p) n (put_remote i (p\<lparr>rp_name := n\<rparr>) s)"
  have u: "still s ?u"
    by (rule keeps_trans(4) [OF still_put still_calls [OF calls_RenameCloneBase [of any_call]]]) simp
  have "still s (ApplyCloneIdentity (Some r) n False ?u)" for r
    by (rule keeps_trans(4) [OF u still_calls [OF calls_ApplyCloneIdentity [of _ any_call]]]) simp
  then show ?thesis using u by (simp add: RemotePlayers_Rename_def Some Let_def split: option.split)
qed (simp add: RemotePlayers_Rename_def still_Add)

lemma still_Despawn: "still s (snd (Despawn W h s))"
  using calls_Despawn_allowed [OF allows_any, of s W h] by (blast intro: still_calls)

lemma still_Remove: "still s (RemotePlayers_Remove W i s)"
  by (auto simp: RemotePlayers_Remove_def case_prod_beta keeps_view_simps intro: still_view [OF still_Despawn] split: option.split)

lemma still_DespawnAll: "still s (DespawnAll W s)"
  using Despawn_loop_frame [OF allows_any, of W "r_players s" s]
  by (auto simp: DespawnAll_def case_prod_beta keeps_view_simps intro: still_view [OF still_calls])

lemma still_Respawn: "still s (Respawn W s)"
  by (auto simp: Respawn_def Let_def keeps_view_simps intro: still_view [OF still_DespawnAll])

lemma still_Update: "still s (RemotePlayers_Update W s)"
proof (cases "GetSpace W (e_calls s) (GetPlayer W (e_calls s))")
  case (Some space)
  have n: "calls_only any_call s (snd (e_now (snd (e_now s))))"
    by (rule calls_only_trans [OF calls_only_now calls_only_now])
  have "still s (snd (Update_loop W space t m ps (snd (e_now (snd (e_now s))))))" for t m ps
    by (rule still_calls [OF calls_only_trans [OF n conjunct2 [OF Update_loop_frame [OF allows_any]]]])
  from still_view [OF this] show ?thesis
    by (simp add: RemotePlayers_Update_def Some LocalMs_def case_prod_beta Let_def keeps_view_simps)
qed (simp add: RemotePlayers_Update_def)

text \<open>A state update starts the server's clock and the offset.\<close>

lemma pace_ApplyState: "pace s (RemotePlayers_ApplyState i st t s)"
proof -
  obtain u where u: "u = (if map_of (r_players s) i = None then RemotePlayers_Add i (CHR ''#'' # to_string (unat i)) s else s)"
    by blast
  have su: "pace s u" by (simp add: u stillD(1) [OF still_Add])
  have n: "pace v (NoteServerTime m (v\<lparr>r_serverClock := c\<rparr>))" for m c and v :: Session
    by (simp add: NoteServerTime_def LocalMs_def e_now_def Let_def pace_def)
  show ?thesis
    unfolding RemotePlayers_ApplyState_def Let_def u [symmetric] case_prod_beta
    by (auto intro: keeps_trans(1) [OF su] keeps_trans(1) [OF n] n stillD(1) [OF still_put] split: option.split)
qed

section \<open>The connection\<close>

text \<open>With the connection goes what it brought.\<close>

lemma disconnected_frame:
  "pace s (on_disconnected W reason s) \<and> blank (on_disconnected W reason s) \<and>
    n_state (on_disconnected W reason s) = n_state s"
proof -
  let ?t = "s\<lparr>s_welcomed := False, s_myId := INVALID_PLAYER_ID, s_serverName := [], s_hasLastSent := False\<rparr>"
  have d: "still ?t (DespawnAll W ?t)" by (rule still_DespawnAll)
  have c: "pace s (RemotePlayers_Clear W ?t) \<and> blank (RemotePlayers_Clear W ?t) \<and> n_state (RemotePlayers_Clear W ?t) = n_state s"
    using d by (auto simp: RemotePlayers_Clear_def Let_def still_def pace_def blank_def memory_def ServerClock_Reset_def)
  have "still v (Print W msg v)" for msg v by simp
  then show ?thesis
    using c unfolding on_disconnected_def Let_def by (auto simp: still_def blank_def intro: keeps_trans(1))
qed

lemma steady_disconnected: "steady s (on_disconnected W reason s)"
  using disconnected_frame [of s W reason] by (simp add: steady_def tidy_def)

text \<open>The operations of the connection touch nothing but the connection.\<close>

lemma Reset_frame:
  fixes s :: Session
  shows "NetClient.more (NetClient_Reset s) = NetClient.more s" "e_clock (NetClient_Reset s) = e_clock s"
    "e_readings (NetClient_Reset s) = e_readings s" "n_state (NetClient_Reset s) = kDisconnected"
  by (simp_all add: NetClient_Reset_def enet_def do_call_def Let_def split: option.split)

lemma Connect_frame:
  fixes s :: Session
  shows "NetClient.more (snd (NetClient_Connect W h p s)) = NetClient.more s"
    "e_clock (snd (NetClient_Connect W h p s)) = e_clock s" "e_readings s \<le> e_readings (snd (NetClient_Connect W h p s))"
  by (simp_all add: NetClient_Connect_def enet_def do_call_def e_now_def Let_def Reset_frame split: option.split)

lemma beyond_connection:
  fixes s s' :: Session
  assumes "NetClient.more s' = NetClient.more s" and "e_clock s' = e_clock s" and "e_readings s \<le> e_readings s'"
  shows "pace s s'" "memory s' = memory s"
  using assms by (cases s; cases s'; simp add: pace_def memory_def)+

lemma Reset_keeps: "pace s (NetClient_Reset s)" "memory (NetClient_Reset s) = memory s"
  by (rule beyond_connection; simp add: Reset_frame)+

lemma steady_drop: "steady s (on_disconnected W reason (NetClient_Reset s))"
  using disconnected_frame [of "NetClient_Reset s" W reason] keeps_trans(1) [OF Reset_keeps(1)]
  by (simp add: steady_def tidy_def)

lemma steady_Fail: "steady s (NetClient_Fail (callbacks W) reason s)"
  unfolding NetClient_Fail_def notify_callbacks by (rule steady_drop)

lemma steady_Disconnect:
  "steady s (NetClient_Disconnect (callbacks W) s)" "n_state (NetClient_Disconnect (callbacks W) s) = kDisconnected"
  unfolding NetClient_Disconnect_def notify_callbacks
  by (intro keeps_if keeps_refl steady_drop) (simp add: disconnected_frame Reset_frame)

text \<open>A connection is begun only where there is none.\<close>

lemma steady_Connect: "n_state s = kDisconnected \<Longrightarrow> steady s (snd (NetClient_Connect W h p s))"
  using beyond_connection [OF Connect_frame] by (simp add: steady_def tidy_def blank_def)

lemma still_now: "still s (snd (e_now s))"
  by (rule still_calls [OF calls_only_now [of any_call]])

lemma steady_session_Connect: "steady s (Session_Connect W manual s)"
proof -
  obtain u where u: "u = (if manual then let (t, s) = e_now (s\<lparr>s_manualDisconnect := False\<rparr>); s = s\<lparr>s_lastReconnectAttempt := t\<rparr>
      in if n_state s \<noteq> kDisconnected then NetClient_Disconnect (callbacks W) s else s else s)" by blast
  have v: "still s ((snd (e_now (s\<lparr>s_manualDisconnect := False\<rparr>)))\<lparr>s_lastReconnectAttempt := t\<rparr>)" for t
    by (simp add: e_now_def still_def pace_def memory_def)
  have su: "steady s u" unfolding u Let_def case_prod_beta
    by (intro keeps_if keeps_refl still_steady [OF v] keeps_trans(3) [OF still_steady [OF v] steady_Disconnect(1)])
  have nu: "n_state u = kDisconnected" if "manual \<or> n_state s = kDisconnected"
    using that by (auto simp: u Let_def case_prod_beta steady_Disconnect(2))
  obtain w where w: "w = Print W (''[F4MP] Connecting to '' @ ServerAddress u @ ''...'') u" by blast
  have sw: "steady s w" "n_state w = n_state u"
    using keeps_trans(3) [OF su still_steady [OF still_prints(1)]] still_prints(1) [of u] by (simp_all add: w still_def)
  have c: "steady s (snd (NetClient_Connect W h p w))" if "manual \<or> n_state s = kDisconnected" for h p
    by (rule keeps_trans(3) [OF sw(1) steady_Connect]) (simp add: sw(2) nu that)
  note p = keeps_trans(3) [OF c still_steady [OF still_prints(1)]]
  show ?thesis
    unfolding Session_Connect_def u [symmetric]
    unfolding Let_def w [symmetric] case_prod_beta
    using c p still_steady [OF still_prints(2)] by auto
qed

lemma steady_session_Disconnect: "steady s (Session_Disconnect W manual s)"
proof -
  have m: "steady s (if manual then s\<lparr>s_manualDisconnect := True\<rparr> else s)"
    by (auto intro!: still_steady still_same simp: keeps_view_simps)
  show ?thesis
    unfolding Session_Disconnect_def Let_def
    by (intro keeps_if keeps_trans(3) [OF m still_steady [OF still_prints(2)]] keeps_trans(3) [OF m steady_Disconnect(1)])
qed

lemma steady_reconnect: "steady s (auto_reconnect W s)"
proof -
  have r: "still s ((snd (e_now s))\<lparr>s_lastReconnectAttempt := t\<rparr>)" for t
    by (simp add: e_now_def still_def pace_def memory_def)
  show ?thesis
    unfolding auto_reconnect_def Let_def case_prod_beta
    by (intro keeps_if keeps_refl still_steady [OF still_now] keeps_trans(3) [OF still_steady [OF r] steady_session_Connect])
qed

section \<open>Packets and frames\<close>

lemma still_Send: "still s (NetClient_Send ch bytes s)"
  by (rule still_calls [OF calls_NetClient_Send [of any_call]]) simp

lemma still_enet: "still s (enet c s)"
  unfolding enet_def by (rule still_calls [OF calls_only_do [of any_call]]) simp

lemma still_on_connected: "still s (on_connected W s)"
  unfolding on_connected_def Let_def
  by (rule keeps_trans(4) [OF still_same still_Send]) (simp add: keeps_view_simps)

lemma still_SyncName: "still s (SyncName W s)"
proof -
  have n: "still s ((snd (e_now s))\<lparr>s_lastNameCheck := t\<rparr>)" "still s ((snd (e_now s))\<lparr>s_lastNameCheck := t, s_sentName := x\<rparr>)" for t x
    by (rule still_view [OF still_now], simp add: keeps_view_simps)+
  show ?thesis
    unfolding SyncName_def Let_def case_prod_beta
    by (intro keeps_if still_now n keeps_trans(4) [OF n(2) still_Send])
qed

text \<open>A state is sent on the connection only, and is what the time of the last state follows.\<close>

lemma tidy_connected: "n_state s = kConnected \<Longrightarrow> n_state s' = n_state s \<Longrightarrow> tidy s s'"
  by (simp add: tidy_def)

lemma state_SendState: "n_state (SendState W force s) = n_state s"
  by (rule essence_state) simp

text \<open>Every packet but a welcome leaves the pace alone.\<close>

lemma pace_HandlePacket:
  assumes "\<not> is_welcome bytes"
  shows "pace s (Session_HandlePacket W bytes s)"
proof -
  obtain i b r m c r' where x: "run_state ReadHeader (Reader_new bytes) = ((i, b), r)"
    "run_state WelcomeMsg_Read r = ((m, c), r')" "message_id bytes = (if b then Some i else None)"
    "body WelcomeMsg_Read bytes = (if b \<and> c then Some m else None)"
    by (rule packet_split [of bytes WelcomeMsg_Read])
  have w: "\<not> c" if "b" "i = kWelcome" using assms that by (auto simp: is_welcome_def x split: if_splits)
  have p: "pace s (Print W msg u)" if "pace s u" for msg u by (rule keeps_trans(1) [OF that stillD(1) [OF still_prints(1)]])
  have "Session_HandlePacket W bytes s = (if b \<and> i = kWelcome then s else Session_HandlePacket W bytes s)"
    using w by (simp add: Session_HandlePacket_def x(1,2) Let_def)
  moreover have "pace s (Session_HandlePacket W bytes s)" if "\<not> (b \<and> i = kWelcome)"
    using that unfolding Session_HandlePacket_def x(1) Let_def case_prod_beta fst_conv snd_conv
    by (cases b; simp only: not_True_eq_False not_False_eq_True if_True if_False simp_thms;
        intro keeps_if p keeps_refl stillD(1) [OF still_Add] stillD(1) [OF still_Rename] stillD(1) [OF still_Remove] pace_ApplyState)
  ultimately show ?thesis by (metis keeps_refl(1))
qed

lemma tidy_HandlePacket: "n_state s = kConnected \<Longrightarrow> tidy s (Session_HandlePacket W bytes s)"
  by (rule tidy_connected) (simp_all add: state_HandlePacket)

text \<open>One event of the loop: all but a packet are steady, and a packet finds a connection.\<close>

lemma disconnect_event: "steady s (on_disconnected W reason ((enet HostService s)\<lparr>n_peer := None, n_state := kDisconnected\<rparr>))"
proof -
  have "pace s ((enet HostService s)\<lparr>n_peer := None, n_state := kDisconnected\<rparr>)"
    using stillD(1) [OF still_enet, of s HostService] by (simp add: pace_def)
  then show ?thesis
    using disconnected_frame [of "(enet HostService s)\<lparr>n_peer := None, n_state := kDisconnected\<rparr>" W reason]
    by (auto simp: steady_def tidy_def intro: keeps_trans(1))
qed

lemma connect_event: "steady s (on_connected W ((enet HostService s)\<lparr>n_state := kConnected\<rparr>))"
proof -
  let ?u = "(enet HostService s)\<lparr>n_state := kConnected\<rparr>"
  have "pace s ?u" using stillD(1) [OF still_enet, of s HostService] by (simp add: pace_def)
  moreover have "n_state (on_connected W ?u) = kConnected" using still_on_connected [of ?u W] by (simp add: still_def)
  ultimately show ?thesis
    using stillD(1) [OF still_on_connected, of ?u W] by (auto simp: steady_def tidy_def intro: keeps_trans(1))
qed

lemma steady_pump_event: "\<forall>bytes. e \<noteq> CliReceive bytes \<Longrightarrow> steady s (pump_event (callbacks W) e (enet HostService s))"
  using connect_event disconnect_event still_steady [OF still_enet]
  by (cases e) (simp_all add: pump_event_def callbacks_def notify_disconnected_def Let_def)

lemma receive_event:
  "pump_event (callbacks W) (CliReceive bytes) s = enet PacketDestroy (Session_HandlePacket W bytes s)"
  by (simp add: pump_event_def callbacks_def)

lemma tidy_pump_event:
  assumes "events_ok (n_state s) (e # es)"
  shows "tidy s (pump_event (callbacks W) e (enet HostService s))"
proof (cases "\<exists>bytes. e = CliReceive bytes")
  case True
  then obtain bytes where e: "e = CliReceive bytes" by blast
  then have "n_state (enet HostService s) = kConnected" using assms essence_state [OF essence_enet, of HostService s] by simp
  from tidy_HandlePacket [OF this] show ?thesis unfolding e receive_event
    by (intro keeps_trans(2) [OF keeps_trans(2) [OF stillD(2) [OF still_enet]] stillD(2) [OF still_enet]])
qed (use steadyD(2) [OF steady_pump_event] in blast)

lemma tidy_events:
  "session_ok s \<Longrightarrow> events_ok (n_state s) es \<Longrightarrow> tidy s (fold (\<lambda>e s. pump_event (callbacks W) e (enet HostService s)) es s)"
proof (induction es arbitrary: s)
  case (Cons e es)
  have "session_ok (enet HostService s)" "events_ok (n_state (enet HostService s)) (e # es)"
    using Cons.prems session_ok_essence [OF essence_enet] essence_state [OF essence_enet, of HostService s] by simp_all
  from pump_event_ok [OF this, of W] have "tidy (pump_event (callbacks W) e (enet HostService s))
      (fold (\<lambda>e s. pump_event (callbacks W) e (enet HostService s)) es (pump_event (callbacks W) e (enet HostService s)))"
    by (intro Cons.IH) simp_all
  from keeps_trans(2) [OF tidy_pump_event [OF Cons.prems(2)] this] show ?case by simp
qed simp

lemma tidy_Pump:
  assumes "session_ok s" and "n_host s \<longrightarrow> events_ok (n_state s) es"
  shows "tidy s (NetClient_Pump (callbacks W) es s)"
proof (cases "n_host s")
  case True
  have l: "tidy s (pump_loop (callbacks W) es s)"
    unfolding pump_loop_def using assms True by (intro keeps_trans(2) [OF tidy_events stillD(2) [OF still_enet]]) simp_all
  note n = keeps_trans(2) [OF l stillD(2) [OF still_now]]
  show ?thesis
    unfolding NetClient_Pump_def Let_def case_prod_beta
    by (simp add: l n True keeps_trans(2) [OF n steadyD(2) [OF steady_Fail]])
qed (simp add: NetClient_Pump_def)

lemma steady_frame: "steady u (auto_reconnect W (Skip_Update W u))"
  by (rule keeps_trans(3) [OF still_steady [OF still_apart [OF apart_skip]] steady_reconnect])

text \<open>A frame that sends the state: it is connected and in the world.\<close>

lemma Tick_connected:
  assumes "s_inWorld (Tick W es s)" and "Session_IsConnected (Tick W es s)"
    and "v = auto_reconnect W (Skip_Update W (NetClient_Pump (callbacks W) es s))"
  shows "Tick W es s = RemotePlayers_Update W (SyncName W (SendState W False v)) \<and> Session_IsConnected v"
  using assms by (auto simp: Tick_def Let_def split: if_splits)

lemma tidy_Tick:
  assumes "session_ok s" and "n_host s \<longrightarrow> events_ok (n_state s) es"
  shows "tidy s (Tick W es s)"
proof -
  obtain u where u: "u = NetClient_Pump (callbacks W) es s" by blast
  obtain v where v: "v = auto_reconnect W (Skip_Update W u)" by blast
  have su: "tidy s u" unfolding u by (rule tidy_Pump [OF assms])
  have sv: "tidy s v" unfolding v by (rule keeps_trans(2) [OF su steadyD(2) [OF steady_frame]])
  have "tidy v (RemotePlayers_Update W (SyncName W (SendState W False v)))" if "Session_IsConnected v"
  proof -
    have "n_state v = kConnected" using that by (simp add: Session_IsConnected_def IsConnected_def)
    then have "tidy v (SendState W False v)" by (rule tidy_connected) (rule state_SendState)
    then show ?thesis
      by (rule keeps_trans(2) [OF keeps_trans(2) [OF _ stillD(2) [OF still_SyncName]] stillD(2) [OF still_Update]])
  qed
  then have "tidy s (RemotePlayers_Update W (SyncName W (SendState W False v)))" if "Session_IsConnected v"
    using keeps_trans(2) [OF sv] that by blast
  then show ?thesis
    using su sv by (simp add: Tick_def u [symmetric] v [symmetric] Let_def)
qed

section \<open>The console and the game\<close>

lemma still_lists:
  "still s (fold (ConsolePrint W) xs s)" "still s (fold (\<lambda>(i, p) s. ConsolePrint W (h i p s) s) ps s)" "still s (Usage W s)"
  unfolding Usage_def case_prod_beta by (rule still_fold still_prints)+

lemma still_shows:
  "still s (PrintStatus W s)" "still s (PrintPlayers W s)" "still s (PrintDebug W s)" "still s (PrintGraph W names s)"
proof -
  show "still s (PrintStatus W s)" unfolding PrintStatus_def by (rule still_prints)
  show "still s (PrintPlayers W s)"
    unfolding PrintPlayers_def Let_def
    by (intro keeps_if still_prints keeps_trans(4) [OF keeps_trans(4) [OF still_prints(2) still_prints(2)] still_lists(2)])
  show "still s (PrintDebug W s)" "still s (PrintGraph W names s)"
    by (rule still_calls [of any_call], rule call_rules, simp)+
qed

lemma still_clone_option: "clone_option W opt b s = Some s' \<Longrightarrow> still s s'"
  unfolding clone_option_def SetPacify_def SetGhost_def SetDuplicate_def
  by (auto intro: still_same still_Respawn keeps_trans(4) [OF still_same still_Respawn] simp: keeps_view_simps split: if_splits)

lemma still_options: "still s (snd (SetCloneOption W opt b s))" "still s (Execute_clonebase W ulong args s)"
proof -
  show "still s (snd (SetCloneOption W opt b s))"
    by (auto simp: SetCloneOption_def intro: keeps_trans(4) [OF still_clone_option still_prints(2)] split: option.split)
  have "still s (Session_SetCloneBase W i s)" for i
    unfolding Session_SetCloneBase_def RemotePlayers_SetCloneBase_def
    by (rule keeps_trans(4) [OF keeps_trans(4) [OF still_same still_Respawn] still_prints(2)]) (simp add: keeps_view_simps)
  then show "still s (Execute_clonebase W ulong args s)"
    by (auto simp: Execute_clonebase_def Let_def split: option.split list.split prod.split)
qed

lemma still_talk: "still s (SendChat W msg s)" "still s (SetPlayerName W msg s)" "still s (snd (SetServer msg s))"
proof -
  show "still s (SendChat W msg s)" unfolding SendChat_def Let_def by (intro keeps_if keeps_refl still_prints still_Send)
  show "still s (SetPlayerName W msg s)"
    unfolding SetPlayerName_def Let_def
    by (rule still_view [OF keeps_trans(4) [OF still_same still_prints(2)]]) (simp_all add: keeps_view_simps)
  show "still s (snd (SetServer msg s))"
    by (auto simp: SetServer_def Let_def keeps_view_simps intro!: still_same split: option.split)
qed

lemma steady_Execute: "steady s (Execute W ulong line s)"
proof -
  have r: "still s (ConsolePrint W msg (RestorePlayerControl W s))" "still s (Usage W (ConsolePrint W msg s))"
    "still s (ConsolePrint W msg (snd (SetServer tx s)))" for msg tx
    by (rule keeps_trans(4) [OF still_prints(3) still_prints(2)], rule keeps_trans(4) [OF still_prints(2) still_lists(3)],
        rule keeps_trans(4) [OF still_talk(3) still_prints(2)])
  have c: "steady s (Session_Connect W True (snd (SetServer tx s)))" for tx
    by (rule keeps_trans(3) [OF still_steady [OF still_talk(3)] steady_session_Connect])
  have "steady s (Execute_command W ulong cmd args s)" for cmd args
    unfolding Execute_command_def Let_def case_prod_beta
    by (intro keeps_if keeps_refl c steady_session_Connect steady_session_Disconnect;
        rule still_steady; intro still_prints r still_lists still_shows still_options still_talk)
  then show ?thesis by (simp add: Execute_def Let_def case_prod_beta)
qed

lemma steady_game: "steady s (OnEnterWorld s)" "steady s (OnNewGame s)" "steady s (OnLeaveWorld s)" "steady s (OnPreSave W s)"
proof -
  show e: "steady s (OnEnterWorld s)"
    by (simp add: OnEnterWorld_def ForgetActors_def steady_def pace_def tidy_def blank_def memory_def)
  have n: "still t (Skip_OnNewGame t)" for t :: Session
    by (auto simp: Skip_OnNewGame_def e_now_def still_def pace_def memory_def Let_def)
  show "steady s (OnNewGame s)" unfolding OnNewGame_def by (rule keeps_trans(3) [OF e still_steady [OF n]])
  show "steady s (OnLeaveWorld s)"
    by (simp add: OnLeaveWorld_def Skip_OnLeaveWorld_def ForgetActors_def steady_def pace_def tidy_def blank_def memory_def)
  show "steady s (OnPreSave W s)" unfolding OnPreSave_def by (rule still_steady [OF still_DespawnAll])
qed

text \<open>Every input but a frame.\<close>

lemma steady_input: "\<forall>es. i \<noteq> InTick es \<Longrightarrow> steady s (client_run ulong (W, i) s)"
  unfolding client_run_def client_step_def
  by (cases i) (simp_all add: steady_game steady_Execute Console_ExecuteCommand_def,
      simp_all add: SexChoiceCallback_def still_steady still_same keeps_view_simps)

lemma tidy_input: "session_ok s \<Longrightarrow> client_admits s i \<Longrightarrow> tidy s (client_run ulong i s)"
proof (cases "\<exists>es. snd i = InTick es")
  case True
  moreover assume "session_ok s" "client_admits s i"
  ultimately show ?thesis by (auto simp: client_run_def client_step_def client_admits_def tidy_Tick)
next
  case False
  then show ?thesis using steadyD(2) [OF steady_input, of "snd i" s ulong "fst i"] by simp
qed

section \<open>The invariant\<close>

definition session_tidy :: "Session \<Rightarrow> bool" where
  "session_tidy s = (session_ok s \<and> (n_state s \<noteq> kConnected \<longrightarrow> blank s))"

interpretation cli_tidy: invariant_machine "client_run ulong" client_admits session_tidy
  for ulong
  by unfold_locales (use tidy_input session_ok_step in \<open>auto simp: session_tidy_def tidy_def\<close>)

lemma session_tidy_load: "session_tidy (plugin_load W ulong initialized clk path file)"
proof -
  have "blank (plugin_load W ulong initialized clk path file)"
    by (simp add: plugin_load_def Register_def Session_Init_def Configure_def RemotePlayers_SetCloneBase_def Respawn_def
        DespawnAll_def Session_new_def do_call_def blank_def memory_def Let_def)
  then show ?thesis by (simp add: session_tidy_def session_ok_load)
qed

lemma session_tidy_runs:
  "client_admitted ulong inputs (plugin_load W ulong initialized clk path file) \<Longrightarrow>
    session_tidy (client_runs ulong inputs (plugin_load W ulong initialized clk path file))"
  using cli_tidy.run_inv [OF session_tidy_load] by (simp add: cli_run cli_admits)

text \<open>C4. Whatever the game, the console and the network do, and as long as ENet keeps to its documented
  order of events: each remote player is filed under its own id with at most 64 snapshots, strictly
  increasing in time; there is a peer exactly while the client is connecting or connected; and without a
  connection the client knows no remote player, has no id, is not welcomed, has no server name, holds no
  clock of a server and no offset to one, and counts no state as sent, so the next session starts from
  none of these.\<close>

theorem client_stays_sound:
  assumes "client_admitted ulong inputs (plugin_load W ulong initialized clk path file)"
    and "s = client_runs ulong inputs (plugin_load W ulong initialized clk path file)"
  shows "(map_of (r_players s) i = Some p \<longrightarrow>
      rp_id p = i \<and> sorted_wrt (<) (map ts_timeMs (rp_snapshots p)) \<and> length (rp_snapshots p) \<le> 64) \<and>
    (n_peer s = None \<longleftrightarrow> n_state s = kDisconnected) \<and>
    (n_state s \<noteq> kConnected \<longrightarrow> r_players s = [] \<and> s_myId s = INVALID_PLAYER_ID \<and> \<not> s_welcomed s \<and>
      s_serverName s = [] \<and> r_serverClock s = ServerClock_new \<and> \<not> r_hasOffset s \<and> \<not> s_hasLastSent s)"
proof -
  have ok: "session_ok s" "n_state s \<noteq> kConnected \<longrightarrow> blank s"
    using session_tidy_runs [OF assms(1)] assms(2) by (simp_all add: session_tidy_def)
  then have "rp_id p = i \<and> sorted_wrt (<) (map ts_timeMs (rp_snapshots p)) \<and> length (rp_snapshots p) \<le> 64"
    if "map_of (r_players s) i = Some p"
    using remotes_okD [OF _ that] by (simp add: session_ok_def snapshots_ok_def MAX_SNAPSHOTS_def)
  moreover have "n_peer s = None \<longleftrightarrow> n_state s = kDisconnected" using ok by (auto simp: session_ok_def)
  ultimately show ?thesis using ok by (auto simp: session_ok_def blank_def memory_def)
qed

text \<open>The demonstration: the client knows Nora, then the connection breaks.\<close>

lemma demo_Nora_shown:
  "\<exists>p. map_of (r_players (client_runs 32 demo_connected demo_load)) 5 = Some p \<and> rp_name p = ''Nora''"
proof -
  have "snd (faces (client_runs 32 demo_connected demo_load)) 5 = Some ''Nora''" by (simp add: demo_joined)
  then show ?thesis by (auto simp: faces_def)
qed

lemma demo_lost_admitted:
  "client_admitted 32 demo_lost demo_load" "n_state (client_runs 32 demo_lost demo_load) \<noteq> kConnected"
proof -
  let ?x = "client_runs 32 demo_connected demo_load"
  have app: "client_admitted ulong (xs @ ys) s = (client_admitted ulong xs s \<and> client_admitted ulong ys (client_runs ulong xs s))"
    for ulong xs ys s by (induction xs arbitrary: s) (simp_all add: client_runs_def)
  have ok: "session_ok ?x" using session_ok_runs [OF demo_joined(1) [unfolded demo_load_def]] by (simp add: demo_load_def)
  moreover have "r_players ?x \<noteq> []" using demo_Nora_shown by auto
  ultimately have x: "n_state ?x = kConnected" "n_host ?x" by (auto simp: session_ok_def)
  then show "client_admitted 32 demo_lost demo_load"
    by (simp add: demo_lost_def app demo_joined client_admits_def)
  let ?u = "NetClient_Pump (callbacks demo_world) [CliDisconnect] ?x"
  have "n_state ?u = kDisconnected"
    using x by (simp add: NetClient_Pump_def pump_loop_def pump_event_def disconnected_frame enet_def do_call_def Let_def)
  then have "n_state (Tick demo_world [CliDisconnect] ?x) \<noteq> kConnected"
    using calm_Tick_rest [of ?u demo_world] unfolding Tick_def calm_def by (auto simp: Let_def)
  then show "n_state (client_runs 32 demo_lost demo_load) \<noteq> kConnected"
    by (simp add: demo_lost_def client_runs_def client_run_def client_step_def)
qed

theorem client_stays_sound_witness:
  "\<exists>p. map_of (r_players (client_runs 32 demo_connected demo_load)) 5 = Some p \<and> rp_id p = 5 \<and> rp_name p = ''Nora'' \<and>
     r_players (client_runs 32 demo_lost demo_load) = [] \<and> s_serverName (client_runs 32 demo_lost demo_load) = []"
proof -
  obtain p where p: "map_of (r_players (client_runs 32 demo_connected demo_load)) 5 = Some p" "rp_name p = ''Nora''"
    using demo_Nora_shown by blast
  show ?thesis
    using client_stays_sound [OF demo_joined(1) [unfolded demo_load_def], OF refl, of 5 p] p
      client_stays_sound [OF demo_lost_admitted(1) [unfolded demo_load_def], OF refl] demo_lost_admitted(2)
    by (simp add: demo_load_def)
qed

end
