(* ===== verification/F4_SendFacts.thy ===== *)
theory F4_SendFacts
  imports F4_ClientKeeps
begin

text \<open>
  How often the client sends its own state, over any inputs: not more often than its rate, but
  for the one state a welcome asks for, and at least once a second while it is in the game.
\<close>

section \<open>States among the calls\<close>

definition is_state_call :: "call \<Rightarrow> bool" where
  "is_state_call c = (case c of Enet (PeerSend p n rel b) \<Rightarrow> is_state b | _ \<Rightarrow> False)"

text \<open>How many states a client has sent since an earlier moment.\<close>

definition states_sent :: "Session \<Rightarrow> Session \<Rightarrow> nat" where
  "states_sent s s' = length (filter is_state_call (drop (length (e_calls s)) (e_calls s')))"

text \<open>The least time between two states, in nanoseconds.\<close>

definition send_interval :: "Session \<Rightarrow> int" where
  "send_interval s = uint (1000 div max 1 (cc_sendRate (s_config s))) * 10 ^ 6"

definition silent :: "Session \<Rightarrow> Session \<Rightarrow> bool" where
  "silent s s' = (\<exists>cs. e_calls s' = e_calls s @ cs \<and> filter is_state_call cs = [])"

lemma silent_refl [simp]: "silent s s"
  by (simp add: silent_def)

lemma silent_trans: "silent s t \<Longrightarrow> silent t u \<Longrightarrow> silent s u"
  by (auto simp: silent_def)

lemma silent_same: "e_calls s' = e_calls s \<Longrightarrow> silent s s'"
  by (simp add: silent_def)

lemma silent_then: "silent s t \<Longrightarrow> e_calls u = e_calls t \<Longrightarrow> silent s u"
  by (simp add: silent_def)

lemma silent_if: "silent s t \<Longrightarrow> silent s u \<Longrightarrow> silent s (if b then t else u)"
  by simp

lemma hello_no_state: "hello_only c \<Longrightarrow> \<not> is_state_call c"
  by (auto simp: hello_only_def is_state_call_def valid_hello_packet split: call.splits enet_call.splits)

lemma silent_hello: "e_calls s' = e_calls s @ cs \<Longrightarrow> list_all hello_only cs \<Longrightarrow> silent s s'"
  by (auto simp: silent_def filter_empty_conv list_all_iff hello_no_state)

lemma silent_shy: "shy s s' \<Longrightarrow> silent s s'"
  by (auto simp: shy_def silent_hello)

lemma silent_Send: "\<not> is_state bytes \<Longrightarrow> silent s (NetClient_Send ch bytes s)"
  by (simp add: NetClient_Send_def enet_def do_call_def silent_def is_state_call_def split: option.split)

lemma silent_SyncName: "silent s (SyncName W s)"
proof -
  have n: "silent s ((snd (e_now s))\<lparr>s_lastNameCheck := t\<rparr>)" "silent s (snd (e_now s))" for t
    by (rule silent_same, simp add: e_now_def)+
  have m: "silent s (NetClient_Send kReliable (Encode kSetName SetNameMsg_Write m)
      ((snd (e_now s))\<lparr>s_lastNameCheck := t, s_sentName := x\<rparr>))" for t m x
    by (rule silent_trans [OF silent_same silent_Send]) (simp_all add: e_now_def)
  show ?thesis unfolding SyncName_def Let_def case_prod_beta by (intro silent_if n m)
qed

lemma silent_Update: "silent s (RemotePlayers_Update W s)"
  using Update_calls [of W hello_only s] by (auto intro: silent_hello)

lemma silent_Execute: "silent s (Execute W ulong line s)"
proof -
  have r: "shy s (ConsolePrint W msg (RestorePlayerControl W s))" "shy s (Usage W (ConsolePrint W msg s))" for msg
    by (rule shy_trans [OF shy_prints(3) shy_prints(2)]) (rule shy_trans [OF shy_prints(2) shy_lists(3)])
  have c: "shy s (ConsolePrint W msg (snd (SetServer tx s)))" "shy s (Session_Connect W True (snd (SetServer tx s)))" for msg tx
    by (rule shy_trans [OF shy_talk(3) shy_prints(2)]) (rule shy_trans [OF shy_talk(3) shy_session_Connect])
  have t: "silent s (SendChat W line s)" for line
    unfolding SendChat_def Let_def by (intro silent_if silent_refl silent_shy [OF shy_prints(2)] silent_Send) simp_all
  have "silent s (Execute_command W ulong cmd args s)" for cmd args
    unfolding Execute_command_def Let_def case_prod_beta
    by (intro silent_if t)
      (rule silent_shy, intro shy_refl shy_prints r c shy_lists shy_PrintStatus shy_PrintPlayers shy_debug shy_options
        shy_talk(2,3) shy_session_Connect shy_Session_Disconnect)+
  then show ?thesis by (simp add: Execute_def Let_def case_prod_beta)
qed

text \<open>An operation that neither sends a state nor touches the time of the last one.\<close>

definition mute :: "Session \<Rightarrow> Session \<Rightarrow> bool" where
  "mute s s' = (pace s s' \<and> silent s s')"

lemma mute_refl [simp]: "mute s s"
  by (simp add: mute_def)

lemma mute_trans: "mute s t \<Longrightarrow> mute t u \<Longrightarrow> mute s u"
  by (auto simp: mute_def intro: keeps_trans(1) silent_trans)

lemma mute_frame: "mute u (auto_reconnect W (Skip_Update W u))"
  unfolding mute_def
  by (intro conjI steadyD(1) [OF steady_frame] silent_shy [OF shy_trans [OF shy_skip shy_reconnect]])

lemma mute_after: "mute u (RemotePlayers_Update W (SyncName W u))"
  unfolding mute_def
  by (intro conjI keeps_trans(1) [OF stillD(1) [OF still_SyncName] stillD(1) [OF still_Update]]
      silent_trans [OF silent_SyncName silent_Update])

lemma mute_input: "\<forall>es. i \<noteq> InTick es \<Longrightarrow> mute s (client_run ulong (W, i) s)"
proof -
  assume i: "\<forall>es. i \<noteq> InTick es"
  have "silent s (client_run ulong (W, i) s)"
    using i unfolding client_run_def client_step_def
    by (cases i) (simp_all add: silent_Execute Console_ExecuteCommand_def OnPreSave_def silent_shy shy_game shy_DespawnAll
        SexChoiceCallback_def silent_same)
  then show ?thesis using steadyD(1) [OF steady_input [OF i]] by (simp add: mute_def)
qed

lemma mute_enet: "\<forall>p n r b. c \<noteq> PeerSend p n r b \<Longrightarrow> mute s (enet c s)"
  unfolding mute_def
  by (intro conjI stillD(1) [OF still_enet] silent_shy [OF shy_enet]) (simp add: hello_only_def split: enet_call.split)

lemma mute_HandlePacket: "\<not> is_welcome bytes \<Longrightarrow> mute s (Session_HandlePacket W bytes s)"
  unfolding mute_def by (simp add: pace_HandlePacket silent_shy shy_HandlePacket)

lemma mute_pump_event:
  assumes "no_welcome_event e"
  shows "mute s (pump_event (callbacks W) e (enet HostService s))"
proof (cases "\<exists>bytes. e = CliReceive bytes")
  case True
  then obtain bytes where e: "e = CliReceive bytes" "\<not> is_welcome bytes" using assms by (auto simp: no_welcome_event_def)
  show ?thesis unfolding e receive_event
    by (intro mute_trans [OF mute_enet mute_trans [OF mute_HandlePacket [OF e(2)] mute_enet]]) simp_all
next
  case False
  then show ?thesis
    using steadyD(1) [OF steady_pump_event] silent_shy [OF shy_pump_event [OF assms]] unfolding mute_def by blast
qed

lemma mute_Pump_after:
  assumes "mute s (pump_loop (callbacks W) es t)"
  shows "mute s (snd (e_now (pump_loop (callbacks W) es t)))"
    "mute s (NetClient_Fail (callbacks W) reason (snd (e_now (pump_loop (callbacks W) es t))))"
proof -
  let ?u = "pump_loop (callbacks W) es t"
  have n: "mute ?u (snd (e_now ?u))"
    unfolding mute_def by (intro conjI stillD(1) [OF still_now] silent_same) (simp add: e_now_def)
  have f: "mute v (NetClient_Fail (callbacks W) reason v)" for v
    by (simp add: mute_def steadyD(1) [OF steady_Fail] silent_shy [OF shy_Fail])
  show "mute s (snd (e_now ?u))" "mute s (NetClient_Fail (callbacks W) reason (snd (e_now ?u)))"
    using mute_trans [OF assms n] mute_trans [OF mute_trans [OF assms n] f] by blast+
qed

section \<open>Sending a state\<close>

text \<open>Either nothing happens, because there is no player in the world or it is too early, or a state goes out on the
  connection and its time is noted.\<close>

lemma SendState_cases:
  obtains (waits) "mute s (SendState W force s)"
      "LocalPlayer_Sample W (e_calls s) \<noteq> None \<Longrightarrow>
        \<not> force \<and> e_clock s (e_readings s) < s_lastSend s + max HEARTBEAT_INTERVAL (send_interval s)"
  | (sends) m where "e_calls (SendState W force s) =
        e_calls (NetClient_Send kUnreliable (Encode kPlayerState PlayerStateMsg_Write m) (snd (e_now s)))"
      "s_lastSend (SendState W force s) = e_clock s (e_readings s)" "e_clock (SendState W force s) = e_clock s"
      "e_readings (SendState W force s) = Suc (e_readings s)" "send_interval (SendState W force s) = send_interval s"
      "\<not> force \<Longrightarrow> s_lastSend s + send_interval s \<le> e_clock s (e_readings s)"
proof (cases "LocalPlayer_Sample W (e_calls s)")
  case None
  then show ?thesis using waits by (simp add: SendState_def mute_def)
next
  case (Some st)
  obtain t u where tu: "e_now s = (t, u)" by fastforce
  then have u: "t = e_clock s (e_readings s)" "u = s\<lparr>e_readings := Suc (e_readings s)\<rparr>" by (simp_all add: e_now_def)
  let ?v = "(NetClient_Send kUnreliable (Encode kPlayerState PlayerStateMsg_Write \<lparr>psm_state = st\<rparr>) u)
     \<lparr>s_lastSent := st, s_hasLastSent := True, s_lastSend := t\<rparr>"
  have i: "send_interval u = send_interval s" by (simp add: send_interval_def u)
  have h: "(0 :: int) < HEARTBEAT_INTERVAL" by (simp add: HEARTBEAT_INTERVAL_def)
  have su: "mute s u" by (simp add: u(2) mute_def pace_def silent_same)
  have "(SendState W force s = u \<and> \<not> force \<and> t < s_lastSend s + max HEARTBEAT_INTERVAL (send_interval s)) \<or>
      (SendState W force s = ?v \<and> (\<not> force \<longrightarrow> s_lastSend s + send_interval s \<le> t))"
    using h i unfolding SendState_def Some option.case tu prod.case Let_def send_interval_def
    by (auto simp: u(2))
  then show ?thesis
  proof (elim disjE conjE)
    assume "SendState W force s = u" "\<not> force" "t < s_lastSend s + max HEARTBEAT_INTERVAL (send_interval s)"
    then show thesis using su by (intro waits) (simp_all add: u(1))
  next
    assume v: "SendState W force s = ?v" and f: "\<not> force \<longrightarrow> s_lastSend s + send_interval s \<le> t"
    have k: "e_clock ?v = e_clock s" "e_readings ?v = Suc (e_readings s)" "send_interval ?v = send_interval s"
      by (simp_all add: NetClient_Send_def enet_def do_call_def u(2) send_interval_def split: option.split)
    show thesis by (rule sends [of "\<lparr>psm_state = st\<rparr>"], unfold v k) (use f in \<open>auto simp: tu u(1)\<close>)
  qed
qed

section \<open>Not too often\<close>

text \<open>The reading number \<open>m\<close> of the clock was taken on the way.\<close>

definition read_between :: "Session \<Rightarrow> nat \<Rightarrow> Session \<Rightarrow> bool" where
  "read_between s m s' = (e_readings s \<le> m \<and> m < e_readings s')"

text \<open>On the way at most \<open>n\<close> states were sent, the first at reading \<open>a\<close>, an interval after the last state before, and
  the last at reading \<open>b\<close>, an interval for each of the others later.\<close>

definition paced_by :: "nat \<Rightarrow> nat \<Rightarrow> nat \<Rightarrow> Session \<Rightarrow> Session \<Rightarrow> bool" where
  "paced_by n a b s s' =
     (read_between s a s' \<and> read_between s b s' \<and> 0 < n \<and> s_lastSend s' = e_clock s b \<and>
      send_interval s \<le> e_clock s a - s_lastSend s \<and> (int n - 1) * send_interval s \<le> e_clock s b - e_clock s a)"

definition paced :: "Session \<Rightarrow> Session \<Rightarrow> bool" where
  "paced s s' =
     (e_clock s' = e_clock s \<and> send_interval s' = send_interval s \<and> e_readings s \<le> e_readings s' \<and>
      (\<exists>cs n. e_calls s' = e_calls s @ cs \<and> length (filter is_state_call cs) \<le> n \<and>
         (n = 0 \<and> s_lastSend s' = s_lastSend s \<or> (\<exists>a b. paced_by n a b s s'))))"

lemma pacedI:
  assumes "e_clock s' = e_clock s" "send_interval s' = send_interval s" "e_readings s \<le> e_readings s'"
    and "e_calls s' = e_calls s @ cs" "length (filter is_state_call cs) \<le> n"
    and "n = 0 \<and> s_lastSend s' = s_lastSend s \<or> (\<exists>a b. paced_by n a b s s')"
  shows "paced s s'"
  unfolding paced_def using assms by blast

lemma paced_mute: "mute s s' \<Longrightarrow> paced s s'"
  by (auto simp: mute_def pace_def silent_def paced_def send_interval_def intro!: exI [of _ "0 :: nat"])

lemma paced_by_trans:
  assumes "paced_by n a b s t" and "paced_by n' a' b' t u" and "e_clock t = e_clock s" and "send_interval t = send_interval s"
    and "e_readings s \<le> e_readings t" "e_readings t \<le> e_readings u"
  shows "paced_by (n + n') a b' s u"
proof -
  have "(int n - 1) * send_interval s + send_interval s + (int n' - 1) * send_interval s \<le> e_clock s b' - e_clock s a"
    using assms(1-4) by (simp add: paced_by_def)
  also have "(int n - 1) * send_interval s + send_interval s + (int n' - 1) * send_interval s =
      (int (n + n') - 1) * send_interval s" by (simp add: algebra_simps)
  finally show ?thesis using assms by (auto simp: paced_by_def read_between_def)
qed

lemma paced_by_wider:
  assumes "paced_by n a b t u" and "s_lastSend t = s_lastSend s" "e_clock t = e_clock s" "send_interval t = send_interval s"
    and "e_readings s \<le> e_readings t" "e_readings u \<le> e_readings v" "s_lastSend v = s_lastSend u"
  shows "paced_by n a b s v"
  using assms by (auto simp: paced_by_def read_between_def)

lemma paced_trans:
  assumes "paced s t" and "paced t u"
  shows "paced s u"
proof -
  obtain cs n where n: "e_calls t = e_calls s @ cs" "length (filter is_state_call cs) \<le> n"
    "n = 0 \<and> s_lastSend t = s_lastSend s \<or> (\<exists>a b. paced_by n a b s t)"
    using assms(1) unfolding paced_def by blast
  obtain ds m where m: "e_calls u = e_calls t @ ds" "length (filter is_state_call ds) \<le> m"
    "m = 0 \<and> s_lastSend u = s_lastSend t \<or> (\<exists>a b. paced_by m a b t u)"
    using assms(2) unfolding paced_def by blast
  have f: "e_clock t = e_clock s" "send_interval t = send_interval s" "e_readings s \<le> e_readings t"
    "e_clock u = e_clock t" "send_interval u = send_interval t" "e_readings t \<le> e_readings u"
    using assms by (simp_all add: paced_def)
  have "n + m = 0 \<and> s_lastSend u = s_lastSend s \<or> (\<exists>a b. paced_by (n + m) a b s u)"
    using n(3) m(3)
  proof (elim disjE conjE exE)
    fix a b
    assume "n = 0" "s_lastSend t = s_lastSend s" "paced_by m a b t u"
    from paced_by_wider [OF this(3)] this(2) f have "paced_by m a b s u" by simp
    then show ?thesis using \<open>n = 0\<close> by auto
  next
    fix a b
    assume "m = 0" "s_lastSend u = s_lastSend t" "paced_by n a b s t"
    from paced_by_wider [OF this(3)] this(2) f have "paced_by n a b s u" by simp
    then show ?thesis using \<open>m = 0\<close> by auto
  next
    fix a b a' b'
    assume "paced_by n a b s t" "paced_by m a' b' t u"
    from paced_by_trans [OF this f(1-3,6)] show ?thesis by blast
  qed simp
  then show ?thesis
  proof (rule pacedI [rotated 5])
    show "e_clock u = e_clock s" "send_interval u = send_interval s" "e_readings s \<le> e_readings u" using f by simp_all
    show "e_calls u = e_calls s @ (cs @ ds)" using n(1) m(1) by simp
    show "length (filter is_state_call (cs @ ds)) \<le> n + m" using n(2) m(2) by simp
  qed
qed

lemma paced_if: "paced s t \<Longrightarrow> paced s u \<Longrightarrow> paced s (if b then t else u)"
  by simp

lemma Send_calls:
  fixes s :: Session
  shows "\<exists>cs. e_calls (NetClient_Send ch bytes s) = e_calls s @ cs \<and> length cs \<le> 1"
  by (simp add: NetClient_Send_def enet_def do_call_def split: option.split)

lemma paced_SendState: "paced s (SendState W False s)"
proof (cases rule: SendState_cases [where W = W and force = False and s = s])
  case waits
  then show ?thesis by (intro paced_mute)
next
  case (sends m)
  obtain cs where cs: "e_calls (SendState W False s) = e_calls s @ cs" "length cs \<le> 1"
    using sends(1) Send_calls [of kUnreliable _ "snd (e_now s)"] by (auto simp: e_now_def)
  have "length (filter is_state_call cs) \<le> 1" using cs(2) length_filter_le le_trans by blast
  moreover have "paced_by 1 (e_readings s) (e_readings s) s (SendState W False s)"
    using sends(2-6) by (simp add: paced_by_def read_between_def)
  ultimately show ?thesis
    using sends(3-5) by (intro pacedI [OF _ _ _ cs(1), of 1]) auto
qed

lemma paced_events: "list_all no_welcome_event es \<Longrightarrow> mute s (fold (\<lambda>e s. pump_event (callbacks W) e (enet HostService s)) es s)"
  by (induction es arbitrary: s) (auto intro: mute_trans [OF mute_pump_event])

lemma mute_Pump:
  assumes "list_all no_welcome_event es"
  shows "mute s (NetClient_Pump (callbacks W) es s)"
proof -
  have l: "mute s (pump_loop (callbacks W) es s)"
    unfolding pump_loop_def by (rule mute_trans [OF paced_events [OF assms] mute_enet]) simp
  then show ?thesis
    using mute_Pump_after [OF l] by (simp add: NetClient_Pump_def case_prod_beta Let_def)
qed

lemma paced_Tick:
  assumes "list_all no_welcome_event es"
  shows "paced s (Tick W es s)"
proof -
  obtain u where u: "u = NetClient_Pump (callbacks W) es s" by blast
  obtain v where v: "v = auto_reconnect W (Skip_Update W u)" by blast
  have su: "mute s u" unfolding u by (rule mute_Pump [OF assms])
  have sv: "mute s v" unfolding v by (rule mute_trans [OF su mute_frame])
  have "paced s (RemotePlayers_Update W (SyncName W (SendState W False v)))"
    by (rule paced_trans [OF paced_trans [OF paced_mute [OF sv] paced_SendState] paced_mute [OF mute_after]])
  then show ?thesis
    using paced_mute [OF su] paced_mute [OF sv] by (simp add: Tick_def u [symmetric] v [symmetric] Let_def)
qed

lemma paced_run: "list_all no_welcome inputs \<Longrightarrow> paced s (client_runs ulong inputs s)"
proof (induction inputs arbitrary: s)
  case Nil
  then show ?case by (simp add: client_runs_def paced_mute)
next
  case (Cons i inputs)
  obtain W x where i: "i = (W, x)" by fastforce
  have "paced s (client_run ulong i s)"
  proof (cases "\<exists>es. x = InTick es")
    case True
    then show ?thesis using Cons.prems by (auto simp: i no_welcome_def client_run_def client_step_def intro: paced_Tick)
  next
    case False
    then show ?thesis unfolding i by (intro paced_mute mute_input) blast
  qed
  from paced_trans [OF this Cons.IH] Cons.prems show ?case by (simp add: client_runs_def)
qed

text \<open>C35. The client keeps to its rate: over any frames, console lines and events of the game in which no readable
  welcome arrives (a welcome makes it send one state at once, whenever that is), and whatever the clock shows, from the
  last state before them to the last one in them at least the configured interval passes for each state sent; so where
  the clock stays between two times, they hold at most one state per interval and one more.\<close>

theorem states_keep_rate:
  assumes "list_all no_welcome inputs" and "s' = client_runs ulong inputs s"
  shows "int (states_sent s s') * send_interval s \<le> s_lastSend s' - s_lastSend s \<and>
    (t0 \<le> t1 \<and> (\<forall>m. e_readings s \<le> m \<and> m < e_readings s' \<longrightarrow> t0 \<le> e_clock s m \<and> e_clock s m \<le> t1) \<longrightarrow>
       int (states_sent s s') * send_interval s \<le> t1 - t0 + send_interval s)"
proof -
  have pos: "0 \<le> send_interval s" by (simp add: send_interval_def)
  have "paced s s'" unfolding assms(2) by (rule paced_run [OF assms(1)])
  then obtain cs n where n: "e_calls s' = e_calls s @ cs" "length (filter is_state_call cs) \<le> n"
    "n = 0 \<and> s_lastSend s' = s_lastSend s \<or> (\<exists>a b. paced_by n a b s s')"
    unfolding paced_def by blast
  have m: "int (states_sent s s') * send_interval s \<le> int n * send_interval s"
    using n(1,2) by (intro mult_right_mono [OF _ pos]) (simp add: states_sent_def)
  have nn: "int n * send_interval s = (int n - 1) * send_interval s + send_interval s" by (simp add: algebra_simps)
  show ?thesis using n(3)
  proof (elim disjE exE)
    assume "n = 0 \<and> s_lastSend s' = s_lastSend s"
    then show ?thesis using m pos by auto
  next
    fix a b
    assume p: "paced_by n a b s s'"
    then have b: "s_lastSend s' = e_clock s b" "send_interval s \<le> e_clock s a - s_lastSend s"
      "(int n - 1) * send_interval s \<le> e_clock s b - e_clock s a" by (simp_all add: paced_by_def)
    have "int (states_sent s s') * send_interval s \<le> t1 - t0 + send_interval s"
      if "\<forall>m. e_readings s \<le> m \<and> m < e_readings s' \<longrightarrow> t0 \<le> e_clock s m \<and> e_clock s m \<le> t1"
    proof -
      have "t0 \<le> e_clock s a" "e_clock s b \<le> t1" using that p by (simp_all add: paced_by_def read_between_def)
      then show ?thesis using b(3) m nn by linarith
    qed
    moreover have "int (states_sent s s') * send_interval s \<le> s_lastSend s' - s_lastSend s" using b m nn by linarith
    ultimately show ?thesis by blast
  qed
qed

section \<open>Not too rarely\<close>

text \<open>A whole state on the unreliable channel.\<close>

definition state_packet :: "call \<Rightarrow> bool" where
  "state_packet c = (case c of Enet (PeerSend p n rel b) \<Rightarrow> n = channel_number kUnreliable \<and> \<not> rel \<and> is_state b \<and> client_packet b | _ \<Rightarrow> False)"

text \<open>The time of the last state moves only with a packet.\<close>

definition beats :: "Session \<Rightarrow> Session \<Rightarrow> bool" where
  "beats s s' =
     (e_clock s' = e_clock s \<and> send_interval s' = send_interval s \<and> e_readings s \<le> e_readings s' \<and>
      (\<exists>cs. e_calls s' = e_calls s @ cs \<and> (s_lastSend s' = s_lastSend s \<or> list_ex state_packet cs)))"

lemma beats_trans: "beats s t \<Longrightarrow> beats t u \<Longrightarrow> beats s u"
  by (auto simp: beats_def)

lemma beats_mute: "mute s s' \<Longrightarrow> beats s s'"
  by (auto simp: mute_def pace_def silent_def beats_def send_interval_def)

lemma beats_refl [simp]: "beats s s"
  by (simp add: beats_mute)

lemma beats_if: "beats s t \<Longrightarrow> beats s u \<Longrightarrow> beats s (if b then t else u)"
  by simp

text \<open>The connection has a peer.\<close>

definition on_line :: "Session \<Rightarrow> bool" where
  "on_line s = (n_state s = kConnected \<and> n_peer s \<noteq> None)"

lemma on_line_ok: "session_ok s \<Longrightarrow> n_state s = kConnected \<Longrightarrow> on_line s"
  by (simp add: session_ok_def on_line_def)

lemma on_line_essence: "essence t = essence s \<Longrightarrow> on_line t = on_line s"
  by (simp add: essence_def on_line_def)

lemma SendState_beats:
  assumes "on_line s"
  shows "beats s (SendState W force s) \<and>
    (LocalPlayer_Sample W (e_calls s) \<noteq> None \<and> s_lastSend s + max HEARTBEAT_INTERVAL (send_interval s) \<le> e_clock s (e_readings s) \<longrightarrow>
       (\<exists>cs. e_calls (SendState W force s) = e_calls s @ cs \<and> list_ex state_packet cs))"
proof (cases rule: SendState_cases [where W = W and force = force and s = s])
  case waits
  then show ?thesis by (auto simp: beats_mute)
next
  case (sends m)
  obtain p where p: "n_peer s = Some p" using assms by (auto simp: on_line_def)
  then have "e_calls (SendState W force s) =
      e_calls s @ [Enet (PeerSend p (channel_number kUnreliable) False (Encode kPlayerState PlayerStateMsg_Write m))]"
    using assms by (simp add: sends(1) NetClient_Send_def on_line_def enet_def do_call_def e_now_def)
  then show ?thesis using sends(3-5) by (auto simp: beats_def state_packet_def)
qed

lemma mute_Print: "mute s (Print W msg s)"
  by (simp add: mute_def stillD(1) [OF still_prints(1)] silent_shy [OF shy_prints(1)])

lemma welcome_packet:
  assumes "is_welcome bytes"
  obtains u where "Session_HandlePacket W bytes s = SendState W True u" and "mute s u" and "on_line u = on_line s"
proof -
  obtain i b r m c r' where x: "run_state ReadHeader (Reader_new bytes) = ((i, b), r)"
    "run_state WelcomeMsg_Read r = ((m, c), r')" "message_id bytes = (if b then Some i else None)"
    "body WelcomeMsg_Read bytes = (if b \<and> c then Some m else None)"
    by (rule packet_split [of bytes WelcomeMsg_Read])
  have w: "b" "i = kWelcome" "c" using assms by (auto simp: is_welcome_def x split: if_splits)
  let ?e = "s\<lparr>s_myId := welcome_id m, s_serverName := welcome_serverName m, s_welcomed := True\<rparr>"
  let ?p = "Print W (''[F4MP] Connected to '' @ welcome_serverName m @ '' as player #'' @ to_string (unat (welcome_id m))) ?e"
  let ?u = "if welcome_motd m \<noteq> [] then Print W (''[F4MP] '' @ welcome_motd m) ?p else ?p"
  have e: "mute s ?e" by (simp add: mute_def pace_def silent_same)
  have p: "mute s ?p" by (rule mute_trans [OF e mute_Print])
  have o: "on_line (Print W msg t) = on_line t" for msg t by (rule on_line_essence) simp
  show thesis
  proof (rule that)
    show "Session_HandlePacket W bytes s = SendState W True ?u"
      unfolding Session_HandlePacket_def x(1) Let_def prod.case x(2) using w by simp
    show "mute s ?u" using p mute_trans [OF p mute_Print] by simp
    show "on_line ?u = on_line s" by (simp add: o) (simp add: on_line_def)
  qed
qed

lemma beats_HandlePacket: "on_line s \<Longrightarrow> beats s (Session_HandlePacket W bytes s)"
proof (cases "is_welcome bytes")
  case True
  assume s: "on_line s"
  obtain u where u: "Session_HandlePacket W bytes s = SendState W True u" "mute s u" "on_line u = on_line s"
    by (rule welcome_packet [OF True])
  show ?thesis
    unfolding u(1) by (rule beats_trans [OF beats_mute [OF u(2)] conjunct1 [OF SendState_beats]]) (simp add: u(3) s)
qed (simp add: beats_mute mute_HandlePacket)

lemma beats_pump_event:
  assumes "session_ok s" and "events_ok (n_state s) (e # es)"
  shows "beats s (pump_event (callbacks W) e (enet HostService s))"
proof (cases "\<exists>bytes. e = CliReceive bytes")
  case True
  then obtain bytes where e: "e = CliReceive bytes" by blast
  then have "on_line s" using assms on_line_ok by simp
  then have "on_line (enet HostService s)" using on_line_essence [OF essence_enet] by blast
  then show ?thesis unfolding e receive_event
    by (intro beats_trans [OF beats_mute [OF mute_enet] beats_trans [OF beats_HandlePacket beats_mute [OF mute_enet]]]) simp_all
next
  case False
  then have "no_welcome_event e" by (simp add: no_welcome_event_def split: net_client_event.split)
  then show ?thesis by (intro beats_mute mute_pump_event)
qed

lemma beats_events:
  "session_ok s \<Longrightarrow> events_ok (n_state s) es \<Longrightarrow> beats s (fold (\<lambda>e s. pump_event (callbacks W) e (enet HostService s)) es s)"
proof (induction es arbitrary: s)
  case (Cons e es)
  have "session_ok (enet HostService s)" "events_ok (n_state (enet HostService s)) (e # es)"
    using Cons.prems session_ok_essence [OF essence_enet] essence_state [OF essence_enet, of HostService s] by simp_all
  from pump_event_ok [OF this, of W] have "beats (pump_event (callbacks W) e (enet HostService s))
      (fold (\<lambda>e s. pump_event (callbacks W) e (enet HostService s)) es (pump_event (callbacks W) e (enet HostService s)))"
    by (intro Cons.IH) simp_all
  from beats_trans [OF beats_pump_event [OF Cons.prems] this] show ?case by simp
qed simp

lemma beats_Pump:
  assumes "session_ok s" and "n_host s \<longrightarrow> events_ok (n_state s) es"
  shows "beats s (NetClient_Pump (callbacks W) es s)"
proof (cases "n_host s")
  case True
  have l: "beats s (pump_loop (callbacks W) es s)"
    unfolding pump_loop_def using assms True by (intro beats_trans [OF beats_events beats_mute [OF mute_enet]]) simp_all
  show ?thesis
    using beats_trans [OF l beats_mute [OF mute_Pump_after(1) [OF mute_refl]]]
      beats_trans [OF l beats_mute [OF mute_Pump_after(2) [OF mute_refl]]]
    by (simp add: NetClient_Pump_def case_prod_beta Let_def l True)
qed (simp add: NetClient_Pump_def)

text \<open>The state at which a frame sends.\<close>

definition at_send :: "World \<Rightarrow> net_client_event list \<Rightarrow> Session \<Rightarrow> Session" where
  "at_send W es s = auto_reconnect W (Skip_Update W (NetClient_Pump (callbacks W) es s))"

lemma at_send_facts:
  assumes "session_ok s" and "n_host s \<longrightarrow> events_ok (n_state s) es"
  shows "beats s (at_send W es s)" "session_ok (at_send W es s)"
proof -
  show "beats s (at_send W es s)"
    unfolding at_send_def by (rule beats_trans [OF beats_Pump [OF assms] beats_mute [OF mute_frame]])
  have "session_ok (Skip_Update W (NetClient_Pump (callbacks W) es s))"
    by (rule session_ok_same [OF session_ok_Pump [OF assms]]) simp
  then show "session_ok (at_send W es s)" unfolding at_send_def by (rule session_ok_reconnect)
qed

lemma beats_Tick:
  assumes "session_ok s" and "n_host s \<longrightarrow> events_ok (n_state s) es"
  shows "beats s (Tick W es s)"
proof -
  obtain v where v: "v = at_send W es s" by blast
  have sv: "beats s v" "session_ok v" using at_send_facts [OF assms] by (simp_all add: v)
  have "beats s (RemotePlayers_Update W (SyncName W (SendState W False v)))" if "Session_IsConnected v"
  proof -
    have "on_line v" using that sv(2) by (simp add: on_line_ok Session_IsConnected_def IsConnected_def)
    then show ?thesis
      by (rule beats_trans [OF beats_trans [OF sv(1) conjunct1 [OF SendState_beats]] beats_mute [OF mute_after]])
  qed
  then show ?thesis
    using beats_Pump [OF assms] sv(1) by (simp add: Tick_def at_send_def [symmetric] v [symmetric] Let_def)
qed

lemma beats_input: "session_ok s \<Longrightarrow> client_admits s i \<Longrightarrow> beats s (client_run ulong i s)"
proof (cases "\<exists>es. snd i = InTick es")
  case True
  moreover assume "session_ok s" "client_admits s i"
  ultimately show ?thesis by (auto simp: client_run_def client_step_def client_admits_def beats_Tick)
next
  case False
  then show ?thesis using beats_mute [OF mute_input, of "snd i" s ulong "fst i"] by simp
qed

lemma beats_run:
  "session_ok s \<Longrightarrow> client_admitted ulong inputs s \<Longrightarrow>
    beats s (client_runs ulong inputs s) \<and> session_ok (client_runs ulong inputs s)"
proof (induction inputs arbitrary: s)
  case (Cons i inputs)
  have i: "beats s (client_run ulong i s)" "session_ok (client_run ulong i s)"
    using Cons.prems by (simp_all add: beats_input session_ok_step)
  have "client_admitted ulong inputs (client_run ulong i s)" using Cons.prems by simp
  from Cons.IH [OF i(2) this] beats_trans [OF i(1)] show ?case by (auto simp: client_runs_def)
qed (simp add: client_runs_def)

lemma admitted_append:
  "client_admitted ulong (xs @ ys) s = (client_admitted ulong xs s \<and> client_admitted ulong ys (client_runs ulong xs s))"
  by (induction xs arbitrary: s) (simp_all add: client_runs_def)

text \<open>A frame in the game, at least a second after the last state: a state was sent since.\<close>

lemma frame_beats:
  assumes "session_ok s" and "n_host s \<longrightarrow> events_ok (n_state s) es"
    and "s_inWorld (Tick W es s)" and "Session_IsConnected (Tick W es s)" and "\<forall>h. LocalPlayer_Sample W h \<noteq> None"
    and "\<forall>m \<ge> e_readings s. s_lastSend s + max HEARTBEAT_INTERVAL (send_interval s) \<le> e_clock s m"
  shows "\<exists>cs. e_calls (Tick W es s) = e_calls s @ cs \<and> list_ex state_packet cs"
proof -
  obtain v where v: "v = at_send W es s" by blast
  have t: "Tick W es s = RemotePlayers_Update W (SyncName W (SendState W False v))" "Session_IsConnected v"
    using Tick_connected [OF assms(3,4) refl] by (simp_all add: v at_send_def)
  have sv: "beats s v" "session_ok v" using at_send_facts [OF assms(1,2)] by (simp_all add: v)
  then have l: "on_line v" using t(2) by (simp add: on_line_ok Session_IsConnected_def IsConnected_def)
  obtain cs where cs: "e_calls v = e_calls s @ cs" "s_lastSend v = s_lastSend s \<or> list_ex state_packet cs"
    using sv(1) by (auto simp: beats_def)
  obtain ds where ds: "e_calls (SendState W False v) = e_calls v @ ds"
    "s_lastSend v = s_lastSend s \<longrightarrow> list_ex state_packet ds"
  proof -
    have "e_clock v = e_clock s" "send_interval v = send_interval s" "e_readings s \<le> e_readings v"
      using sv(1) by (simp_all add: beats_def)
    then show thesis
      using SendState_beats [OF l, of W False] assms(5,6) by (auto simp: beats_def intro: that)
  qed
  obtain fs where "e_calls (Tick W es s) = e_calls (SendState W False v) @ fs"
    using mute_after [of "SendState W False v" W] by (auto simp: t(1) mute_def silent_def)
  then show ?thesis using cs ds by auto
qed

text \<open>C36. The client is never silent for long: from any session in good order (\<open>session_ok\<close>), over any inputs that keep to
  the documented order of events, up to a frame that ends in the world, connected and welcomed, with a player to sample,
  from which on the clock is at least a second (or one interval, if that is longer) past a moment not before the last
  state: on the way a state was sent, whole and on the unreliable channel.\<close>

theorem state_heartbeat:
  assumes "session_ok s" and "client_admitted ulong (inputs @ [(W, InTick es)]) s"
    and "t = client_runs ulong inputs s" and "s' = client_run ulong (W, InTick es) t"
    and "s_inWorld s'" and "Session_IsConnected s'" and "\<forall>h. LocalPlayer_Sample W h \<noteq> None"
    and "s_lastSend s \<le> t0" and "\<forall>m \<ge> e_readings t. t0 + max HEARTBEAT_INTERVAL (send_interval s) \<le> e_clock s m"
  shows "\<exists>c \<in> set (drop (length (e_calls s)) (e_calls s')). state_packet c"
proof -
  have ad: "client_admitted ulong inputs s" "client_admits t (W, InTick es)" using assms(2,3) by (simp_all add: admitted_append)
  have t: "beats s t" "session_ok t" using beats_run [OF assms(1) ad(1)] by (simp_all add: assms(3))
  have ev: "n_host t \<longrightarrow> events_ok (n_state t) es" using ad(2) by (simp add: client_admits_def)
  have s': "s' = Tick W es t" by (simp add: assms(4) client_run_def client_step_def)
  obtain cs where cs: "e_calls t = e_calls s @ cs" "s_lastSend t = s_lastSend s \<or> list_ex state_packet cs"
    using t(1) by (auto simp: beats_def)
  obtain ds where ds: "e_calls s' = e_calls t @ ds" "s_lastSend t = s_lastSend s \<longrightarrow> list_ex state_packet ds"
  proof (cases "s_lastSend t = s_lastSend s")
    case True
    then have "\<forall>m \<ge> e_readings t. s_lastSend t + max HEARTBEAT_INTERVAL (send_interval t) \<le> e_clock t m"
      using assms(8,9) t(1) by (fastforce simp: beats_def)
    from frame_beats [OF t(2) ev assms(5,6) [unfolded s'] assms(7) this] show thesis using that by (auto simp: s')
  next
    case False
    then show thesis using beats_Tick [OF t(2) ev, of W] that by (auto simp: s' beats_def)
  qed
  have "list_ex state_packet (cs @ ds)" using cs(2) ds(2) by auto
  then show ?thesis by (simp add: cs(1) ds(1) list_ex_iff)
qed

section \<open>A demonstration\<close>

text \<open>A client in the game, twenty seconds after its last state.\<close>

definition heart_demo :: Session where
  "heart_demo = (Session_new True (\<lambda>_. 20 * 10 ^ 9))\<lparr>n_host := True, n_state := kConnected, n_peer := Some 1,
     s_welcomed := True, s_inWorld := True\<rparr>"

lemma heart_demo_fields:
  "session_ok heart_demo" "client_admits heart_demo (demo_world, InTick [])" "e_clock heart_demo m = 20 * 10 ^ 9"
  "s_lastSend heart_demo = 0" "send_interval heart_demo = 50 * 10 ^ 6" "LocalPlayer_Sample demo_world h \<noteq> None"
proof -
  show "session_ok heart_demo"
    by (simp add: heart_demo_def Session_new_def session_ok_def remotes_ok_def keys_distinct_def)
  show "LocalPlayer_Sample demo_world h \<noteq> None"
    by (simp add: LocalPlayer_Sample_def demo_world_def GetPlayer_def GetSpace_def Let_def)
qed (simp_all add: heart_demo_def Session_new_def client_admits_def send_interval_def ClientConfig_default_def)

lemma heart_demo_stays:
  "s_inWorld (Tick demo_world [] heart_demo)" "Session_IsConnected (Tick demo_world [] heart_demo)"
proof -
  let ?u = "NetClient_Pump (callbacks demo_world) [] heart_demo"
  let ?v = "auto_reconnect demo_world (Skip_Update demo_world ?u)"
  have v: "Session_IsConnected ?v" "s_inWorld ?v" "s_inWorld ?u"
    by (simp_all add: NetClient_Pump_def pump_loop_def heart_demo_def Session_new_def enet_def do_call_def Skip_Update_def
        e_now_def auto_reconnect_def Session_IsConnected_def IsConnected_def Let_def)
  have t: "Tick demo_world [] heart_demo = RemotePlayers_Update demo_world (SyncName demo_world (SendState demo_world False ?v))"
    using v(1,3) by (simp add: Tick_def Let_def)
  have w: "s_inWorld (SendState demo_world False s) = s_inWorld s" for s
    by (simp add: SendState_def e_now_def NetClient_Send_def enet_def do_call_def Let_def split: option.split)
  show "s_inWorld (Tick demo_world [] heart_demo)"
    using still_Update [of "SyncName demo_world (SendState demo_world False ?v)" demo_world]
      still_SyncName [of "SendState demo_world False ?v" demo_world] v(2) unfolding t by (simp add: still_def w)
  have "essence (SyncName demo_world (SendState demo_world False ?v)) = essence ?v" by simp
  then show "Session_IsConnected (Tick demo_world [] heart_demo)"
    using v(1) place_step_Update [of "SyncName demo_world (SendState demo_world False ?v)" demo_world] unfolding t
    by (simp add: place_step_def table_step_def link_of_def essence_def Session_IsConnected_def IsConnected_def)
qed

theorem state_heartbeat_witness:
  "\<exists>c \<in> set (drop (length (e_calls heart_demo)) (e_calls (Tick demo_world [] heart_demo))). state_packet c"
proof -
  have t: "heart_demo = client_runs 32 [] heart_demo"
    "Tick demo_world [] heart_demo = client_run 32 (demo_world, InTick []) heart_demo"
    by (simp_all add: client_runs_def client_run_def client_step_def)
  have ad: "client_admitted 32 ([] @ [(demo_world, InTick [])]) heart_demo" by (simp add: heart_demo_fields(2))
  have late: "\<forall>m \<ge> e_readings heart_demo. 0 + max HEARTBEAT_INTERVAL (send_interval heart_demo) \<le> e_clock heart_demo m"
    by (simp add: heart_demo_fields(3,5) HEARTBEAT_INTERVAL_def)
  show ?thesis
    by (rule state_heartbeat [OF heart_demo_fields(1) ad t heart_demo_stays _ _ late]) (simp_all add: heart_demo_fields(4,6))
qed

text \<open>It sends one state in a frame, and none in another frame at the same moment.\<close>

theorem states_keep_rate_witness:
  "states_sent heart_demo (client_runs 32 [(demo_world, InTick []), (demo_world, InTick [])] heart_demo) = 1"
proof -
  let ?i = "(demo_world, InTick [])"
  let ?s' = "client_runs 32 [?i, ?i] heart_demo"
  have "list_all no_welcome [?i, ?i]" by (simp add: no_welcome_def)
  from states_keep_rate [OF this refl, where s = heart_demo and ulong = 32 and ?t0.0 = "20 * 10 ^ 9" and ?t1.0 = "20 * 10 ^ 9"]
  have "states_sent heart_demo ?s' \<le> 1" by (simp add: heart_demo_fields)
  moreover obtain cs where "e_calls (Tick demo_world [] heart_demo) = e_calls heart_demo @ cs" "list_ex state_packet cs"
    using frame_beats [OF heart_demo_fields(1) _ heart_demo_stays] heart_demo_fields
    by (auto simp: client_admits_def HEARTBEAT_INTERVAL_def)
  moreover obtain ds where "e_calls ?s' = e_calls (Tick demo_world [] heart_demo) @ ds"
    using speaks_Tick [of "Tick demo_world [] heart_demo" demo_world "[]"]
    by (auto simp: speaks_def client_runs_def client_run_def client_step_def)
  moreover have "is_state_call c" if "state_packet c" for c
    using that by (auto simp: state_packet_def is_state_call_def split: call.splits enet_call.splits)
  ultimately have "states_sent heart_demo ?s' \<noteq> 0"
    by (auto simp: states_sent_def list_ex_iff filter_empty_conv)
  with \<open>states_sent heart_demo ?s' \<le> 1\<close> show ?thesis by simp
qed

end
