(* ===== verification/F4_Link.thy ===== *)
theory F4_Link
  imports F4_ClientTalk
begin

text \<open>
  The two ends of one connection. What the server posts to a peer it has not shaken hands
  with are rejections, the handshake starts with exactly one welcome, and from then on it
  sends no other; what a client shows changes, while its connection stands, by the packets it
  receives and by nothing else.
\<close>

section \<open>What the server posts to a peer\<close>

definition is_reject :: "u8 list \<Rightarrow> bool" where
  "is_reject bytes = (message_id bytes = Some kReject)"

lemma reject_no_welcome [simp]: "is_reject b \<Longrightarrow> \<not> is_welcome b"
  by (auto simp: is_reject_def is_welcome_def server_msg_ids)

text \<open>Whether the server has shaken hands with a peer, when it knows it.\<close>

definition hsk :: "peer \<Rightarrow> Server \<Rightarrow> bool option" where
  "hsk k s = map_option p_handshaked (map_of (players s) k)"

text \<open>A step that neither adds, removes nor shakes hands with \<open>k\<close>: it may reject it, or tell it something
  once hands are shaken.\<close>

definition may_tell :: "bool option \<Rightarrow> u8 list \<Rightarrow> bool" where
  "may_tell h b = (server_packet b \<and> (is_reject b \<or> (h = Some True \<and> \<not> is_welcome b)))"

text \<open>What it may send unreliably.\<close>

definition loose_update :: "u8 list \<Rightarrow> bool" where
  "loose_update b = (server_packet b \<and> is_update b)"

text \<open>The bytes handed to ENet for a peer outside the reliable channel.\<close>

definition loosely :: "peer \<Rightarrow> effect \<Rightarrow> u8 list list" where
  "loosely k e = (case e of ENetPeerSend j ch rel bytes \<Rightarrow> if j = k \<and> \<not> rel then [bytes] else [] | _ \<Rightarrow> [])"

definition loose_box :: "peer \<Rightarrow> effect list \<Rightarrow> u8 list list" where
  "loose_box k es = concat (map (loosely k) es)"

lemma loose_box_simps [simp]:
  "loose_box k [] = []" "loose_box k (es @ ds) = loose_box k es @ loose_box k ds"
  by (simp_all add: loose_box_def)

lemma loose_box_Cons: "loose_box k (e # es) = loosely k e @ loose_box k es"
  by (simp add: loose_box_def)

lemma loosely_send: "loosely k (send_effect ch bytes j) = (if j = k \<and> ch \<noteq> kReliable then [bytes] else [])"
  by (simp add: loosely_def send_effect_def)

definition extends :: "('b \<Rightarrow> bool) \<Rightarrow> 'b list \<Rightarrow> 'b list \<Rightarrow> bool" where
  "extends P xs ys = (\<exists>new. ys = xs @ new \<and> list_all P new)"

lemma extends_refl [simp]: "extends P xs xs"
  by (simp add: extends_def)

lemma extends_append [simp]: "extends P xs (xs @ ys) = list_all P ys"
  by (simp add: extends_def)

lemma extends_trans: "extends P xs ys \<Longrightarrow> extends P ys zs \<Longrightarrow> extends P xs zs"
  by (auto simp: extends_def)

definition tells :: "peer \<Rightarrow> Server \<Rightarrow> Server \<Rightarrow> bool" where
  "tells k s t = (hsk k t = hsk k s \<and> extends (may_tell (hsk k s)) (inbox k (out s)) (inbox k (out t)) \<and>
     extends loose_update (loose_box k (out s)) (loose_box k (out t)))"

lemma tells_trans: "tells k s t \<Longrightarrow> tells k t u \<Longrightarrow> tells k s u"
  by (auto simp: tells_def intro: extends_trans)

lemma tells_same: "players t = players s \<Longrightarrow> out t = out s \<Longrightarrow> tells k s t"
  by (simp add: tells_def hsk_def)

lemma tells_refl [simp]: "tells k s s"
  by (simp add: tells_same)

lemma tells_then: "tells k s t \<Longrightarrow> players u = players t \<Longrightarrow> out u = out t \<Longrightarrow> tells k s u"
  by (erule tells_trans) (rule tells_same)

lemma tells_if: "tells k s t \<Longrightarrow> tells k s u \<Longrightarrow> tells k s (if b then t else u)"
  by simp

lemma tells_emits:
  "list_all (may_tell (hsk k s)) (inbox k es) \<Longrightarrow> list_all loose_update (loose_box k es) \<Longrightarrow> tells k s (emits es s)"
  by (simp add: tells_def hsk_def)

lemma hsk_audience: "keys_distinct (players s) \<Longrightarrow> k \<in> set (audience ex (players s)) \<Longrightarrow> hsk k s = Some True"
  by (auto simp: set_audience hsk_def keys_distinct_def)

lemma inbox_loose: "ch \<noteq> kReliable \<Longrightarrow> inbox k (map (send_effect ch bytes) js) = []"
  by (induction js) (simp_all add: inbox_Cons for_peer_send)

lemma loose_audience: "list_all P (loose_box k (map (send_effect ch bytes) js)) \<longleftrightarrow> (ch \<noteq> kReliable \<and> k \<in> set js \<longrightarrow> P bytes)"
  by (induction js) (auto simp: loose_box_Cons loosely_send)

lemma loosely_others [simp]:
  "loosely k ENetHostFlush = []" "loosely k (ENetPeerDisconnectLater l) = []" "loosely k ENetPacketDestroy = []"
  "loosely k (ENetPeerTimeout l a b c) = []" "loosely k (ENetHostService t) = []"
  by (simp_all add: loosely_def)

text \<open>What may be broadcast on which channel.\<close>

definition broadcastable :: "Channel \<Rightarrow> u8 list \<Rightarrow> bool" where
  "broadcastable ch b = (server_packet b \<and> \<not> is_welcome b \<and> (ch \<noteq> kReliable \<longrightarrow> is_update b))"

lemma for_peer_others [simp]:
  "for_peer k ENetHostFlush = []" "for_peer k (ENetPeerDisconnectLater l) = []" "for_peer k ENetPacketDestroy = []"
  "for_peer k (ENetPeerTimeout l a b c) = []" "for_peer k (ENetHostService t) = []"
  by (simp_all add: for_peer_def)

lemma tells_audience:
  assumes "keys_distinct (players s)" and "broadcastable ch b"
  shows "tells k s (emits (map (send_effect ch b) (audience ex (players s))) s)"
proof (rule tells_emits)
  have "distinct (audience ex (players s))" using assms(1) by (rule distinct_audience)
  then have "inbox k (map (send_effect ch b) (audience ex (players s))) =
      (if ch = kReliable \<and> k \<in> set (audience ex (players s)) then [b] else [])"
    by (cases "ch = kReliable") (simp_all add: inbox_reliable inbox_loose)
  then show "list_all (may_tell (hsk k s)) (inbox k (map (send_effect ch b) (audience ex (players s))))"
    using hsk_audience [OF assms(1), of k ex] assms(2) by (simp add: may_tell_def broadcastable_def)
qed (use assms(2) in \<open>simp add: loose_audience broadcastable_def loose_update_def\<close>)

lemma not_welcomes [simp]:
  "\<not> is_welcome (joined_bytes i n)" "\<not> is_welcome (left_bytes i)" "\<not> is_welcome (renamed_bytes i n)"
  "\<not> is_welcome (chat_bytes i tx)" "\<not> is_welcome (update_bytes i t st)" "\<not> is_welcome (reject_bytes tx)"
  by (simp_all add: is_welcome_def message_ids server_msg_ids)

lemma is_update_bytes [simp]: "is_update (update_bytes i t st)"
  by (simp add: is_update_def message_ids)

lemma broadcastables [simp]:
  "broadcastable ch (update_bytes i t st)" "server_packet b \<Longrightarrow> \<not> is_welcome b \<Longrightarrow> broadcastable kReliable b"
  by (simp_all add: broadcastable_def)

lemma tells_ServerChat: "keys_distinct (players s) \<Longrightarrow> tells k s (ServerChat tx s)"
  unfolding ServerChat_emits said_def by (rule tells_audience) simp_all

lemma tells_Broadcast: "keys_distinct (players s) \<Longrightarrow> broadcastable ch b \<Longrightarrow> tells k s (Broadcast ch b ex s)"
  unfolding Broadcast_emits by (rule tells_audience)

lemma tells_Kick: "tells k s (Kick p reason s)"
  unfolding Kick_emits
  by (rule tells_emits)
    (simp_all add: inbox_Cons for_peer_send may_tell_def is_reject_def message_ids loose_box_Cons loosely_send)

lemma tells_emit: "for_peer k e = [] \<Longrightarrow> loosely k e = [] \<Longrightarrow> tells k s (emit e s)"
  unfolding emit_emits by (rule tells_emits) (simp_all add: inbox_Cons loose_box_Cons)

text \<open>Writing back a player with the same handshake.\<close>

lemma tells_put:
  assumes "map_of (players s) l = Some p" and "p_peer q = l" and "p_handshaked q = p_handshaked p"
  shows "tells k s (put_player q s)"
  using assms by (auto simp: tells_def hsk_def put_player_def update_conv')

section \<open>The handlers\<close>

lemma tells_now: "tells k s (snd (now s))"
  by (rule tells_same) simp_all

lemma keys_put: "keys_distinct (players s) \<Longrightarrow> keys_distinct (players (put_player p s))"
  by (simp add: put_player_keys)

lemma tells_PlayerState:
  assumes "good s" and "map_of (players s) l = Some p"
  shows "tells k s (HandlePlayerState p r s)"
proof -
  obtain m b r' where m: "run_state PlayerStateMsg_Read r = ((m, b), r')" by (metis prod.collapse)
  let ?p = "p\<lparr>p_state := psm_state m, p_hasState := True\<rparr>"
  let ?t = "(put_player ?p s)\<lparr>readings := Suc (readings (put_player ?p s))\<rparr>"
  have t: "tells k s ?t"
    by (rule tells_then [OF tells_put [OF assms(2)]]) (use good_player [OF assms] in simp_all)
  have "keys_distinct (players ?t)" using good_keys [OF assms(1)] by (simp add: keys_put)
  from tells_trans [OF t tells_Broadcast [OF this]] show ?thesis
    by (simp add: HandlePlayerState_def m NowMs_eq update_bytes_def [symmetric] Let_def)
qed

lemma tells_Chat:
  assumes "good s" and "map_of (players s) l = Some p" and "p_handshaked p"
  shows "tells k s (HandleChat p r s)"
proof -
  obtain m b r' where m: "run_state ChatMsg_Read r = ((m, b), r')" by (metis prod.collapse)
  obtain q where q: "q = (let t = clock s (readings s);
       p = (if CHAT_WINDOW \<le> t - p_chatWindowStart p then p\<lparr>p_chatWindowStart := t, p_chatWindowCount := 0\<rparr> else p)
     in p\<lparr>p_chatWindowCount := p_chatWindowCount p + 1\<rparr>)" by blast
  have qp: "p_peer q = l" "p_handshaked q = p_handshaked p"
    using good_player [OF assms(1,2)] by (simp_all add: q Let_def)
  let ?t = "put_player q (s\<lparr>readings := Suc (readings s)\<rparr>)"
  have t: "tells k s ?t"
    by (rule tells_trans [OF tells_same [of "s\<lparr>readings := Suc (readings s)\<rparr>"] tells_put [OF _ qp]])
      (use assms(2) in simp_all)
  have kd: "keys_distinct (players ?t)" using good_keys [OF assms(1)] by (simp add: keys_put)
  have h: "hsk l ?t = Some True"
    using qp assms(3) by (simp add: hsk_def put_player_def update_conv')
  have slow: "tells k s (Send (p_peer q) kReliable (chat_bytes SERVER_ID ''Slow down.'') ?t)"
    unfolding Send_emits
    by (rule tells_trans [OF t tells_emits])
      (use h qp in \<open>auto simp: inbox_Cons for_peer_send may_tell_def loose_box_Cons loosely_send\<close>)
  have b: "tells k s (Broadcast kReliable (chat_bytes i tx) ex ?t)" for i tx ex
    by (rule tells_trans [OF t tells_Broadcast [OF kd]]) simp
  show ?thesis
    unfolding HandleChat_def m now_def Let_def prod.case chat_bytes_def [symmetric]
    unfolding q [unfolded Let_def, symmetric]
    by (intro tells_if tells_refl t slow b)
qed

lemma tells_SetName:
  assumes "good s" and "map_of (players s) l = Some p"
  shows "tells k s (HandleSetName p r s)"
proof -
  obtain m b r' where m: "run_state SetNameMsg_Read r = ((m, b), r')" by (metis prod.collapse)
  let ?p = "p\<lparr>p_name := SanitizeName (setname_name m)\<rparr>"
  have t: "tells k s (put_player ?p s)"
    by (rule tells_put [OF assms(2)]) (use good_player [OF assms] in simp_all)
  have "keys_distinct (players (put_player ?p s))" using good_keys [OF assms(1)] by (simp add: keys_put)
  from tells_trans [OF t tells_Broadcast [OF this]] show ?thesis
    by (simp add: HandleSetName_def m renamed_bytes_def [symmetric] Let_def)
qed

text \<open>The introductions reach the newcomer only, and are not welcomes.\<close>

lemma tells_Introduce: "k = l \<longrightarrow> hsk k s = Some True \<Longrightarrow> tells k s (Introduce l i n has st s)"
  unfolding Introduce_emits
  by (rule tells_then [OF tells_emits])
    (auto simp: introduction_def inbox_Cons for_peer_send may_tell_def loose_box_Cons loosely_send)

lemma tells_fold:
  assumes "\<And>x s. hsk k s = h \<Longrightarrow> tells k s (f x s)" and "hsk k s = h"
  shows "tells k s (fold f xs s)"
  using assms(2)
proof (induction xs arbitrary: s)
  case (Cons x xs)
  have t: "tells k s (f x s)" using Cons.prems by (rule assms(1))
  then have "hsk k (f x s) = h" using Cons.prems by (simp add: tells_def)
  from tells_trans [OF t Cons.IH [OF this]] show ?case by simp
qed simp

text \<open>A hello of \<open>l\<close> that is accepted: the welcome goes to \<open>l\<close>, everything after it is told.\<close>

lemma Hello_accepted_tells:
  fixes s :: Server
  assumes g: "good s" and p: "map_of (players s) l = Some p"
    and p': "p' = newcomer p hello (nextId s)"
    and s2: "s2 = emits [send_effect kReliable (welcome_bytes (nextId s) (config s)) l] (put_player p' (s\<lparr>nextId := nextId s + 1\<rparr>))"
  shows "tells k s2 (Hello_accepted p hello s)"
proof -
  have l: "p_peer p = l" using good_player [OF g p] by simp
  have l': "p_peer p' = l" by (simp add: p' newcomer_def l)
  have hl: "hsk l s2 = Some True"
    by (simp add: s2 hsk_def put_player_def update_conv' l') (simp add: p' newcomer_def)
  let ?f = "\<lambda>(j, q) s. if \<not> p_handshaked q \<or> j = l then s else Introduce l (p_id q) (p_name q) (p_hasState q) (p_state q) s"
  let ?g = "\<lambda>b s. Introduce l (b_id b) (b_name b) (b_hasState b) (b_state b) s"
  obtain s3 where s3: "s3 = fold ?f (players s2) s2" by blast
  obtain t where t: "t = fold ?g (bots s3) s3" by blast
  have f: "tells k u (?f x u)" if "hsk k u = hsk k s2" for x u
    using that hl by (cases x) (auto intro: tells_Introduce)
  have g': "tells k u (?g b u)" if "hsk k u = hsk k s2" for b u
    using that hl by (auto intro: tells_Introduce)
  have t3: "tells k s2 s3" unfolding s3 by (rule tells_fold [OF f]) simp_all
  then have "hsk k s3 = hsk k s2" by (simp add: tells_def)
  then have t4: "tells k s2 t" unfolding t by (intro tells_trans [OF t3 tells_fold [OF g']]) simp_all
  have pl: "players t = players s2"
  proof -
    have "introduces l (others l (players s2)) s2 s3" unfolding s3 by (rule introduces_players)
    moreover have "introduces l (map bot_face (bots s3)) s3 t" unfolding t by (rule introduces_bots)
    ultimately show ?thesis by (simp add: introduces_def)
  qed
  have kd: "keys_distinct (players t)" using good_keys [OF g] by (simp add: pl s2 keys_put)
  let ?u = "Broadcast kReliable (joined_bytes (p_id p') (p_name p')) (Some l) t"
  have "tells k s2 ?u" by (rule tells_trans [OF t4 tells_Broadcast [OF kd]]) simp
  moreover have "keys_distinct (players ?u)" using kd by (simp add: Broadcast_emits)
  ultimately have "tells k s2 (ServerChat (p_name p' @ '' joined the game'') ?u)"
    by (blast intro: tells_trans tells_ServerChat)
  moreover have "Hello_accepted p hello s = ServerChat (p_name p' @ '' joined the game'') ?u"
    unfolding Hello_accepted_def Let_def newcomer_def [symmetric] p' [symmetric] l' s2 [symmetric] s3 [symmetric] t [symmetric] ..
  ultimately show ?thesis by simp
qed

text \<open>What a connection has been sent reliably, without and with a handshake.\<close>

definition conn_ok :: "bool \<Rightarrow> u8 list list \<Rightarrow> bool" where
  "conn_ok h conn =
     (list_all server_packet conn \<and>
      (if h then \<exists>rs w rest. conn = rs @ w # rest \<and> list_all is_reject rs \<and> is_welcome w \<and> \<not> list_ex is_welcome rest
       else list_all is_reject conn))"

lemma conn_ok_tells:
  assumes "conn_ok h conn" and "list_all (may_tell (Some h)) new"
  shows "conn_ok h (conn @ new)"
proof (cases h)
  case True
  then obtain rs w rest where c: "conn = rs @ w # rest" "list_all is_reject rs" "is_welcome w" "\<not> list_ex is_welcome rest"
    "list_all server_packet conn" using assms(1) by (auto simp: conn_ok_def)
  have "\<not> list_ex is_welcome (rest @ new)" "list_all server_packet new"
    using assms(2) c(4) by (auto simp: list_all_iff list_ex_iff may_tell_def)
  moreover have "conn @ new = rs @ w # (rest @ new)" by (simp add: c(1))
  moreover have "list_all server_packet (conn @ new)" using c(5) calculation(2) by simp
  ultimately show ?thesis unfolding conn_ok_def using True c(2,3) by metis
next
  case False
  have "list_all is_reject new" "list_all server_packet new"
    using assms(2) False by (auto simp: list_all_iff may_tell_def)
  then show ?thesis using assms(1) False by (simp add: conn_ok_def)
qed

text \<open>A step that keeps the connection of \<open>k\<close>.\<close>

definition serves :: "peer \<Rightarrow> Server \<Rightarrow> Server \<Rightarrow> bool" where
  "serves k s t = (\<forall>h conn. hsk k s = Some h \<longrightarrow> conn_ok h conn \<longrightarrow>
     (\<exists>h' new. hsk k t = Some h' \<and> inbox k (out t) = inbox k (out s) @ new \<and> conn_ok h' (conn @ new)) \<and>
     extends loose_update (loose_box k (out s)) (loose_box k (out t)))"

lemma serves_tells: "tells k s t \<Longrightarrow> serves k s t"
  by (auto simp: serves_def tells_def extends_def intro: conn_ok_tells)

lemma serves_refl [simp]: "serves k s s"
  by (simp add: serves_tells)

lemma serves_trans:
  assumes "serves k s t" and "serves k t u"
  shows "serves k s u"
  unfolding serves_def
proof (intro allI impI)
  fix h conn assume h: "hsk k s = Some h" "conn_ok h conn"
  obtain i new where i: "hsk k t = Some i" "inbox k (out t) = inbox k (out s) @ new" "conn_ok i (conn @ new)"
    "extends loose_update (loose_box k (out s)) (loose_box k (out t))"
    using assms(1) h unfolding serves_def by blast
  obtain j more where "hsk k u = Some j" "inbox k (out u) = inbox k (out t) @ more" "conn_ok j ((conn @ new) @ more)"
    "extends loose_update (loose_box k (out t)) (loose_box k (out u))"
    using assms(2) i(1,3) unfolding serves_def by blast
  then show "(\<exists>h' new. hsk k u = Some h' \<and> inbox k (out u) = inbox k (out s) @ new \<and> conn_ok h' (conn @ new)) \<and>
      extends loose_update (loose_box k (out s)) (loose_box k (out u))"
    using i extends_trans [of loose_update] by auto
qed

lemma serves_Hello_accepted:
  assumes g: "good s" and p: "map_of (players s) l = Some p" and "\<not> p_handshaked p"
  shows "serves k s (Hello_accepted p hello s)"
proof -
  obtain p' where p': "p' = newcomer p hello (nextId s)" by blast
  obtain s2 where s2: "s2 = emits [send_effect kReliable (welcome_bytes (nextId s) (config s)) l]
      (put_player p' (s\<lparr>nextId := nextId s + 1\<rparr>))" by blast
  have q: "p_peer p' = l" "p_handshaked p'" using good_player [OF g p] by (simp_all add: p' newcomer_def)
  have "serves k s s2"
  proof (cases "k = l")
    case True
    have "is_welcome (welcome_bytes (nextId s) (config s))" by (simp add: is_welcome_def message_ids bodies)
    then have "conn_ok True (conn @ [welcome_bytes (nextId s) (config s)])" if "conn_ok False conn" for conn
      using that by (auto simp: conn_ok_def intro!: exI [of _ conn])
    then show ?thesis
      using q p assms(3) True
      by (auto simp: serves_def s2 hsk_def put_player_def update_conv' inbox_Cons for_peer_send loose_box_Cons loosely_send)
  next
    case False
    have "tells k s s2"
      using False q by (simp add: tells_def s2 hsk_def put_player_def update_conv' inbox_Cons for_peer_send
          loose_box_Cons loosely_send)
    then show ?thesis by (rule serves_tells)
  qed
  moreover have "serves k s2 (Hello_accepted p hello s)"
    by (rule serves_tells [OF Hello_accepted_tells [OF g p p' s2]])
  ultimately show ?thesis by (rule serves_trans)
qed

lemma serves_Hello:
  assumes "good s" and "map_of (players s) l = Some p"
  shows "serves k s (HandleHello p r s)"
  using serves_Hello_accepted [OF assms] by (auto simp: HandleHello_cases serves_tells tells_Kick split: prod.split)

lemma serves_Packet:
  assumes "good s"
  shows "serves k s (HandlePacket l bytes s)"
proof (cases "map_of (players s) l")
  case (Some p)
  obtain i b r where h: "run_state ReadHeader (Reader_new bytes) = ((i, b), r)" by (metis prod.collapse)
  show ?thesis
    unfolding HandlePacket_def FindPlayer_def Some h Let_def option.case prod.case
    using serves_Hello [OF assms Some] serves_tells [OF tells_PlayerState [OF assms Some]]
      serves_tells [OF tells_Chat [OF assms Some]] serves_tells [OF tells_SetName [OF assms Some]]
    by (simp add: serves_tells tells_Kick)
qed (simp add: HandlePacket_def FindPlayer_def)

section \<open>Announcements\<close>

text \<open>Steps that leave the players alone and only announce.\<close>

definition announces :: "peer \<Rightarrow> Server \<Rightarrow> Server \<Rightarrow> bool" where
  "announces k s t = (players t = players s \<and> (keys_distinct (players s) \<longrightarrow> tells k s t))"

lemma announces_trans: "announces k s t \<Longrightarrow> announces k t u \<Longrightarrow> announces k s u"
  by (auto simp: announces_def intro: tells_trans)

lemma announces_then: "announces k s t \<Longrightarrow> players u = players t \<Longrightarrow> out u = out t \<Longrightarrow> announces k s u"
  by (auto simp: announces_def intro: tells_then)

lemma announces_refl [simp]: "announces k s s"
  by (simp add: announces_def)

lemma announces_same: "players t = players s \<Longrightarrow> out t = out s \<Longrightarrow> announces k s t"
  by (rule announces_then [OF announces_refl])

lemma announces_if: "announces k s t \<Longrightarrow> announces k s u \<Longrightarrow> announces k s (if b then t else u)"
  by simp

lemma announces_Broadcast: "broadcastable ch b \<Longrightarrow> announces k s (Broadcast ch b ex s)"
  by (simp add: announces_def tells_Broadcast) (simp add: Broadcast_emits)

lemma announces_ServerChat: "announces k s (ServerChat tx s)"
  by (simp add: announces_def tells_ServerChat) (simp add: ServerChat_emits)

lemma announces_Kick: "announces k s (Kick p reason s)"
  by (simp add: announces_def tells_Kick) (simp add: Kick_emits)

lemma announces_serves: "good s \<Longrightarrow> announces k s t \<Longrightarrow> serves k s t"
  by (simp add: announces_def good_keys serves_tells)

lemma announces_AddBot: "announces k s (snd (AddBot mode nm s))"
  unfolding AddBot_def Let_def snd_conv joined_bytes_def [symmetric]
  by (rule announces_trans [OF announces_trans [OF announces_same announces_Broadcast] announces_ServerChat]) simp_all

lemma announces_RemoveBot: "announces k s (snd (RemoveBot i s))"
proof (cases "List.extract (\<lambda>b. b_id b = i) (bots s)")
  case (Some x)
  then obtain xs b ys where e: "List.extract (\<lambda>b. b_id b = i) (bots s) = Some (xs, b, ys)" by (cases x) auto
  show ?thesis
    unfolding RemoveBot_def e option.case prod.case Let_def snd_conv left_bytes_def [symmetric]
    by (rule announces_then [OF announces_trans [OF announces_Broadcast announces_ServerChat]]) simp_all
qed (simp add: RemoveBot_def)

lemma announces_RemoveAllBots: "announces k s (RemoveAllBots s)"
proof (induction s rule: RemoveAllBots.induct)
  case (1 s)
  show ?case
  proof (cases "bots s = []")
    case False
    then show ?thesis
      using announces_trans [OF announces_RemoveBot 1 [OF False]] by (simp add: RemoveAllBots.simps [of s])
  qed (simp add: RemoveAllBots.simps [of s])
qed

lemma announces_ExecuteBot: "announces k s (ExecuteBot ulong args s)"
  unfolding ExecuteBot_def Let_def
  by (auto intro!: announces_if announces_AddBot announces_RemoveBot announces_RemoveAllBots split: option.split)

lemma announces_ExecuteKick: "announces k s (ExecuteKick ulong line args s)"
  unfolding ExecuteKick_def Let_def case_prod_beta
  by (auto intro!: announces_if announces_RemoveBot announces_trans [OF announces_RemoveBot announces_Kick] split: option.split)

lemma announces_command: "announces k s (F4_ServerConsole.ExecuteCommand ulong line s)"
  unfolding ExecuteCommand_def Let_def
  by (intro announces_if announces_refl announces_ExecuteBot announces_ExecuteKick announces_ServerChat)

lemma announces_UpdateBot: "announces k s (snd (UpdateBot cosf sinf dt b s))"
proof -
  have b: "announces k s (Broadcast ch (update_bytes i t st) ex (s\<lparr>readings := n\<rparr>))" for ch i t st ex n
    by (rule announces_trans [OF announces_same announces_Broadcast]) simp_all
  show ?thesis
    unfolding UpdateBot_def update_bytes_def [symmetric] NowMs_eq Let_def
    using b by (auto split: prod.split option.split)
qed

lemma announces_UpdateBots_loop: "announces k s (snd (UpdateBots_loop cosf sinf dt bs s))"
proof (induction bs arbitrary: s)
  case (Cons b bs)
  show ?case
    using announces_trans [OF announces_UpdateBot [of k s cosf sinf dt b] Cons]
    by (simp add: case_prod_beta Let_def)
qed simp

lemma announces_UpdateBots: "announces k s (UpdateBots cosf sinf s)"
proof -
  let ?t = "s\<lparr>readings := Suc (readings s), lastBotUpdate := clock s (readings s)\<rparr>"
  have t: "announces k s ?t" "announces k s (s\<lparr>readings := Suc (readings s)\<rparr>)" by (rule announces_same; simp)+
  have "announces k s ((snd (UpdateBots_loop cosf sinf dt bs ?t))\<lparr>bots := cs\<rparr>)" for dt bs cs
    by (rule announces_then [OF announces_trans [OF t(1) announces_UpdateBots_loop]]) simp_all
  then show ?thesis using t(2) by (simp add: UpdateBots_def now_def case_prod_beta Let_def)
qed

section \<open>Every step of the server\<close>

lemma announces_service: "announces k s (emit (ENetHostService t) s)"
  by (simp add: announces_def tells_emit) (simp add: emit_emits)

lemma serves_Connect: "good s \<Longrightarrow> serves k s (HandleConnect l s)"
proof -
  let ?t = "emit (ENetPeerTimeout l 0 PEER_TIMEOUT_MIN_MS PEER_TIMEOUT_MAX_MS) (s\<lparr>readings := Suc (readings s)\<rparr>)"
  assume g: "good s"
  have t: "tells k s ?t" by (rule tells_trans [OF tells_same tells_emit]) simp_all
  show ?thesis
  proof (cases "map_of (players s) l")
    case None
    have n: "map_of (players ?t) l = None" using None by (simp add: emit_emits)
    have put: "serves k ?t (put_player p ?t)" if "p_peer p = l" for p
    proof (cases "k = l")
      case True
      then show ?thesis using n by (simp add: serves_def hsk_def)
    next
      case False
      have "tells k ?t (put_player p ?t)" using False that by (simp add: tells_def hsk_def put_player_def update_conv')
      then show ?thesis by (rule serves_tells)
    qed
    have "serves k s (put_player p ?t)" if "p_peer p = l" for p
      by (rule serves_trans [OF serves_tells [OF t] put [OF that]])
    then show ?thesis using n by (simp add: HandleConnect_def now_def Player_new_def Let_def)
  next
    case (Some p)
    have n: "map_of (players ?t) l = Some p" using Some by (simp add: emit_emits)
    show ?thesis using serves_tells [OF t] n by (simp add: HandleConnect_def now_def Let_def)
  qed
qed

lemma serves_Disconnect:
  assumes "good s" and "k \<noteq> l"
  shows "serves k s (HandleDisconnect l s)"
proof (cases "map_of (players s) l")
  case (Some p)
  let ?t = "s\<lparr>players := AList.delete l (players s)\<rparr>"
  have kd: "keys_distinct (players ?t)" using good_keys [OF assms(1)] by (simp add: alist.valid_drop)
  have t: "tells k s ?t" using assms(2) by (simp add: tells_def hsk_def delete_conv')
  have "announces k ?t (ServerChat (p_name p @ '' left the game'') (Broadcast kReliable (left_bytes (p_id p)) None ?t))"
    by (rule announces_trans [OF announces_Broadcast announces_ServerChat]) simp
  then have "tells k s (ServerChat (p_name p @ '' left the game'') (Broadcast kReliable (left_bytes (p_id p)) None ?t))"
    using kd by (auto simp: announces_def intro: tells_trans [OF t])
  then show ?thesis
    using t by (simp add: HandleDisconnect_def Some left_bytes_def [symmetric] Let_def serves_tells)
qed (simp add: HandleDisconnect_def)

lemma serves_event:
  assumes "good s" and "e \<noteq> EvDisconnect k"
  shows "serves k s (handle_event e s)"
proof (cases e)
  case (EvReceive l bytes)
  have d: "tells k t (emit ENetPacketDestroy t)" for t by (rule tells_emit) simp_all
  have "serves k s (emit ENetPacketDestroy (HandlePacket l bytes s))"
    by (rule serves_trans [OF serves_Packet [OF assms(1)] serves_tells [OF d]])
  then show ?thesis by (simp add: handle_event_def EvReceive)
qed (use assms in \<open>auto simp: handle_event_def serves_Connect serves_Disconnect\<close>)

end
