(* ===== verification/F4_Network.thy ===== *)
theory F4_Network
  imports F4_Link F4_ClientLink
begin

text \<open>
  The server and one client of it with the network between them, as a step relation. ENet's
  reliable channel delivers in order and exactly once; a packet of the other channel may be
  lost, repeated or late, so it stays available. Events of other peers, commands at either
  console, the game, and connections that are refused, lost or dialled anew come in any
  order. The server's steps are those its service call consists of.
\<close>

section \<open>The network\<close>

text \<open>What became of the client's last attempt to connect: none or over, dialled, or answered by the
  server, which knows the client as a peer.\<close>

datatype connection = Closed | Dialled | Linked peer

record Net =
  net_server :: Server
  net_client :: Session
  net_link :: connection
  net_up :: "u8 list list"
  net_up_loose :: "u8 list list"
  net_down :: "u8 list list"
  net_down_loose :: "u8 list list"

text \<open>Packets handed over from a queue, or from the loose ones: which, and what is left of the queue.\<close>

inductive hands_over :: "u8 list list \<Rightarrow> u8 list list \<Rightarrow> u8 list list \<Rightarrow> u8 list list \<Rightarrow> bool" for loose where
  hand_none: "hands_over loose q [] q"
| hand_loose: "b \<in> set loose \<Longrightarrow> hands_over loose q bs q' \<Longrightarrow> hands_over loose q (b # bs) q'"
| hand_next: "hands_over loose q bs q' \<Longrightarrow> hands_over loose (b # q) (b # bs) q'"

inductive_cases hand_oneE: "hands_over loose q [b] q'"
inductive_cases hand_noneE: "hands_over loose q [] q'"

text \<open>The server has moved to a new state: what it posted to the client is under way.\<close>

definition server_moves :: "Server \<Rightarrow> Net \<Rightarrow> Net" where
  "server_moves s' N =
     (case net_link N of
        Linked k \<Rightarrow>
          N\<lparr>net_server := s',
            net_down := net_down N @ drop (length (inbox k (out (net_server N)))) (inbox k (out s')),
            net_down_loose := net_down_loose N @ drop (length (loose_box k (out (net_server N)))) (loose_box k (out s'))\<rparr>
      | _ \<Rightarrow> N\<lparr>net_server := s'\<rparr>)"

text \<open>What a client has sent since an earlier state, reliably or not.\<close>

definition sent :: "bool \<Rightarrow> Session \<Rightarrow> Session \<Rightarrow> u8 list list" where
  "sent reliable s s' =
     concat (map (\<lambda>c. case c of Enet (PeerSend p n rel bytes) \<Rightarrow> if rel = reliable then [bytes] else [] | _ \<Rightarrow> [])
       (drop (length (e_calls s)) (e_calls s')))"

text \<open>One event of the server's loop, after the call that returned it.\<close>

definition server_event :: "u32 \<Rightarrow> net_event \<Rightarrow> Server \<Rightarrow> Server" where
  "server_event t e s = handle_event e (emit (ENetHostService t) s)"

definition about :: "net_event \<Rightarrow> peer option" where
  "about e = (case e of EvConnect k \<Rightarrow> Some k | EvDisconnect k \<Rightarrow> Some k | EvReceive k b \<Rightarrow> Some k | EvNone \<Rightarrow> None)"

text \<open>What is left of the server's machine: the last call of a pass with the bots' update, and a command.\<close>

definition eventless :: "server_input \<Rightarrow> bool" where
  "eventless i = (case i of InService t es \<Rightarrow> es = [] | InCommand line \<Rightarrow> True)"

inductive net_step :: "nat \<Rightarrow> (f32 \<Rightarrow> f32) \<Rightarrow> (f32 \<Rightarrow> f32) \<Rightarrow> Net \<Rightarrow> Net \<Rightarrow> bool" for ulong cosf sinf where
  accepted: "net_link N = Dialled \<Longrightarrow> map_of (players (net_server N)) k = None \<Longrightarrow> ids_left (net_server N) \<Longrightarrow>
    net_step ulong cosf sinf N
      ((server_moves (server_event t (EvConnect k) (net_server N)) N)\<lparr>net_link := Linked k\<rparr>)"
| delivered: "net_link N = Linked k \<Longrightarrow> hands_over (net_up_loose N) (net_up N) [b] q \<Longrightarrow> ids_left (net_server N) \<Longrightarrow>
    net_step ulong cosf sinf N
      ((server_moves (server_event t (EvReceive k b) (net_server N)) N)\<lparr>net_up := q\<rparr>)"
| lost: "net_link N = Linked k \<Longrightarrow>
    net_step ulong cosf sinf N
      (N\<lparr>net_server := server_event t (EvDisconnect k) (net_server N), net_link := Closed\<rparr>)"
| others: "(\<forall>k. net_link N = Linked k \<longrightarrow> about e \<noteq> Some k) \<Longrightarrow> ids_left (net_server N) \<Longrightarrow>
    net_step ulong cosf sinf N (server_moves (server_event t e (net_server N)) N)"
| rest: "eventless i \<Longrightarrow> ids_left (net_server N) \<Longrightarrow>
    net_step ulong cosf sinf N (server_moves (server_step ulong cosf sinf i (net_server N)) N)"
| frame: "c' = client_run ulong (W, i) (net_client N) \<Longrightarrow> client_admits (net_client N) (W, i) \<Longrightarrow>
    net_link N \<noteq> Closed \<Longrightarrow> n_state c' \<noteq> kDisconnected \<Longrightarrow>
    (n_state (net_client N) = kConnected \<longrightarrow> n_state c' = kConnected) \<Longrightarrow>
    (n_state c' = kConnecting \<longrightarrow> received i = []) \<Longrightarrow>
    hands_over (net_down_loose N) (net_down N) (received i) q \<Longrightarrow>
    net_step ulong cosf sinf N
      (N\<lparr>net_client := c', net_up := net_up N @ sent True (net_client N) c',
         net_up_loose := net_up_loose N @ sent False (net_client N) c', net_down := q\<rparr>)"
| dialled: "c' = client_run ulong (W, i) (net_client N) \<Longrightarrow> client_admits (net_client N) (W, i) \<Longrightarrow>
    n_state c' = kConnecting \<Longrightarrow>
    net_step ulong cosf sinf N
      (N\<lparr>net_client := c', net_link := Dialled, net_up := [], net_up_loose := [], net_down := [], net_down_loose := []\<rparr>)"
| hung_up: "c' = client_run ulong (W, i) (net_client N) \<Longrightarrow> client_admits (net_client N) (W, i) \<Longrightarrow>
    n_state c' = kDisconnected \<or> net_link N = Closed \<Longrightarrow>
    net_step ulong cosf sinf N (N\<lparr>net_client := c', net_link := Closed\<rparr>)"

inductive_cases net_stepE: "net_step ulong cosf sinf N N'"

text \<open>A service call of the server is a sequence of these steps.\<close>

lemma service_call_events:
  "host s \<Longrightarrow> Service cosf sinf t (e # es) s = UpdateBots cosf sinf (service_loop True t es (server_event t e s))"
  "service_loop True t (e # es) s = service_loop True t es (server_event 0 e s)"
  "host s \<Longrightarrow> UpdateBots cosf sinf (service_loop True t [] s) = server_step ulong cosf sinf (InService 0 []) s"
  by (simp_all add: Service_def server_event_def)

section \<open>Reachable states\<close>

definition net_start :: "Config \<Rightarrow> (nat \<Rightarrow> int) \<Rightarrow> Session \<Rightarrow> Net" where
  "net_start cfg clk c =
     \<lparr>net_server = started cfg clk, net_client = c, net_link = Closed,
      net_up = [], net_up_loose = [], net_down = [], net_down_loose = []\<rparr>"

inductive reachable :: "nat \<Rightarrow> (f32 \<Rightarrow> f32) \<Rightarrow> (f32 \<Rightarrow> f32) \<Rightarrow> Net \<Rightarrow> bool" for ulong cosf sinf where
  initial: "reachable ulong cosf sinf (net_start cfg clk (plugin_load W ulong initialized clk' path file))"
| further: "reachable ulong cosf sinf N \<Longrightarrow> net_step ulong cosf sinf N N' \<Longrightarrow> reachable ulong cosf sinf N'"

section \<open>The invariant\<close>

text \<open>Before the server answers, the client has been told nothing and has sent at most hello. Then what it
  has been sent is what it has got and what is under way, with one welcome where hands are shaken, and
  it shows what its packets made of it.\<close>

definition dialled_ok :: "Net \<Rightarrow> bool" where
  "dialled_ok N =
     (n_state (net_client N) \<noteq> kDisconnected \<and> net_down N = [] \<and> net_down_loose N = [] \<and>
      faces (net_client N) = roster_start \<and> \<not> s_welcomed (net_client N) \<and>
      net_up_loose N = [] \<and> list_all valid_hello (net_up N) \<and>
      (n_state (net_client N) = kConnected \<longrightarrow> net_up N \<noteq> []))"

text \<open>A client the server has not shaken hands with: nothing but hello is under way, and a connected one
  has sent it.\<close>

definition hello_under_way :: "Net \<Rightarrow> bool" where
  "hello_under_way N =
     (net_up_loose N = [] \<and> list_all valid_hello (net_up N) \<and> (n_state (net_client N) = kConnected \<longrightarrow> net_up N \<noteq> []))"

definition linked_ok :: "peer \<Rightarrow> Net \<Rightarrow> bool" where
  "linked_ok k N =
     (n_state (net_client N) \<noteq> kDisconnected \<and>
      (\<exists>h pre got hs. hsk k (net_server N) = Some h \<and> inbox k (out (net_server N)) = pre @ got @ net_down N \<and>
         conn_ok h (got @ net_down N) \<and> filter (\<lambda>b. \<not> is_update b) hs = filter (\<lambda>b. \<not> is_update b) got \<and>
         faces (net_client N) = fold heard hs roster_start \<and>
         (s_welcomed (net_client N) \<longrightarrow> list_ex is_welcome got) \<and>
         (\<not> h \<longrightarrow> hello_under_way N)) \<and>
      list_all loose_update (net_down_loose N))"

lemma linked_okI:
  assumes "n_state (net_client N) \<noteq> kDisconnected" and "list_all loose_update (net_down_loose N)"
    and "hsk k (net_server N) = Some h" and "inbox k (out (net_server N)) = pre @ got @ net_down N"
    and "conn_ok h (got @ net_down N)" and "filter (\<lambda>b. \<not> is_update b) hs = filter (\<lambda>b. \<not> is_update b) got"
    and "faces (net_client N) = fold heard hs roster_start"
    and "s_welcomed (net_client N) \<longrightarrow> list_ex is_welcome got"
    and "\<not> h \<longrightarrow> hello_under_way N"
  shows "linked_ok k N"
  unfolding linked_ok_def using assms by blast

lemma linked_okE:
  assumes "linked_ok k N"
  obtains h pre got hs where "n_state (net_client N) \<noteq> kDisconnected" and "list_all loose_update (net_down_loose N)"
    and "hsk k (net_server N) = Some h" and "inbox k (out (net_server N)) = pre @ got @ net_down N"
    and "conn_ok h (got @ net_down N)" and "filter (\<lambda>b. \<not> is_update b) hs = filter (\<lambda>b. \<not> is_update b) got"
    and "faces (net_client N) = fold heard hs roster_start"
    and "s_welcomed (net_client N) \<longrightarrow> list_ex is_welcome got"
    and "\<not> h \<longrightarrow> hello_under_way N"
  using assms unfolding linked_ok_def by blast

definition net_ok :: "Net \<Rightarrow> bool" where
  "net_ok N =
     (good (net_server N) \<and> session_ok (net_client N) \<and>
      (case net_link N of Closed \<Rightarrow> True | Dialled \<Rightarrow> dialled_ok N | Linked k \<Rightarrow> linked_ok k N))"

section \<open>Handing over\<close>

lemma handed_over:
  assumes "hands_over loose q bs q'" and "list_all loose_update loose"
  shows "\<exists>taken. q = taken @ q' \<and> filter (\<lambda>b. \<not> is_update b) bs = filter (\<lambda>b. \<not> is_update b) taken"
  using assms
proof (induction rule: hands_over.induct)
  case (hand_loose b q bs q')
  then show ?case by (auto simp: list_all_iff loose_update_def)
next
  case (hand_next q bs q' b)
  then obtain taken where "q = taken @ q'" "filter (\<lambda>b. \<not> is_update b) bs = filter (\<lambda>b. \<not> is_update b) taken" by blast
  then show ?case by (intro exI [of _ "b # taken"]) simp
qed simp

lemma handed_over_set: "hands_over loose q bs q' \<Longrightarrow> set bs \<subseteq> set loose \<union> set q \<and> set q' \<subseteq> set q"
  by (induction rule: hands_over.induct) auto

lemma welcome_no_update: "is_welcome b \<Longrightarrow> \<not> is_update b"
  by (auto simp: is_welcome_def is_update_def server_msg_ids)

lemma same_welcomes:
  assumes "filter (\<lambda>b. \<not> is_update b) bs = filter (\<lambda>b. \<not> is_update b) cs"
  shows "list_ex is_welcome bs = list_ex is_welcome cs"
proof -
  have "list_ex is_welcome bs = list_ex is_welcome (filter (\<lambda>b. \<not> is_update b) bs)" for bs
    using welcome_no_update by (auto simp: list_ex_iff)
  then show ?thesis using assms by metis
qed

section \<open>The server's steps\<close>

lemma conn_ok_welcome: "conn_ok h conn \<Longrightarrow> list_ex is_welcome conn = h"
  by (cases h) (auto simp: conn_ok_def list_all_iff list_ex_iff)

lemma conn_ok_mono: "conn_ok h conn \<Longrightarrow> conn_ok h' (conn @ new) \<Longrightarrow> h \<Longrightarrow> h'"
  using conn_ok_welcome [of h conn] conn_ok_welcome [of h' "conn @ new"] by auto

lemma server_moves_ok:
  assumes N: "net_ok N" and g: "good s'" and sv: "\<And>k. net_link N = Linked k \<Longrightarrow> serves k (net_server N) s'"
  shows "net_ok (server_moves s' N)"
proof (cases "net_link N")
  case (Linked k)
  then have "linked_ok k N" using N by (simp add: net_ok_def)
  then obtain h pre got hs where x: "n_state (net_client N) \<noteq> kDisconnected" "list_all loose_update (net_down_loose N)"
    "hsk k (net_server N) = Some h" "inbox k (out (net_server N)) = pre @ got @ net_down N"
    "conn_ok h (got @ net_down N)" "filter (\<lambda>b. \<not> is_update b) hs = filter (\<lambda>b. \<not> is_update b) got"
    "faces (net_client N) = fold heard hs roster_start" "s_welcomed (net_client N) \<longrightarrow> list_ex is_welcome got"
    "\<not> h \<longrightarrow> hello_under_way N"
    by (rule linked_okE)
  obtain h' new more where y: "hsk k s' = Some h'" "inbox k (out s') = inbox k (out (net_server N)) @ new"
    "conn_ok h' ((got @ net_down N) @ new)" "loose_box k (out s') = loose_box k (out (net_server N)) @ more"
    "list_all loose_update more"
    using sv [OF Linked] x(3,5) unfolding serves_def extends_def by blast
  let ?M = "server_moves s' N"
  have f: "net_server ?M = s'" "net_client ?M = net_client N" "net_link ?M = Linked k" "net_up ?M = net_up N"
    "net_up_loose ?M = net_up_loose N" "net_down ?M = net_down N @ new" "net_down_loose ?M = net_down_loose N @ more"
    by (simp_all add: server_moves_def Linked y(2,4))
  have "\<not> h' \<longrightarrow> hello_under_way ?M"
    using conn_ok_mono [OF x(5) y(3)] x(9) by (auto simp: hello_under_way_def f)
  then have "linked_ok k ?M"
    using x y by (intro linked_okI [where h = h' and pre = pre and got = got and hs = hs]) (simp_all only: f, simp_all)
  then show ?thesis using N g by (simp add: net_ok_def f)
qed (use N g in \<open>simp_all add: net_ok_def server_moves_def dialled_ok_def\<close>)

lemma server_event_good: "good s \<Longrightarrow> ids_left s \<Longrightarrow> good (server_event t e s)"
  unfolding server_event_def by (rule good_handle_event [OF good_service_call]) (simp_all add: ids_left_def emit_def)

lemma server_event_serves: "good s \<Longrightarrow> e \<noteq> EvDisconnect k \<Longrightarrow> serves k s (server_event t e s)"
  unfolding server_event_def
  by (rule serves_trans [OF announces_serves [OF _ announces_service] serves_event [OF good_service_call]])

lemma server_rest_ok:
  assumes "good s" and "ids_left s" and "eventless i"
  shows "good (server_step ulong cosf sinf i s)" "serves k s (server_step ulong cosf sinf i s)"
proof -
  have "announces k s (server_step ulong cosf sinf i s)"
    using assms(3) announces_trans [OF announces_service announces_UpdateBots] announces_command
    by (auto simp: eventless_def Service_def split: server_input.splits)
  then show "serves k s (server_step ulong cosf sinf i s)" by (rule announces_serves [OF assms(1)])
  show "good (server_step ulong cosf sinf i s)"
    using assms good_service_call [OF assms(1)]
    by (cases i) (auto simp: eventless_def Service_def good_UpdateBots good_ExecuteCommand)
qed

section \<open>The client's steps\<close>

text \<open>What a client that is not connected shows.\<close>

lemma not_connected_faces: "session_ok c \<Longrightarrow> n_state c \<noteq> kConnected \<Longrightarrow> faces c = roster_start \<and> \<not> s_welcomed c"
  by (auto simp: session_ok_def faces_def roster_start_def)

lemma shy_sent: "shy s s' \<Longrightarrow> sent False s s' = [] \<and> list_all valid_hello (sent True s s')"
proof -
  assume "shy s s'"
  then obtain cs where cs: "e_calls s' = e_calls s @ cs" "list_all hello_only cs" by (auto simp: shy_def)
  have "concat (map (\<lambda>c. case c of Enet (PeerSend p n rel bytes) \<Rightarrow> if rel = False then [bytes] else [] | _ \<Rightarrow> []) cs) = [] \<and>
    list_all valid_hello (concat (map (\<lambda>c. case c of Enet (PeerSend p n rel bytes) \<Rightarrow> if rel = True then [bytes] else [] | _ \<Rightarrow> []) cs))"
    using cs(2) by (induction cs) (auto simp: hello_only_def split: call.splits enet_call.splits)
  then show ?thesis by (simp add: sent_def cs(1))
qed

lemma no_welcome_received: "no_welcome (W, i) = (\<not> list_ex is_welcome (received i))"
proof -
  have "list_all no_welcome_event es = (\<not> list_ex is_welcome (payloads es))" for es
    by (induction es) (auto simp: no_welcome_event_def split: net_client_event.splits)
  then show ?thesis by (simp add: no_welcome_def received_def split: client_input.split)
qed

lemma unwelcomed_step:
  assumes "\<not> s_welcomed c" and "\<not> list_ex is_welcome (received i)" and "c' = client_run ulong (W, i) c"
  shows "\<not> s_welcomed c'" "sent False c c' = []" "list_all valid_hello (sent True c c')"
proof -
  have "shy c c'" unfolding assms(3) by (rule shy_input) (simp_all add: no_welcome_received assms(1,2))
  then show "\<not> s_welcomed c'" "sent False c c' = []" "list_all valid_hello (sent True c c')"
    using assms(1) shy_sent [of c c'] by (auto simp: shy_def)
qed

text \<open>A frame on the standing connection.\<close>

lemma frame_faces:
  assumes "session_ok c" and "session_ok c'" and "client_admits c (W, i)" and "c' = client_run ulong (W, i) c"
    and "n_state c \<noteq> kDisconnected" and "n_state c' \<noteq> kDisconnected"
    and "n_state c = kConnected \<longrightarrow> n_state c' = kConnected" and "n_state c' = kConnecting \<longrightarrow> received i = []"
  shows "faces c' = fold heard (received i) (faces c)"
proof (cases "n_state c' = kConnected")
  case True
  then show ?thesis using listens_step [OF assms(1,3,5), of ulong] assms(4) by (simp add: listens_def)
next
  case False
  then have "n_state c' = kConnecting" using assms(6) by (cases "n_state c'") simp_all
  moreover from False have "n_state c \<noteq> kConnected" using assms(7) by blast
  ultimately show ?thesis
    using not_connected_faces [OF assms(1)] not_connected_faces [OF assms(2)] False assms(8) by simp
qed

text \<open>A client that becomes connected says hello.\<close>

lemma becomes_connected:
  assumes "events_ok kConnecting es" and "n_state s = kConnecting"
    and "n_state (fold (\<lambda>e s. pump_event (callbacks W) e (enet HostService s)) es s) = kConnected"
  shows "\<exists>pre post. es = pre @ CliConnect # post \<and> (\<forall>e \<in> set pre. e = CliNone)"
  using assms
proof (induction es arbitrary: s)
  case (Cons e es)
  have n: "n_state (enet HostService s) = n_state s" by (rule essence_state) simp
  show ?case
  proof (cases e)
    case CliConnect
    then show ?thesis by (intro exI [of _ "[]"] exI [of _ es]) simp
  next
    case CliNone
    then have "\<exists>pre post. es = pre @ CliConnect # post \<and> (\<forall>e \<in> set pre. e = CliNone)"
      using Cons.prems n by (intro Cons.IH [of "enet HostService s"]) (simp_all add: pump_event_def)
    then obtain pre post where "es = pre @ CliConnect # post" "\<forall>e \<in> set pre. e = CliNone" by blast
    then show ?thesis using CliNone by (intro exI [of _ "e # pre"] exI [of _ post]) simp
  next
    case CliDisconnect
    have "listens (payloads es) (pump_event (callbacks W) e (enet HostService s))
        (fold (\<lambda>e s. pump_event (callbacks W) e (enet HostService s)) es (pump_event (callbacks W) e (enet HostService s)))"
      using Cons.prems CliDisconnect by (intro listens_events) (simp add: pump_event_def on_disconnected_state Let_def)
    then show ?thesis
      using Cons.prems CliDisconnect by (simp add: listens_def pump_event_def on_disconnected_state Let_def)
  qed (use Cons.prems in simp)
qed simp

lemma hello_sent:
  assumes c: "session_ok c" "client_admits c (W, i)" and nw: "\<not> s_welcomed c" "\<not> list_ex is_welcome (received i)"
    and c': "c' = client_run ulong (W, i) c" and n: "n_state c = kConnecting" "n_state c' = kConnected"
  shows "sent True c c' \<noteq> []"
proof -
  obtain es where i: "i = InTick es"
  proof (rule ccontr)
    assume no: "\<not> thesis"
    have "calm c c'"
    proof (cases i)
      case (InConsole line)
      then show ?thesis
        using calm_command [of c W] calm_essence [of c c]
        by (simp add: c' client_run_def client_step_def Console_ExecuteCommand_def Execute_def case_prod_beta Let_def)
    next
      case (InSexAnswer b)
      have "essence (SexChoiceCallback b c) = essence c" by (simp add: SexChoiceCallback_def)
      from calm_essence [OF this] show ?thesis by (simp add: c' client_run_def client_step_def InSexAnswer)
    qed (use no that in \<open>simp_all add: c' client_run_def client_step_def calm_game calm_essence\<close>)
    then show False using n by (simp add: calm_def)
  qed
  let ?f = "fold (\<lambda>e s. pump_event (callbacks W) e (enet HostService s))"
  have h: "n_host c" "n_peer c \<noteq> None" using c(1) n(1) by (simp_all add: session_ok_def)
  have ev: "events_ok kConnecting es" using c(2) h n by (simp add: client_admits_def i)
  have "n_state (pump_loop (callbacks W) es c) = kConnected"
  proof (rule ccontr)
    assume "n_state (pump_loop (callbacks W) es c) \<noteq> kConnected"
    then have "n_state (NetClient_Pump (callbacks W) es c) \<noteq> kConnected"
      using h by (auto simp: NetClient_Pump_def NetClient_Fail_def on_disconnected_state e_now_def Let_def)
    then show False
      using n(2) calm_Tick_rest [of "NetClient_Pump (callbacks W) es c" W]
      by (simp add: c' client_run_def client_step_def i Tick_def calm_def Let_def)
  qed
  moreover have "n_state (pump_loop (callbacks W) es c) = n_state (?f es c)"
    unfolding pump_loop_def by (rule essence_state) simp
  ultimately obtain pre post where p: "es = pre @ CliConnect # post" "\<forall>e \<in> set pre. e = CliNone"
    using becomes_connected [OF ev n(1)] by metis
  have pre: "essence (?f pre c) = essence c"
    using p(2) by (induction pre arbitrary: c) (simp_all add: pump_event_def)
  obtain t where t: "t = enet HostService (?f pre c)" by blast
  have et: "essence t = essence c" by (simp add: t pre)
  obtain u where u: "u = pump_event (callbacks W) CliConnect t" by blast
  obtain q where q: "n_peer c = Some q" using h by blast
  then have "n_peer t = Some q" using et by (simp add: essence_def)
  then obtain bytes where b: "e_calls u = e_calls t @ [Enet (PeerSend q 0 True bytes)]"
    by (simp add: u pump_event_def callbacks_def on_connected_def NetClient_Send_def enet_def do_call_def
        channel_number_def Let_def)
  have quiet: "list_all no_welcome_event es"
    using nw(2) no_welcome_received [of W i] by (simp add: no_welcome_def i)
  have ct: "shy c t"
    unfolding t by (rule shy_trans [OF shy_events shy_enet]) (use quiet p(1) in simp_all)
  have "u = on_connected W (t\<lparr>n_state := kConnected\<rparr>)" by (simp add: u pump_event_def callbacks_def)
  then have "shy t u"
    using shy_trans [OF shy_same shy_hello, of "t\<lparr>n_state := kConnected\<rparr>" t W] by simp
  then have nu: "\<not> s_welcomed u" using ct nw(1) by (auto simp: shy_def)
  have "?f es c = ?f post u" by (simp add: p(1) t u)
  then have "shy u (pump_loop (callbacks W) es c)"
    using shy_trans [OF shy_events [of post u W] shy_enet] quiet p(1) by (simp add: pump_loop_def)
  then have "shy u (Tick W es c)"
    using shy_Tick_after [OF shy_Pump_after nu] h by blast
  then obtain cs ds where "e_calls c' = e_calls c @ cs @ [Enet (PeerSend q 0 True bytes)] @ ds"
    using ct b by (auto simp: shy_def c' client_run_def client_step_def i)
  then show ?thesis by (simp add: sent_def)
qed

lemma frame_dialled_ok:
  assumes d: "dialled_ok N" and c: "session_ok (net_client N)" "session_ok c'" "client_admits (net_client N) (W, i)"
    "c' = client_run ulong (W, i) (net_client N)" "n_state c' \<noteq> kDisconnected"
    "n_state (net_client N) = kConnected \<longrightarrow> n_state c' = kConnected" "n_state c' = kConnecting \<longrightarrow> received i = []"
    and h: "hands_over (net_down_loose N) (net_down N) (received i) q"
  shows "dialled_ok (N\<lparr>net_client := c', net_up := net_up N @ sent True (net_client N) c',
     net_up_loose := net_up_loose N @ sent False (net_client N) c', net_down := q\<rparr>)"
proof -
  have r: "received i = []" "q = []" using d handed_over_set [OF h] by (auto simp: dialled_ok_def)
  have w: "\<not> s_welcomed (net_client N)" "\<not> list_ex is_welcome (received i)" using d r by (simp_all add: dialled_ok_def)
  have "faces c' = roster_start"
    using frame_faces [OF c(1,2,3,4) _ c(5,6,7)] d r by (simp add: dialled_ok_def)
  moreover have "net_up N @ sent True (net_client N) c' \<noteq> []" if "n_state c' = kConnected"
    using hello_sent [OF c(1,3) w c(4) _ that] d by (cases "n_state (net_client N)") (auto simp: dialled_ok_def)
  ultimately show ?thesis
    using d r c(5) unwelcomed_step [OF w c(4)] by (simp add: dialled_ok_def)
qed

lemma frame_linked_ok:
  assumes d: "linked_ok k N" and c: "session_ok (net_client N)" "session_ok c'" "client_admits (net_client N) (W, i)"
    "c' = client_run ulong (W, i) (net_client N)" "n_state c' \<noteq> kDisconnected"
    "n_state (net_client N) = kConnected \<longrightarrow> n_state c' = kConnected" "n_state c' = kConnecting \<longrightarrow> received i = []"
    and h: "hands_over (net_down_loose N) (net_down N) (received i) q"
  shows "linked_ok k (N\<lparr>net_client := c', net_up := net_up N @ sent True (net_client N) c',
     net_up_loose := net_up_loose N @ sent False (net_client N) c', net_down := q\<rparr>)"
proof -
  obtain b pre got hs where x: "n_state (net_client N) \<noteq> kDisconnected" "list_all loose_update (net_down_loose N)"
    "hsk k (net_server N) = Some b" "inbox k (out (net_server N)) = pre @ got @ net_down N"
    "conn_ok b (got @ net_down N)" "filter (\<lambda>b. \<not> is_update b) hs = filter (\<lambda>b. \<not> is_update b) got"
    "faces (net_client N) = fold heard hs roster_start" "s_welcomed (net_client N) \<longrightarrow> list_ex is_welcome got"
    "\<not> b \<longrightarrow> hello_under_way N"
    using d by (rule linked_okE)
  obtain taken where t: "net_down N = taken @ q" "filter (\<lambda>b. \<not> is_update b) (received i) = filter (\<lambda>b. \<not> is_update b) taken"
    using handed_over [OF h x(2)] by blast
  have w: "list_ex is_welcome (received i) = list_ex is_welcome taken" by (rule same_welcomes [OF t(2)])
  have "faces c' = fold heard (hs @ received i) roster_start"
    using frame_faces [OF c(1,2,3,4) x(1) c(5,6,7)] x(7) by simp
  moreover have "s_welcomed c' \<longrightarrow> list_ex is_welcome (got @ taken)"
    using unwelcomed_step(1) [OF _ _ c(4)] w x(8) by auto
  moreover have "hello_under_way (N\<lparr>net_client := c', net_up := net_up N @ sent True (net_client N) c',
      net_up_loose := net_up_loose N @ sent False (net_client N) c', net_down := q\<rparr>)" if b: "\<not> b"
  proof -
    have "\<not> list_ex is_welcome (got @ net_down N)" using b conn_ok_welcome [OF x(5)] by simp
    then have nw: "\<not> s_welcomed (net_client N)" "\<not> list_ex is_welcome (received i)" using x(8) w by (auto simp: t(1))
    have u: "hello_under_way N" using x(9) b by simp
    have "net_up N @ sent True (net_client N) c' \<noteq> []" if "n_state c' = kConnected"
      using hello_sent [OF c(1,3) nw c(4) _ that] u x(1)
      by (cases "n_state (net_client N)") (auto simp: hello_under_way_def)
    then show ?thesis using unwelcomed_step(2,3) [OF nw c(4)] u by (simp add: hello_under_way_def)
  qed
  ultimately show ?thesis
    using x t c(5) by (intro linked_okI [where h = b and pre = pre and got = "got @ taken" and hs = "hs @ received i"]) simp_all
qed

section \<open>Every step\<close>

lemma linked_ok_up:
  "linked_ok k N \<Longrightarrow> hsk k (net_server N) = Some True \<Longrightarrow> linked_ok k (N\<lparr>net_up := q\<rparr>)"
  by (erule linked_okE) (rule linked_okI, (assumption | simp)+)

text \<open>Once hands are shaken they stay shaken, and a hello the server accepts shakes them.\<close>

lemma serves_shaken:
  assumes "serves k s t" and "hsk k s = Some True"
  shows "hsk k t = Some True"
proof -
  have "is_welcome (welcome_bytes 0 Config_default)" by (simp add: is_welcome_def message_ids bodies)
  then have "conn_ok True [welcome_bytes 0 Config_default]" by (simp add: conn_ok_def) (metis append_Nil list.pred_inject(1) list_ex_iff empty_iff empty_set)
  then obtain h' new where "hsk k t = Some h'" "conn_ok h' ([welcome_bytes 0 Config_default] @ new)"
    using assms unfolding serves_def by blast
  then show ?thesis
    using conn_ok_mono [OF \<open>conn_ok True [welcome_bytes 0 Config_default]\<close>] by auto
qed

lemma hello_shakes:
  fixes s :: Server
  assumes "good s" and "hsk k s = Some False" and "valid_hello b"
  shows "hsk k (server_event t (EvReceive k b) s) = Some True"
proof -
  let ?s = "emit (ENetHostService t) s"
  have g: "good ?s" using assms(1) by (rule good_service_call)
  obtain p where p: "map_of (players s) k = Some p" "\<not> p_handshaked p" using assms(2) by (auto simp: hsk_def)
  then have ps: "map_of (players ?s) k = Some p" by (simp add: emit_emits)
  have k: "p_peer p = k" using good_player [OF assms(1) p(1)] by simp
  obtain i c r m d r' where x: "run_state ReadHeader (Reader_new b) = ((i, c), r)"
    "run_state HelloMsg_Read r = ((m, d), r')" "message_id b = (if c then Some i else None)"
    "body HelloMsg_Read b = (if c \<and> d then Some m else None)"
    by (rule packet_split [of b HelloMsg_Read])
  have a: "HandlePacket k b ?s = Hello_accepted p m ?s"
    using assms(3) p(2) by (simp add: HandlePacket_def FindPlayer_def ps HandleHello_cases x valid_hello_def split: if_splits)
  have "hsk k (Hello_accepted p m ?s) = Some True"
    using Hello_accepted_tells [OF g ps refl refl, of k m] k
    by (simp add: tells_def hsk_def put_player_def update_conv' newcomer_def)
  then show ?thesis
    by (simp add: server_event_def handle_event_def a hsk_def) (simp add: emit_def)
qed

lemma accepted_ok:
  assumes N: "net_ok N" "net_link N = Dialled" and k: "map_of (players (net_server N)) k = None" and "ids_left (net_server N)"
  shows "net_ok ((server_moves (server_event t (EvConnect k) (net_server N)) N)\<lparr>net_link := Linked k\<rparr>)"
proof -
  let ?s = "net_server N" and ?s' = "server_event t (EvConnect k) (net_server N)"
  have g: "good ?s'" using N assms(4) by (simp add: net_ok_def server_event_good)
  have h: "hsk k ?s' = Some False"
    using k by (simp add: server_event_def handle_event_def HandleConnect_def now_def emit_def hsk_def put_player_def
        update_conv' Player_new_def Let_def)
  have o: "inbox k (out ?s') = inbox k (out ?s)"
    using k by (simp add: server_event_def handle_event_def HandleConnect_def now_def emit_def put_player_def
        inbox_Cons Let_def)
  let ?M = "(server_moves ?s' N)\<lparr>net_link := Linked k\<rparr>"
  have f: "net_server ?M = ?s'" "net_client ?M = net_client N" "net_link ?M = Linked k" "net_up ?M = net_up N"
    "net_up_loose ?M = net_up_loose N" "net_down ?M = net_down N" "net_down_loose ?M = net_down_loose N"
    by (simp_all add: server_moves_def N(2))
  have d: "dialled_ok N" using N by (simp add: net_ok_def)
  have "linked_ok k ?M"
    using d h o
    by (intro linked_okI [where h = False and pre = "inbox k (out ?s)" and got = "[]" and hs = "[]"])
      (simp_all add: f dialled_ok_def hello_under_way_def conn_ok_def)
  then show ?thesis using N(1) g by (simp add: net_ok_def f)
qed

lemma client_step_ok:
  "net_ok N \<Longrightarrow> c' = client_run ulong (W, i) (net_client N) \<Longrightarrow> client_admits (net_client N) (W, i) \<Longrightarrow> session_ok c'"
  by (simp add: net_ok_def session_ok_step)

lemma net_ok_step:
  assumes "net_step ulong cosf sinf N N'" and "net_ok N"
  shows "net_ok N'"
  using assms
proof (induction rule: net_step.induct)
  case (accepted N k t)
  then show ?case by (intro accepted_ok)
next
  case (delivered N k b q t)
  let ?s' = "server_event t (EvReceive k b) (net_server N)"
  have m: "net_ok (server_moves ?s' N)"
    using delivered by (intro server_moves_ok) (simp_all add: net_ok_def server_event_good server_event_serves)
  have l: "linked_ok k N" and g: "good (net_server N)" using delivered by (simp_all add: net_ok_def)
  have "hsk k ?s' = Some True"
  proof (cases "hsk k (net_server N) = Some True")
    case True
    show ?thesis by (rule serves_shaken [OF server_event_serves [OF g] True]) simp
  next
    case False
    then have f: "hsk k (net_server N) = Some False" "hello_under_way N" using l by (auto elim!: linked_okE)
    have "valid_hello b"
      using f(2) handed_over_set [OF delivered(2)] by (auto simp: hello_under_way_def list_all_iff)
    from hello_shakes [OF g f(1) this] show ?thesis .
  qed
  then have "hsk k (net_server (server_moves ?s' N)) = Some True" by (simp add: server_moves_def delivered(1))
  moreover have "linked_ok k (server_moves ?s' N)" using m delivered(1) by (simp add: net_ok_def server_moves_def)
  ultimately have "linked_ok k ((server_moves ?s' N)\<lparr>net_up := q\<rparr>)" by (intro linked_ok_up)
  then show ?case using m delivered(1) by (simp add: net_ok_def server_moves_def)
next
  case (lost N k t)
  have "good (server_event t (EvDisconnect k) (net_server N))"
    using lost(2) good_service_call [of "net_server N" t]
    by (simp add: server_event_def handle_event_def good_HandleDisconnect net_ok_def)
  then show ?case using lost by (simp add: net_ok_def)
next
  case (others N e t)
  show ?case
  proof (rule server_moves_ok [OF others(3)])
    show "good (server_event t e (net_server N))" using others by (simp add: net_ok_def server_event_good)
    show "serves k (net_server N) (server_event t e (net_server N))" if "net_link N = Linked k" for k
      using others that by (intro server_event_serves) (auto simp: net_ok_def about_def)
  qed
next
  case (rest i N)
  then show ?case
    using server_rest_ok [of "net_server N" i] by (intro server_moves_ok) (simp_all add: net_ok_def)
next
  case (frame c' W i N q)
  have s: "session_ok c'" using client_step_ok [OF frame(8,1,2)] .
  have c: "session_ok (net_client N)" using frame(8) by (simp add: net_ok_def)
  show ?case
  proof (cases "net_link N")
    case Dialled
    then have d: "dialled_ok N" using frame(8) by (simp add: net_ok_def)
    show ?thesis using frame_dialled_ok [OF d c s frame(2,1,4,5,6,7)] Dialled s frame(8) by (simp add: net_ok_def)
  next
    case (Linked k)
    then have d: "linked_ok k N" using frame(8) by (simp add: net_ok_def)
    show ?thesis using frame_linked_ok [OF d c s frame(2,1,4,5,6,7)] Linked s frame(8) by (simp add: net_ok_def)
  qed (use frame(3) in simp)
next
  case (dialled c' W i N)
  have s: "session_ok c'" using client_step_ok [OF dialled(4,1,2)] .
  then show ?case using dialled(3,4) not_connected_faces [OF s] by (simp add: net_ok_def dialled_ok_def)
next
  case (hung_up c' W i N)
  then show ?case using client_step_ok [OF hung_up(4,1,2)] by (simp add: net_ok_def)
qed

lemma reachable_ok: "reachable ulong cosf sinf N \<Longrightarrow> net_ok N"
proof (induction rule: reachable.induct)
  case (initial cfg clk W initialized clk' path text1)
  then show ?case by (simp add: net_ok_def net_start_def good_started session_ok_load)
next
  case (further N N')
  then show ?case by (blast intro: net_ok_step)
qed

section \<open>The two ends agree\<close>

lemma filter_append_split: "filter P xs = ys @ zs \<Longrightarrow> \<exists>us vs. xs = us @ vs \<and> filter P us = ys \<and> filter P vs = zs"
proof (induction xs arbitrary: ys)
  case (Cons x xs)
  show ?case
  proof (cases "P x \<and> ys \<noteq> []")
    case True
    then obtain ys' where ys: "ys = x # ys'" using Cons.prems by (cases ys) auto
    then obtain us vs where "xs = us @ vs" "filter P us = ys'" "filter P vs = zs" using Cons True by fastforce
    then show ?thesis using True ys by (intro exI [of _ "x # us"] exI [of _ vs]) simp
  next
    case False
    show ?thesis
    proof (cases "P x")
      case True
      then show ?thesis using False Cons.prems by (intro exI [of _ "[]"] exI [of _ "x # xs"]) auto
    next
      case False
      then obtain us vs where "xs = us @ vs" "filter P us = ys" "filter P vs = zs" using Cons by fastforce
      then show ?thesis using False by (intro exI [of _ "x # us"] exI [of _ vs]) simp
    qed
  qed
qed simp

lemma rejected_faces:
  assumes "list_all (\<lambda>b. is_reject b \<or> is_update b) hs" and "only_placeholders c"
  shows "only_placeholders (fold heard hs c)"
  using assms
proof (induction hs arbitrary: c)
  case (Cons b hs)
  have "heard b c = c" if "is_reject b"
    using that by (simp add: heard_def is_reject_def roster_step_def server_msg_ids)
  then have "only_placeholders (heard b c)" using Cons.prems by (auto intro: only_placeholders_update)
  then have "only_placeholders (fold heard hs (heard b c))" using Cons.prems by (intro Cons.IH) simp_all
  then show ?case by simp
qed simp

lemma since_connect_agree:
  assumes "conn_ok True got" and "filter (\<lambda>b. \<not> is_update b) hs = filter (\<lambda>b. \<not> is_update b) got"
  shows "shows_roster (fold heard hs roster_start) (fold roster_step (pre @ got) v)"
proof -
  obtain rs w rest where g: "got = rs @ w # rest" "list_all is_reject rs" "is_welcome w" "\<not> list_ex is_welcome rest"
    using assms(1) by (auto simp: conn_ok_def)
  obtain us vs where h: "hs = us @ vs" "filter (\<lambda>b. \<not> is_update b) us = filter (\<lambda>b. \<not> is_update b) rs"
    "filter (\<lambda>b. \<not> is_update b) vs = filter (\<lambda>b. \<not> is_update b) (w # rest)"
    using filter_append_split [of "\<lambda>b. \<not> is_update b" hs] assms(2) unfolding g(1) filter_append by blast
  have "set (filter (\<lambda>b. \<not> is_update b) us) \<subseteq> set rs" by (simp add: h(2))
  then have "list_all (\<lambda>b. is_reject b \<or> is_update b) us" using g(2) by (auto simp: list_all_iff)
  then have "only_placeholders (fold heard us roster_start)"
    by (rule rejected_faces) (simp add: only_placeholders_def roster_start_def)
  moreover have "since_welcome (w # rest) = w # rest" "list_ex is_welcome (w # rest)" using g(3,4) by simp_all
  ultimately show ?thesis
    using welcomed_agree [of "w # rest" "fold heard us roster_start" vs "fold roster_step (pre @ rs) v"] h(3)
    by (simp add: h(1) g(1))
qed

text \<open>What agreement of a client with the server means: it is connected and welcomed, knows its own id, shows
  every other participant under the server's name, and anyone else at most as a placeholder.\<close>

definition agrees :: "Player \<Rightarrow> Server \<Rightarrow> Session \<Rightarrow> bool" where
  "agrees p s c =
     (n_state c = kConnected \<and> s_welcomed c \<and> s_myId c = p_id p \<and>
      (\<forall>i n. participant s i n \<and> i \<noteq> p_id p \<longrightarrow> (\<exists>q. map_of (r_players c) i = Some q \<and> rp_name q = n)) \<and>
      (\<forall>i. (\<nexists>n. participant s i n \<and> i \<noteq> p_id p) \<longrightarrow> NameOf i c = CHR ''#'' # to_string (unat i)))"

lemma settled_agrees:
  assumes "net_ok N" and "net_link N = Linked k"
    and "map_of (players (net_server N)) k = Some p" and "p_handshaked p" and "net_down N = []"
  shows "agrees p (net_server N) (net_client N)"
proof -
  let ?c = "net_client N"
  have g: "good (net_server N)" and s: "session_ok ?c" and "linked_ok k N"
    using assms(1,2) by (simp_all add: net_ok_def)
  then obtain h pre got hs where x: "hsk k (net_server N) = Some h" "inbox k (out (net_server N)) = pre @ got"
    "conn_ok h got" "filter (\<lambda>b. \<not> is_update b) hs = filter (\<lambda>b. \<not> is_update b) got"
    "faces ?c = fold heard hs roster_start"
    unfolding linked_ok_def assms(5) append_Nil2 by blast
  have "h" using x(1) assms(3,4) by (simp add: hsk_def)
  then have sh: "shows_roster (faces ?c) (view k (out (net_server N)))"
    using since_connect_agree [of got hs pre roster_start] x by (simp add: view_def)
  note a = roster_agrees [OF g assms(3,4) sh]
  have "s_welcomed ?c" using a player_id_valid [OF g assms(3,4)] s by (auto simp: session_ok_def)
  then show ?thesis using a s by (auto simp: agrees_def session_ok_def)
qed

end
