(* ===== verification/F4_NetworkLive.thy ===== *)
theory F4_NetworkLive
  imports F4_Network
begin

text \<open>
  What the network of a server and a client comes to: the two ends agree whenever nothing is
  under way, a handshake that has begun is completed, and from every reachable state a
  connection can be completed and the client catches up in one frame.
\<close>

section \<open>One frame\<close>

text \<open>A frame in which ENet reports the connection, if it has not before, and then some packets.\<close>

definition catch_up :: "Session \<Rightarrow> u8 list list \<Rightarrow> client_input" where
  "catch_up c bs = InTick ((if n_state c = kConnecting then [CliConnect] else []) @ map CliReceive bs)"

lemma receives_ok: "events_ok kConnected (map CliReceive bs)"
  by (induction bs) simp_all

lemma received_catch_up [simp]: "received (catch_up c bs) = bs"
proof -
  have "payloads (map CliReceive bs) = bs" by (induction bs) simp_all
  then show ?thesis by (simp add: received_def catch_up_def)
qed

lemma receives_state:
  "n_state s = kConnected \<Longrightarrow>
   n_state (fold (\<lambda>e s. pump_event (callbacks W) e (enet HostService s)) (map CliReceive bs) s) = kConnected"
proof (induction bs arbitrary: s)
  case (Cons b bs)
  let ?t = "enet HostService s"
  have "n_state ?t = kConnected" using Cons.prems essence_state [OF essence_enet, of HostService s] by simp
  moreover have "n_state (enet PacketDestroy (Session_HandlePacket W b ?t)) = n_state (Session_HandlePacket W b ?t)"
    by (rule essence_state) simp
  ultimately show ?case
    using Cons.IH by (simp add: pump_event_def callbacks_def state_HandlePacket)
qed simp

lemma Tick_state:
  assumes "n_host s" and "n_state (pump_loop (callbacks W) es s) = kConnected"
  shows "n_state (Tick W es s) = kConnected"
proof -
  obtain u where u: "u = NetClient_Pump (callbacks W) es s" by blast
  have nu: "n_state u = kConnected" using assms by (simp add: u NetClient_Pump_def)
  have "essence (Skip_Update W u) = essence u" by simp
  from essence_state [OF this] nu have "n_state (Skip_Update W u) = kConnected" by simp
  then have r: "auto_reconnect W (Skip_Update W u) = Skip_Update W u" "n_state (Skip_Update W u) = kConnected"
    by (simp_all add: auto_reconnect_def)
  have "n_state (RemotePlayers_Update W (SyncName W (SendState W False v))) = kConnected" if "n_state v = kConnected" for v
  proof -
    have "essence (SyncName W (SendState W False v)) = essence v" by simp
    from essence_state [OF this] that have "n_state (SyncName W (SendState W False v)) = kConnected" by simp
    moreover have "n_state (RemotePlayers_Update W t) = n_state t" for t :: Session
      using place_step_Update [of t W] by (simp add: place_step_def table_step_def link_of_def)
    ultimately show ?thesis by simp
  qed
  then show ?thesis using nu r by (simp add: Tick_def u [symmetric] Let_def)
qed

lemma catch_up_frame:
  assumes "session_ok c" and "n_state c \<noteq> kDisconnected"
  shows "client_admits c (W, catch_up c bs)" "n_state (client_run ulong (W, catch_up c bs) c) = kConnected"
proof -
  have h: "n_host c" using assms by (simp add: session_ok_def)
  have s: "n_state c = kConnected \<or> n_state c = kConnecting" using assms(2) by (cases "n_state c") simp_all
  then show "client_admits c (W, catch_up c bs)" by (auto simp: client_admits_def catch_up_def receives_ok)
  let ?es = "(if n_state c = kConnecting then [CliConnect] else []) @ map CliReceive bs"
  have e: "n_state (enet HostService t) = n_state t" for t :: Session by (rule essence_state) simp
  have "n_state (pump_event (callbacks W) CliConnect (enet HostService c)) = kConnected"
    using essence_state [OF essence_on_connected, of W "(enet HostService c)\<lparr>n_state := kConnected\<rparr>"]
    by (simp add: pump_event_def callbacks_def)
  then have "n_state (pump_loop (callbacks W) ?es c) = kConnected"
    using s by (auto simp: pump_loop_def e receives_state)
  from Tick_state [OF h this] show "n_state (client_run ulong (W, catch_up c bs) c) = kConnected"
    by (simp add: client_run_def client_step_def catch_up_def)
qed

lemma hands_over_all: "hands_over loose q q []"
  by (induction q) (auto intro: hands_over.intros)

text \<open>The state of the network after it.\<close>

definition caught_up :: "World \<Rightarrow> nat \<Rightarrow> Net \<Rightarrow> Net" where
  "caught_up W ulong N =
     (let c = net_client N; c' = client_run ulong (W, catch_up c (net_down N)) c
      in N\<lparr>net_client := c', net_up := net_up N @ sent True c c', net_up_loose := net_up_loose N @ sent False c c', net_down := []\<rparr>)"

lemma caught_up_fields [simp]:
  "net_server (caught_up W ulong N) = net_server N" "net_link (caught_up W ulong N) = net_link N"
  "net_down (caught_up W ulong N) = []"
  "net_client (caught_up W ulong N) = client_run ulong (W, catch_up (net_client N) (net_down N)) (net_client N)"
  by (simp_all add: caught_up_def Let_def)

lemma linked_net:
  assumes "net_ok N" and "net_link N \<noteq> Closed"
  shows "session_ok (net_client N)" "n_state (net_client N) \<noteq> kDisconnected"
  using assms by (auto simp: net_ok_def dialled_ok_def elim: linked_okE split: connection.splits)

lemma caught_up_step:
  assumes "net_ok N" and "net_link N \<noteq> Closed"
  shows "net_step ulong cosf sinf N (caught_up W ulong N)"
proof -
  note c = linked_net [OF assms]
  note f = catch_up_frame [OF c]
  show ?thesis
    unfolding caught_up_def Let_def
    by (rule net_step.frame [OF refl]) (simp_all add: f assms(2) hands_over_all)
qed

lemma caught_up_agrees:
  assumes "net_ok N" and "net_link N = Linked k" and "map_of (players (net_server N)) k = Some p" and "p_handshaked p"
  shows "agrees p (net_server N) (client_run ulong (W, catch_up (net_client N) (net_down N)) (net_client N))"
proof -
  have "net_ok (caught_up W ulong N)"
    by (rule net_ok_step [OF caught_up_step [where ulong = ulong and cosf = id and sinf = id]]) (simp_all add: assms(1,2))
  from settled_agrees [OF this, of k p] assms(2-4) show ?thesis by simp
qed

section \<open>A connection can be completed\<close>

text \<open>The server's answer to a client that has dialled, as its peer \<open>k\<close>, and the next packet handed to a server
  that has not shaken hands with it.\<close>

definition server_answers :: "peer \<Rightarrow> Net \<Rightarrow> Net" where
  "server_answers k N =
     (if net_link N = Dialled
      then (server_moves (server_event 0 (EvConnect k) (net_server N)) N)\<lparr>net_link := Linked k\<rparr> else N)"

definition server_hears :: "peer \<Rightarrow> Net \<Rightarrow> Net" where
  "server_hears k N =
     (if hsk k (net_server N) = Some True then N
      else (server_moves (server_event 0 (EvReceive k (hd (net_up N))) (net_server N)) N)\<lparr>net_up := tl (net_up N)\<rparr>)"

text \<open>The client may become, or is, the server's peer \<open>k\<close>.\<close>

definition answerable :: "peer \<Rightarrow> Net \<Rightarrow> bool" where
  "answerable k N =
     (case net_link N of Closed \<Rightarrow> False | Dialled \<Rightarrow> map_of (players (net_server N)) k = None | Linked j \<Rightarrow> j = k)"

lemma answers_step:
  assumes "answerable k N" and "ids_left (net_server N)"
  shows "(net_step ulong cosf sinf)\<^sup>=\<^sup>= N (server_answers k N)" "net_link (server_answers k N) = Linked k"
    "ids_left (net_server (server_answers k N))"
proof -
  let ?N = "(server_moves (server_event 0 (EvConnect k) (net_server N)) N)\<lparr>net_link := Linked k\<rparr>"
  have a: "net_step ulong cosf sinf N ?N" if "net_link N = Dialled"
    by (rule net_step.accepted [OF that _ assms(2)]) (use assms(1) that in \<open>simp add: answerable_def\<close>)
  have n: "nextId (net_server ?N) = nextId (net_server N)" if "net_link N = Dialled"
    using assms(1) that by (simp add: answerable_def server_moves_def server_event_def handle_event_def HandleConnect_def
        now_def emit_def put_player_def Let_def)
  show "(net_step ulong cosf sinf)\<^sup>=\<^sup>= N (server_answers k N)" using a by (auto simp: server_answers_def)
  show "net_link (server_answers k N) = Linked k"
    using assms(1) by (auto simp: server_answers_def answerable_def split: connection.splits)
  show "ids_left (net_server (server_answers k N))" using n assms(2) by (auto simp: server_answers_def ids_left_def)
qed

lemma hears_step:
  assumes "net_ok N" and "net_link N = Linked k" and "hsk k (net_server N) = Some False"
    and "n_state (net_client N) = kConnected" and "ids_left (net_server N)"
  shows "net_step ulong cosf sinf N (server_hears k N)" "net_link (server_hears k N) = Linked k"
    "hsk k (net_server (server_hears k N)) = Some True" "id_step (net_server N) (net_server (server_hears k N))"
proof -
  have l: "linked_ok k N" and g: "good (net_server N)" using assms(1,2) by (simp_all add: net_ok_def)
  then have u: "hello_under_way N" using assms(3) by (auto elim!: linked_okE)
  then obtain b q where q: "net_up N = b # q" using assms(4) by (cases "net_up N") (auto simp: hello_under_way_def)
  then have b: "valid_hello b" using u by (simp add: hello_under_way_def)
  have h: "hands_over (net_up_loose N) (net_up N) [b] q" unfolding q by (intro hands_over.intros)
  have e: "server_hears k N = (server_moves (server_event 0 (EvReceive k b) (net_server N)) N)\<lparr>net_up := q\<rparr>"
    by (simp add: server_hears_def assms(3) q)
  show "net_step ulong cosf sinf N (server_hears k N)" unfolding e by (rule net_step.delivered [OF assms(2) h assms(5)])
  show "net_link (server_hears k N) = Linked k" "hsk k (net_server (server_hears k N)) = Some True"
    "id_step (net_server N) (net_server (server_hears k N))"
    using hello_shakes [OF g assms(3) b, of 0] nextId_handle_event [of "emit (ENetHostService 0) (net_server N)" "EvReceive k b"]
    by (simp_all add: e server_moves_def server_event_def assms(2) id_step_def)
qed

lemma deliver_step:
  assumes "net_ok N" and "net_link N = Linked k" and "hsk k (net_server N) = Some False"
    and "n_state (net_client N) = kConnected" and "ids_left (net_server N)"
  obtains N' where "net_step ulong cosf sinf N N'" "net_link N' = Linked k" "hsk k (net_server N') = Some True"
    "id_step (net_server N) (net_server N')"
  using hears_step [OF assms] by (rule that)

text \<open>What a client that is not yet shaken hands with has under way, and what becomes of it.\<close>

lemma hello_under_way_linked:
  "net_ok N \<Longrightarrow> net_link N = Linked k \<Longrightarrow> hsk k (net_server N) = Some False \<Longrightarrow>
   net_up_loose N = [] \<and> (n_state (net_client N) = kConnected \<longrightarrow> net_up N \<noteq> []) \<and> list_all valid_hello (net_up N)"
  by (auto simp: net_ok_def hello_under_way_def elim!: linked_okE)

lemma hello_accepted:
  assumes "net_ok N" and "net_link N = Linked k" and "hsk k (net_server N) = Some False" and "b \<in> set (net_up N)"
  shows "\<exists>q. map_of (players (server_event t (EvReceive k b) (net_server N))) k = Some q \<and> p_handshaked q"
    "list_ex is_welcome (net_down (server_moves (server_event t (EvReceive k b) (net_server N)) N))"
proof -
  let ?s' = "server_event t (EvReceive k b) (net_server N)"
  have g: "good (net_server N)" and l: "linked_ok k N" using assms(1,2) by (simp_all add: net_ok_def)
  have "valid_hello b" using hello_under_way_linked [OF assms(1-3)] assms(4) by (simp add: list_all_iff)
  then have h: "hsk k ?s' = Some True" using hello_shakes [OF g assms(3)] by blast
  then show "\<exists>q. map_of (players ?s') k = Some q \<and> p_handshaked q" by (auto simp: hsk_def)
  obtain conn where c: "conn_ok False (conn @ net_down N)" using l assms(3) by (auto elim!: linked_okE)
  have "serves k (net_server N) ?s'" using g by (simp add: server_event_serves)
  then obtain new where "inbox k (out ?s') = inbox k (out (net_server N)) @ new" "conn_ok True ((conn @ net_down N) @ new)"
    using assms(3) c h unfolding serves_def by fastforce
  then show "list_ex is_welcome (net_down (server_moves ?s' N))"
    using conn_ok_welcome [OF c] conn_ok_welcome [of True "(conn @ net_down N) @ new"]
    by (auto simp: server_moves_def assms(2))
qed

lemma linked_hsk: "net_ok N \<Longrightarrow> net_link N = Linked k \<Longrightarrow> \<exists>h. hsk k (net_server N) = Some h"
  by (auto simp: net_ok_def elim: linked_okE)

text \<open>A frame on a connection the server has answered.\<close>

lemma frame_step:
  assumes "net_ok N" and "net_link N = Linked k" and "M = caught_up W ulong N"
  shows "net_step ulong cosf sinf N M" "net_ok M" "net_link M = Linked k" "net_server M = net_server N"
    "n_state (net_client M) = kConnected" "net_down M = []"
proof -
  show s: "net_step ulong cosf sinf N M" for cosf sinf unfolding assms(3) by (rule caught_up_step) (simp_all add: assms(1,2))
  show "net_ok M" by (rule net_ok_step [OF s [of id id] assms(1)])
  show "net_link M = Linked k" "net_server M = net_server N" "net_down M = []" by (simp_all add: assms(2,3))
  show "n_state (net_client M) = kConnected"
    using catch_up_frame(2) [OF linked_net [OF assms(1)]] assms(2) by (simp add: assms(3))
qed

section \<open>A demonstration\<close>

text \<open>A save is loaded and the next frame dials: a network in which a connection is on its way.\<close>

definition demo_net :: Net where
  "demo_net = net_start Config_default (\<lambda>_. 0) demo_load"

definition demo_dialled :: Net where
  "demo_dialled = demo_net\<lparr>net_client := demo_connecting, net_link := Dialled\<rparr>"

lemma demo_dialled_reachable: "reachable 32 cosf sinf demo_dialled"
proof -
  let ?c = "client_run 32 (demo_world, InPostLoadGame) demo_load"
  let ?N = "demo_net\<lparr>net_client := ?c, net_link := Closed\<rparr>"
  have "reachable 32 cosf sinf demo_net"
    unfolding demo_net_def demo_load_def by (rule reachable.initial)
  moreover have "net_step 32 cosf sinf demo_net ?N"
    by (rule net_step.hung_up [where W = demo_world and i = InPostLoadGame])
      (simp_all add: demo_net_def net_start_def client_admits_def)
  ultimately have N: "reachable 32 cosf sinf ?N" by (rule reachable.further)
  have c: "demo_connecting = client_run 32 (demo_world, InTick []) ?c"
    by (simp add: demo_connecting_def demo_connected_def client_runs_def)
  have "net_step 32 cosf sinf ?N
      (?N\<lparr>net_client := demo_connecting, net_link := Dialled, net_up := [], net_up_loose := [],
         net_down := [], net_down_loose := []\<rparr>)"
    by (rule net_step.dialled [where W = demo_world and i = "InTick []"])
      (simp_all add: c [symmetric] demo_connecting_fields client_admits_def)
  also have "?N\<lparr>net_client := demo_connecting, net_link := Dialled, net_up := [], net_up_loose := [],
      net_down := [], net_down_loose := []\<rparr> = demo_dialled"
    by (simp add: demo_dialled_def demo_net_def net_start_def)
  finally show ?thesis using N by (blast intro: reachable.further)
qed

lemma demo_dialled_fields: "net_link demo_dialled = Dialled" "ids_left (net_server demo_dialled)"
  by (simp_all add: demo_dialled_def demo_net_def net_start_def started_def Start_def Server_new_def emit_def now_def ids_left_def
      INVALID_PLAYER_ID_def Let_def)

text \<open>The server accepts it: the client has not shaken hands.\<close>

definition demo_accepted :: Net where
  "demo_accepted = (server_moves (server_event 0 (EvConnect 4) (net_server demo_dialled)) demo_dialled)\<lparr>net_link := Linked 4\<rparr>"

lemma demo_accepted_reachable:
  "reachable 32 cosf sinf demo_accepted" "net_link demo_accepted = Linked 4"
  "map_of (players (net_server demo_accepted)) 4 = Some (Player_new 4)"
proof -
  have n: "map_of (players (net_server demo_dialled)) 4 = None" "clock (net_server demo_dialled) i = 0" for i
    by (simp_all add: demo_dialled_def demo_net_def net_start_def started_def Start_def Server_new_def emit_def now_def
        Let_def)
  show "reachable 32 cosf sinf demo_accepted"
    unfolding demo_accepted_def
    by (rule reachable.further [OF demo_dialled_reachable net_step.accepted]) (simp_all add: demo_dialled_fields n(1))
  show "net_link demo_accepted = Linked 4" by (simp add: demo_accepted_def)
  show "map_of (players (net_server demo_accepted)) 4 = Some (Player_new 4)"
    using n by (simp add: demo_accepted_def server_moves_def demo_dialled_fields server_event_def handle_event_def
        HandleConnect_def now_def emit_def put_player_def update_conv' Player_new_def Let_def)
qed

text \<open>After its next frame the hello is under way.\<close>

definition demo_saying_hello :: Net where
  "demo_saying_hello = caught_up demo_world 32 demo_accepted"

lemma demo_accepted_ok: "net_ok demo_accepted" "net_link demo_accepted \<noteq> Closed"
  using reachable_ok [OF demo_accepted_reachable(1) [of id id]] demo_accepted_reachable(2) by simp_all

lemma demo_saying_hello_reachable:
  "reachable 32 cosf sinf demo_saying_hello" "net_link demo_saying_hello = Linked 4"
  "map_of (players (net_server demo_saying_hello)) 4 = Some (Player_new 4)"
  "n_state (net_client demo_saying_hello) = kConnected" "nextId (net_server demo_saying_hello) = 1"
  "net_ok demo_saying_hello" "hsk 4 (net_server demo_saying_hello) = Some False"
proof -
  show r: "reachable 32 cosf sinf demo_saying_hello" for cosf sinf
    unfolding demo_saying_hello_def
    by (rule reachable.further [OF demo_accepted_reachable(1) caught_up_step [OF demo_accepted_ok]])
  show "net_link demo_saying_hello = Linked 4" by (simp add: demo_saying_hello_def demo_accepted_reachable)
  show "map_of (players (net_server demo_saying_hello)) 4 = Some (Player_new 4)"
    by (simp add: demo_saying_hello_def demo_accepted_reachable)
  then show "hsk 4 (net_server demo_saying_hello) = Some False" by (simp add: hsk_def Player_new_def)
  show "n_state (net_client demo_saying_hello) = kConnected"
    using catch_up_frame(2) [OF linked_net [OF demo_accepted_ok]] by (simp add: demo_saying_hello_def)
  show "nextId (net_server demo_saying_hello) = 1"
    by (simp add: demo_saying_hello_def demo_accepted_def demo_dialled_def demo_net_def net_start_def server_moves_def
        server_event_def handle_event_def HandleConnect_def put_player_def Player_new_def started_def Start_def
        Server_new_def emit_def now_def Let_def)
  show "net_ok demo_saying_hello" by (rule reachable_ok [OF r [of id id]])
qed

lemma demo_hello: "net_up_loose demo_saying_hello = []" "\<exists>b. b \<in> set (net_up demo_saying_hello)"
proof -
  note h = hello_under_way_linked [OF demo_saying_hello_reachable(6,2,7)]
  show "net_up_loose demo_saying_hello = []" using h by simp
  show "\<exists>b. b \<in> set (net_up demo_saying_hello)"
    using h demo_saying_hello_reachable(4) by (cases "net_up demo_saying_hello") auto
qed

section \<open>The two ends agree\<close>

text \<open>C1. The whole system agrees: in every state the server, the network and a client can reach, through any
  connects, refusals, losses, repetitions, commands and other players, once nothing reliable is under way to a
  client the server has shaken hands with, the client is connected and welcomed, knows its own id and shows every
  other participant under the server's name for it, and anyone else at most as a placeholder.\<close>

theorem network_agrees:
  assumes "reachable ulong cosf sinf N" and "net_link N = Linked k"
    and "map_of (players (net_server N)) k = Some p" and "p_handshaked p" and "net_down N = []"
    and "c = net_client N"
  shows "n_state c = kConnected \<and> s_welcomed c \<and> s_myId c = p_id p \<and>
    (\<forall>i n. participant (net_server N) i n \<and> i \<noteq> p_id p \<longrightarrow> (\<exists>q. map_of (r_players c) i = Some q \<and> rp_name q = n)) \<and>
    (\<forall>i. (\<nexists>n. participant (net_server N) i n \<and> i \<noteq> p_id p) \<longrightarrow> NameOf i c = CHR ''#'' # to_string (unat i))"
  using settled_agrees [OF reachable_ok [OF assms(1)] assms(2-5)] unfolding agrees_def assms(6) .

text \<open>The demonstration's client shakes hands, then a bot is added and the client catches up.\<close>

lemma demo_bot:
  "\<exists>N p i. reachable 32 id id N \<and> net_link N = Linked 4 \<and> map_of (players (net_server N)) 4 = Some p \<and> p_handshaked p \<and>
     net_down N = [] \<and> participant (net_server N) i ''Dogmeat'' \<and> i \<noteq> p_id p"
proof -
  let ?A = demo_saying_hello
  note d = demo_saying_hello_reachable
  have lA: "ids_left (net_server ?A)" by (simp add: ids_left_def d(5) INVALID_PLAYER_ID_def)
  obtain B where B: "net_step 32 id id ?A B" "net_link B = Linked 4" "hsk 4 (net_server B) = Some True"
    "id_step (net_server ?A) (net_server B)"
    by (rule deliver_step [OF d(6,2,7,4) lA])
  have lB: "ids_left (net_server B)"
    using B(4) by (simp add: ids_left_def id_step_def d(5) INVALID_PLAYER_ID_def word_less_nat_alt)
  have okB: "net_ok B" by (rule net_ok_step [OF B(1) d(6)])
  let ?i = "InCommand ''bot add orbit Dogmeat''"
  let ?t = "server_step 32 id id ?i (net_server B)"
  let ?C = "server_moves ?t B"
  have sC: "net_step 32 id id B ?C" by (rule net_step.rest [OF _ lB]) (simp add: eventless_def)
  have okC: "net_ok ?C" by (rule net_ok_step [OF sC okB])
  have C: "net_server ?C = ?t" "net_link ?C = Linked 4" by (simp_all add: server_moves_def B(2))
  note C' = C [unfolded server_step.simps]
  have gB: "good (net_server B)" using okB by (simp add: net_ok_def)
  have "hsk 4 ?t = Some True"
    by (rule serves_shaken [OF server_rest_ok(2) [OF gB lB] B(3)]) (simp add: eventless_def)
  then obtain p where p: "map_of (players ?t) 4 = Some p" "p_handshaked p" by (auto simp: hsk_def)
  have t: "?t = snd (AddBot kOrbit ''Dogmeat'' (net_server B))"
  proof -
    have "Split ''bot add orbit Dogmeat'' = [''bot'', ''add'', ''orbit'', ''Dogmeat'']" by code_simp
    moreover have "join_words [''Dogmeat''] = ''Dogmeat''" by code_simp
    ultimately show ?thesis by (simp add: ExecuteCommand_def ExecuteBot_def Let_def)
  qed
  have "SanitizeName ''Dogmeat'' = ''Dogmeat''" by code_simp
  then have "\<exists>b \<in> set (bots ?t). b_id b = nextId (net_server B) \<and> b_name b = ''Dogmeat''"
    unfolding t by (simp add: AddBot_def Broadcast_emits ServerChat_emits Let_def)
  then obtain b where b: "b \<in> set (bots ?t)" "b_name b = ''Dogmeat''" by blast
  have "srv_inv ?t" using okC unfolding net_ok_def C(1) good_def by blast
  from srv_invD(8) [OF this p b(1)] have ne: "b_id b \<noteq> p_id p" by simp
  let ?D = "caught_up demo_world 32 ?C"
  have sD: "net_step 32 id id ?C ?D" by (rule caught_up_step [OF okC]) (unfold C(2), simp)
  have "reachable 32 id id ?D"
    by (rule reachable.further [OF reachable.further [OF reachable.further [OF d(1) B(1)] sC] sD])
  moreover have "participant ?t (b_id b) ''Dogmeat''" using b by (auto simp: participant_def)
  ultimately show ?thesis using p ne by (intro exI [of _ ?D] exI [of _ p] exI [of _ "b_id b"]) (simp add: C')
qed

theorem network_agrees_witness:
  "\<exists>N i. reachable 32 id id N \<and> participant (net_server N) i ''Dogmeat'' \<and> NameOf i (net_client N) = ''Dogmeat''"
proof -
  obtain N p i where N: "reachable 32 id id N" "net_link N = Linked 4" "map_of (players (net_server N)) 4 = Some p"
    "p_handshaked p" "net_down N = []" and i: "participant (net_server N) i ''Dogmeat''" "i \<noteq> p_id p"
    using demo_bot by blast
  obtain q where "map_of (r_players (net_client N)) i = Some q" "rp_name q = ''Dogmeat''"
    using network_agrees [OF N refl] i by blast
  then have "NameOf i (net_client N) = ''Dogmeat''" by (simp add: NameOf_def RemotePlayers_Find_def)
  then show ?thesis using N(1) i(1) by blast
qed

text \<open>C5. A connection is completed in four steps: take any reachable state in which the client has dialled or is
  connected and the server has an id left. The server answers (as any peer it does not have yet), the client runs a
  frame in which ENet hands it what is under way, the server is handed the first packet under way to it, unless hands
  are shaken already, and the client runs another frame. Each of these is a step of the network, whatever the engine
  answers in the two frames, and after them hands are shaken and the client agrees with the server.\<close>

theorem connection_completes:
  assumes "reachable ulong cosf sinf N" and "answerable k N" and "ids_left (net_server N)"
    and "A = server_answers k N" and "B = caught_up W ulong A" and "C = server_hears k B" and "D = caught_up W' ulong C"
  shows "(net_step ulong cosf sinf)\<^sup>=\<^sup>= N A \<and> net_step ulong cosf sinf A B \<and>
    (net_step ulong cosf sinf)\<^sup>=\<^sup>= B C \<and> net_step ulong cosf sinf C D \<and> net_link D = Linked k \<and>
    (\<exists>p. map_of (players (net_server D)) k = Some p \<and> p_handshaked p \<and> agrees p (net_server D) (net_client D))"
proof -
  have A: "(net_step ulong cosf sinf)\<^sup>=\<^sup>= N A" "net_link A = Linked k" "ids_left (net_server A)"
    using answers_step [OF assms(2,3)] by (simp_all add: assms(4))
  have "net_ok N" using assms(1) by (rule reachable_ok)
  then have okA: "net_ok A" using A(1) by (auto intro: net_ok_step)
  note B = frame_step [OF okA A(2) assms(5)]
  obtain h where h: "hsk k (net_server B) = Some h" using linked_hsk [OF B(2,3)] by blast
  have C: "(net_step ulong cosf sinf)\<^sup>=\<^sup>= B C \<and> net_link C = Linked k \<and> hsk k (net_server C) = Some True"
  proof (cases h)
    case True
    then show ?thesis using h B(3) by (simp add: assms(6) server_hears_def)
  next
    case False
    have "ids_left (net_server B)" using A(3) by (simp add: B(4))
    with hears_step [OF B(2,3) _ B(5)] h False show ?thesis by (simp add: assms(6))
  qed
  then have okC: "net_ok C" using B(2) by (auto intro: net_ok_step)
  note D = frame_step [OF okC conjunct1 [OF conjunct2 [OF C]] assms(7)]
  obtain p where p: "map_of (players (net_server D)) k = Some p" "p_handshaked p"
    using C by (auto simp: hsk_def D(4))
  have "agrees p (net_server D) (net_client D)" by (rule settled_agrees [OF D(2,3) p D(6)])
  then show ?thesis using A(1) B(1) C D(1,3) p by blast
qed

theorem connection_completes_witness:
  "\<exists>p. let D = caught_up demo_world 32 (server_hears 4 (caught_up demo_world 32 (server_answers 4 demo_dialled))) in
     map_of (players (net_server D)) 4 = Some p \<and> p_handshaked p \<and> agrees p (net_server D) (net_client D)"
proof -
  have "answerable 4 demo_dialled"
    by (simp add: answerable_def demo_dialled_def demo_net_def net_start_def started_def Start_def Server_new_def
        emit_def now_def Let_def)
  from connection_completes [OF demo_dialled_reachable this _ refl refl refl refl] show ?thesis
    using demo_dialled_fields unfolding Let_def by blast
qed

text \<open>C6. A handshake that has begun is never refused: in every reachable state a client that the server knows and has
  not shaken hands with has nothing under way but hellos, one at least once it is connected, and whichever of them the
  server is handed next, it shakes hands and puts a welcome under way.\<close>

theorem handshake_succeeds:
  assumes "reachable ulong cosf sinf N" and "net_link N = Linked k"
    and "map_of (players (net_server N)) k = Some p" and "\<not> p_handshaked p"
  shows "net_up_loose N = [] \<and> (n_state (net_client N) = kConnected \<longrightarrow> net_up N \<noteq> []) \<and>
    (\<forall>b \<in> set (net_up N). \<forall>t. let s' = server_event t (EvReceive k b) (net_server N) in
       (\<exists>q. map_of (players s') k = Some q \<and> p_handshaked q) \<and> list_ex is_welcome (net_down (server_moves s' N)))"
proof -
  have ok: "net_ok N" using assms(1) by (rule reachable_ok)
  have h: "hsk k (net_server N) = Some False" using assms(3,4) by (simp add: hsk_def)
  show ?thesis using hello_under_way_linked [OF ok assms(2) h] hello_accepted [OF ok assms(2) h] by (simp add: Let_def)
qed

text \<open>The demonstration's client hears of its connection and its hello is under way.\<close>

theorem handshake_succeeds_witness:
  "\<exists>b. b \<in> set (net_up demo_saying_hello) \<and>
     (\<exists>q. map_of (players (server_event 0 (EvReceive 4 b) (net_server demo_saying_hello))) 4 = Some q \<and> p_handshaked q)"
proof -
  have "\<not> p_handshaked (Player_new 4)" by (simp add: Player_new_def)
  from handshake_succeeds [OF demo_saying_hello_reachable(1-3) this] demo_hello(2) show ?thesis by (auto simp: Let_def)
qed

section \<open>Well-typed traffic\<close>

text \<open>What is under way to the server: messages it reads, the states unreliably and the rest reliably.\<close>

definition up_typed :: "Net \<Rightarrow> bool" where
  "up_typed N = (list_all (\<lambda>b. client_packet b \<and> \<not> is_state b) (net_up N) \<and>
     list_all (\<lambda>b. client_packet b \<and> is_state b) (net_up_loose N))"

lemma speaks_sent:
  assumes "speaks s s'"
  shows "list_all (\<lambda>b. client_packet b \<and> \<not> is_state b) (sent True s s')"
    "list_all (\<lambda>b. client_packet b \<and> is_state b) (sent False s s')"
proof -
  obtain cs where cs: "e_calls s' = e_calls s @ cs" "list_all client_call cs" using assms by (auto simp: speaks_def)
  have "list_all (\<lambda>b. client_packet b \<and> rel = (\<not> is_state b))
      (concat (map (\<lambda>c. case c of Enet (PeerSend p n r bytes) \<Rightarrow> if r = rel then [bytes] else [] | _ \<Rightarrow> []) cs))" for rel
    using cs(2) by (induction cs) (auto simp: client_call_def split: call.splits enet_call.splits)
  from this [of True] this [of False]
  show "list_all (\<lambda>b. client_packet b \<and> \<not> is_state b) (sent True s s')"
    "list_all (\<lambda>b. client_packet b \<and> is_state b) (sent False s s')"
    by (simp_all add: sent_def cs(1))
qed

lemma server_moves_up [simp]: "net_up (server_moves s' N) = net_up N" "net_up_loose (server_moves s' N) = net_up_loose N"
  by (simp_all add: server_moves_def split: connection.split)

lemma up_typed_step: "net_step ulong cosf sinf N N' \<Longrightarrow> up_typed N \<Longrightarrow> up_typed N'"
proof (induction rule: net_step.induct)
  case (delivered N k b q t)
  then show ?case using handed_over_set [OF delivered(2)] by (auto simp: up_typed_def list_all_iff)
next
  case (frame c' W i N q)
  then show ?case using speaks_sent [OF speaks_input, of "net_client N" ulong "(W, i)"] by (simp add: up_typed_def)
qed (simp_all add: up_typed_def)

lemma reachable_up_typed: "reachable ulong cosf sinf N \<Longrightarrow> up_typed N"
  by (induction rule: reachable.induct) (auto simp: net_start_def up_typed_def [of "\<lparr>net_server = s, net_client = c, net_link = l,
      net_up = [], net_up_loose = [], net_down = d, net_down_loose = e\<rparr>" for s c l d e] intro: up_typed_step)

lemma down_typed: "net_ok N \<Longrightarrow> net_link N \<noteq> Closed \<Longrightarrow> list_all server_packet (net_down N) \<and> list_all loose_update (net_down_loose N)"
  by (auto simp: net_ok_def dialled_ok_def conn_ok_def elim!: linked_okE split: connection.splits)

text \<open>C7. Nobody is sent what it cannot read: in every reachable state with a connection, whatever is under way to
  the server is a whole message of a client, of an id the server handles, and what is under way to the client is one
  of the server; states, and nothing else, travel to the server unreliably, and only state updates do to the client.\<close>

theorem traffic_well_typed:
  assumes "reachable ulong cosf sinf N" and "net_link N \<noteq> Closed"
  shows "(\<forall>b \<in> set (net_up N) \<union> set (net_up_loose N). client_packet b \<and> is_state b = (b \<in> set (net_up_loose N))) \<and>
    (\<forall>b \<in> set (net_down N) \<union> set (net_down_loose N). server_packet b \<and> (b \<in> set (net_down_loose N) \<longrightarrow> is_update b))"
  using reachable_up_typed [OF assms(1)] down_typed [OF reachable_ok [OF assms(1)] assms(2)]
  by (auto simp: up_typed_def list_all_iff loose_update_def)

theorem traffic_well_typed_witness:
  "\<exists>b. b \<in> set (net_up demo_saying_hello) \<and> client_packet b \<and> \<not> is_state b"
  using traffic_well_typed [OF demo_saying_hello_reachable(1)] demo_saying_hello_reachable(2) demo_hello by auto

end
