(* ===== verification/F4_ClientLive.thy ===== *)
theory F4_ClientLive
  imports F4_ClientKeeps
begin

text \<open>
  Two things the player relies on: a connection that does not come about is given up and
  tried again, and what is typed after \<open>f4mp say\<close> reaches the server as it was typed.
\<close>

section \<open>Trying again\<close>

lemma Print_fields [simp]:
  "n_state (Print W msg s) = n_state s" "n_host (Print W msg s) = n_host s" "n_enetReady (Print W msg s) = n_enetReady s"
  "s_config (Print W msg s) = s_config s" "s_inWorld (Print W msg s) = s_inWorld s"
  "s_manualDisconnect (Print W msg s) = s_manualDisconnect s" "s_welcomed (Print W msg s) = s_welcomed s"
  "s_lastReconnectAttempt (Print W msg s) = s_lastReconnectAttempt s" "k_state (Print W msg s) = k_state s"
  "e_clock (Print W msg s) = e_clock s" "e_readings (Print W msg s) = e_readings s" "n_peer (Print W msg s) = n_peer s"
  by (simp_all add: Print_def ConsolePrint_def do_call_def)

text \<open>ENet creates a host, resolves a name and finds a peer whenever it is asked.\<close>

definition enet_works :: "World \<Rightarrow> bool" where
  "enet_works W = (\<forall>h. w_host_create W h \<and> w_address W h \<and> w_connect W h \<noteq> None)"

lemma Connect_works:
  assumes "n_enetReady s" and "enet_works W"
  obtains s' where "NetClient_Connect W a_host a_port s = (True, s')" and "n_state s' = kConnecting" and "n_peer s' \<noteq> None"
    and "set (e_calls s) \<subseteq> set (e_calls s')"
proof -
  obtain u where u: "u = NetClient_Reset s" by blast
  obtain v where v: "v = (if n_host u then u else let s = enet (HostCreate 1 (unat (channel_number kCount))) u
      in s\<lparr>n_host := w_host_create W (e_calls s)\<rparr>)" by blast
  obtain w where w: "w = enet (AddressSetHost (takeWhile (\<lambda>c. c \<noteq> char_of (0 :: nat)) a_host)) v" by blast
  obtain x where x: "x = enet (HostConnect a_port (unat (channel_number kCount))) w" by blast
  obtain k where k: "w_connect W (e_calls x) = Some k" using assms(2) by (auto simp: enet_works_def)
  have ok: "n_host v" "w_address W (e_calls w)" using assms(2) by (simp_all add: v enet_works_def Let_def)
  have "set (e_calls s) \<subseteq> set (e_calls u)"
    by (auto simp: u NetClient_Reset_def enet_def do_call_def Let_def split: option.split)
  moreover have "set (e_calls u) \<subseteq> set (e_calls x)"
    by (auto simp: x w v enet_def do_call_def Let_def)
  ultimately have c: "set (e_calls s) \<subseteq> set (e_calls x)" by blast
  let ?y = "(enet (PeerTimeout k 0 60000 180000) (x\<lparr>n_peer := Some k\<rparr>))\<lparr>n_state := kConnecting\<rparr>"
  obtain z where z: "z = (snd (e_now ?y))\<lparr>n_connectStart := fst (e_now ?y)\<rparr>" by blast
  have "NetClient_Connect W a_host a_port s = (True, z)"
    unfolding z NetClient_Connect_def u [symmetric]
    unfolding Let_def v [unfolded Let_def, symmetric] w [symmetric] x [symmetric]
    using assms(1) ok by (simp add: k case_prod_beta enet_def do_call_def)
  moreover have "n_peer ?y = Some k" "set (e_calls s) \<subseteq> set (e_calls ?y)" using c by (auto simp: enet_def do_call_def)
  ultimately show thesis by (intro that [of z]) (simp_all add: z e_now_def)
qed

text \<open>C25. A connection that hangs is given up and tried again: in a session in good order, where \<open>AutoConnect\<close> is on, a game is running in
  the world, the player has not disconnected by hand and ENet was initialised and gives a host, an address and a peer
  when asked, then in the first frame after the eight seconds of the attempt and the ten between attempts are over, with
  nothing heard from the server, the client resets the old peer and is connecting anew, whatever the prologue skip is at.\<close>

theorem hanging_connection_retried:
  assumes "session_ok s" and "n_state s = kConnecting" and "n_peer s = Some old" and "s_inWorld s"
    and "cc_autoConnect (s_config s)" and "\<not> s_manualDisconnect s" and "n_enetReady s"
    and "enet_works W"
    and "\<forall>m \<ge> e_readings s. n_connectStart s + CONNECT_TIMEOUT < e_clock s m \<and>
      s_lastReconnectAttempt s + RECONNECT_INTERVAL \<le> e_clock s m"
  shows "n_state (Tick W [] s) = kConnecting \<and> n_peer (Tick W [] s) \<noteq> None \<and>
    Enet (PeerReset old) \<in> set (e_calls (Tick W [] s))"
proof -
  have r: "r_players s = []" "n_host s" using assms(1-3) by (auto simp: session_ok_def)
  obtain u where u: "u = NetClient_Pump (callbacks W) [] s" by blast
  have late: "n_connectStart s + CONNECT_TIMEOUT < e_clock s (e_readings s)" using assms(9) by blast
  have calls: "set (e_calls s) \<subseteq> set (e_calls (Print W msg s))" for msg s
    by (auto simp: Print_def ConsolePrint_def do_call_def)
  have clear: "RemotePlayers_Clear W q = q\<lparr>r_players := [], r_hasOffset := False, r_serverClock := ServerClock_Reset (r_serverClock q)\<rparr>"
    if "r_players q = []" for q :: Session
    using that by (simp add: RemotePlayers_Clear_def DespawnAll_def)
  obtain q where q: "u = Print W ''[F4MP] Connection timed out'' q" "n_state q = kDisconnected" "s_inWorld q"
    "s_config q = s_config s" "\<not> s_manualDisconnect q" "n_enetReady q"
    "s_lastReconnectAttempt q = s_lastReconnectAttempt s" "e_clock q = e_clock s" "e_readings s \<le> e_readings q"
    "Enet (PeerReset old) \<in> set (e_calls q)"
    using late assms(2-7) r
    by (simp add: u NetClient_Pump_def pump_loop_def enet_def do_call_def e_now_def NetClient_Fail_def NetClient_Reset_def
        on_disconnected_def clear Let_def)
  obtain v where v: "v = Skip_Update W u" by blast
  have vu: "n_state v = kDisconnected" "s_config v = s_config s" "\<not> s_manualDisconnect v" "n_enetReady v" "s_inWorld v"
    "s_lastReconnectAttempt v = s_lastReconnectAttempt s" "e_clock v = e_clock s" "e_readings s \<le> e_readings v"
    using apart_fields [OF apart_skip [of u W]] q by (simp_all add: v)
  have "set (e_calls u) \<subseteq> set (e_calls v)" using shy_skip [of u W] by (auto simp: v shy_def)
  then have old: "Enet (PeerReset old) \<in> set (e_calls v)" using calls [of q] q(1,10) by blast
  let ?w = "v\<lparr>e_readings := Suc (e_readings v), s_lastReconnectAttempt := e_clock v (e_readings v)\<rparr>"
  obtain w where w: "w = Print W (''[F4MP] Connecting to '' @ ServerAddress ?w @ ''...'') ?w" by blast
  have "n_enetReady w" by (simp add: w vu)
  then obtain z where z: "NetClient_Connect W (cc_host (s_config w)) (cc_port (s_config w)) w = (True, z)"
    "n_state z = kConnecting" "n_peer z \<noteq> None" "set (e_calls w) \<subseteq> set (e_calls z)"
    using assms(8) by (rule Connect_works)
  have "s_lastReconnectAttempt s + RECONNECT_INTERVAL \<le> e_clock s (e_readings v)" using assms(9) vu(8) by simp
  then have ar: "auto_reconnect W v = z"
    using z(1) assms(5) by (simp add: auto_reconnect_def vu e_now_def Session_Connect_def Let_def w)
  have "s_inWorld u" by (simp add: q)
  then have "Tick W [] s = z"
    unfolding Tick_def u [symmetric] Let_def v [symmetric] ar by (simp add: Session_IsConnected_def IsConnected_def z(2))
  moreover have "set (e_calls v) \<subseteq> set (e_calls w)" using calls [of ?w] by (simp add: w)
  ultimately show ?thesis
    using z(2-4) old by auto
qed

text \<open>A client whose first attempt hangs.\<close>

definition demo_hanging :: Session where
  "demo_hanging = demo_connecting\<lparr>e_clock := \<lambda>_. 40 * 10 ^ 9\<rparr>"

theorem hanging_connection_retried_witness:
  "n_state (Tick demo_world [] demo_hanging) = kConnecting \<and> Enet (PeerReset 1) \<in> set (e_calls (Tick demo_world [] demo_hanging))"
proof -
  have "session_ok demo_hanging"
    using session_ok_runs [OF demo_connecting_fields(7) [unfolded demo_load_def]]
    by (simp add: demo_hanging_def demo_connecting_def demo_load_def session_ok_def)
  moreover have "enet_works demo_world" by (simp add: enet_works_def demo_world_def)
  ultimately show ?thesis
    using hanging_connection_retried [of demo_hanging 1 demo_world] demo_connecting_fields
    by (simp add: demo_hanging_def CONNECT_TIMEOUT_def RECONNECT_INTERVAL_def)
qed

section \<open>Saying something\<close>

text \<open>What the player types: not blank, without blanks at its ends or quotes around it.\<close>

definition plain_text :: "string \<Rightarrow> bool" where
  "plain_text tx = (tx \<noteq> [] \<and> \<not> isspace (hd tx) \<and> \<not> isspace (last tx) \<and> hd tx \<noteq> CHR 0x22)"

lemma trim_id:
  assumes "x \<noteq> []" and "\<not> isspace (hd x)" and "\<not> isspace (last x)"
  shows "Console_Trim x = x"
proof -
  have "dropWhile isspace x = x" using assms(1,2) by (cases x) simp_all
  moreover have "dropWhile isspace (rev x) = rev x" using assms(1,3) by (cases x rule: rev_cases) simp_all
  ultimately show ?thesis by (simp add: Console_Trim_def)
qed

lemma trim_blank: "Console_Trim (CHR '' '' # x) = Console_Trim x"
  by (simp add: Console_Trim_def isspace_def)

lemma next_token:
  assumes "w \<noteq> []" and "list_all (\<lambda>c. \<not> isspace c) w" and "plain_text tx"
  shows "NextToken (w @ CHR '' '' # tx) = (w, tx)"
proof -
  have t: "Console_Trim tx = tx" using assms(3) by (intro trim_id) (simp_all add: plain_text_def)
  have "Console_Trim (w @ CHR '' '' # tx) = w @ CHR '' '' # tx"
    using assms by (intro trim_id) (auto simp: plain_text_def list_all_iff)
  moreover have "takeWhile (\<lambda>c. \<not> isspace c) (w @ CHR '' '' # tx) = w"
    "dropWhile (\<lambda>c. \<not> isspace c) (w @ CHR '' '' # tx) = CHR '' '' # tx"
    using assms(2) by (auto simp: takeWhile_append dropWhile_append list_all_iff isspace_def)
  ultimately show ?thesis by (simp add: NextToken_def Let_def trim_blank t)
qed

lemma Execute_say:
  assumes "plain_text tx"
  shows "Execute W ulong (''f4mp say '' @ tx) s = SendChat W tx s"
proof -
  have say: "plain_text (''say '' @ tx)" using assms by (simp add: plain_text_def isspace_def)
  have w: "list_all (\<lambda>c. \<not> isspace c) ''f4mp''" "list_all (\<lambda>c. \<not> isspace c) ''say''" "IsCommandToken ''f4mp''"
    by (code_simp, code_simp, code_simp)
  have n: "NextToken (''f4mp say '' @ tx) = (''f4mp'', ''say '' @ tx)" "NextToken (''say '' @ tx) = (''say'', tx)"
    using next_token [OF _ w(1) say] next_token [OF _ w(2) assms] by simp_all
  have "Console_Trim (''f4mp say '' @ tx) = ''f4mp say '' @ tx"
    using assms by (intro trim_id) (simp_all add: plain_text_def isspace_def)
  then have e: "Execute W ulong (''f4mp say '' @ tx) s = Execute_command W ulong ''say'' tx s"
    by (simp only: Execute_def Let_def n prod.case w(3) if_True)
  have "StripQuotes tx = tx"
    using assms trim_id [of tx] by (simp add: StripQuotes_def plain_text_def)
  moreover have "\<not> IEquals ''say'' ''help''" "\<not> IEquals ''say'' ''status''" "\<not> IEquals ''say'' ''connect''"
    "\<not> IEquals ''say'' ''disconnect''" "IEquals ''say'' ''say''"
    by (code_simp, code_simp, code_simp, code_simp, code_simp)
  ultimately show ?thesis
    unfolding e using assms by (simp add: Execute_command_def plain_text_def)
qed

text \<open>What is typed after \<open>f4mp say\<close> is what the server gets: one reliable chat packet, with the text cut to
  its first 512 bytes.\<close>

lemma say_sends:
  assumes "plain_text tx" and "Session_IsConnected s" and "n_peer s = Some p"
  shows "\<exists>bytes. e_calls (Execute W ulong (''f4mp say '' @ tx) s) = e_calls s @ [Enet (PeerSend p 0 True bytes)] \<and>
    message_id bytes = Some kChat \<and> body ChatMsg_Read bytes = Some \<lparr>chat_text = take 512 tx\<rparr>"
proof -
  let ?b = "Encode kChat ChatMsg_Write \<lparr>chat_text = take 512 tx\<rparr>"
  have "message_id ?b = Some kChat" "body ChatMsg_Read ?b = Some \<lparr>chat_text = take 512 tx\<rparr>"
    by (unfold chat_msg.Encode_image, rule message_id_Cons)
      (simp add: body_def chat_msg.receive_Encode [unfolded chat_msg.Encode_image] ChatMsg_canon_def cut_def MAX_STRING_BYTES_def)
  moreover have "e_calls (Execute W ulong (''f4mp say '' @ tx) s) = e_calls s @ [Enet (PeerSend p 0 True ?b)]"
    unfolding Execute_say [OF assms(1)] using assms by (simp add: SendChat_def plain_text_def NetClient_Send_def Session_IsConnected_def IsConnected_def
        MAX_CHAT_BYTES_def channel_number_def enet_def do_call_def Let_def)
  ultimately show ?thesis by blast
qed

end
