(* ===== verification/F4_Travel.thy ===== *)
theory F4_Travel
  imports F4_NetworkLive F4_ClientLive F4_Chat
begin

text \<open>
  What one player says and does on its way to another: from the client it is typed into or
  sampled by, through the server, into the session of every other client.
\<close>

section \<open>A client handles a packet\<close>

text \<open>A line of chat, and a state, as the server words them.\<close>

lemma handle_chat:
  fixes c :: Session
  shows "Session_HandlePacket W (chat_bytes i tx) c =
    (if i = SERVER_ID then Print W (''[Server] '' @ cut tx) c
     else Print W ((if i = s_myId c then ''You'' else NameOf i c) @ '': '' @ cut tx) c)"
proof -
  obtain j b r m d r' where x: "run_state ReadHeader (Reader_new (chat_bytes i tx)) = ((j, b), r)"
    "run_state ChatBroadcastMsg_Read r = ((m, d), r')" "message_id (chat_bytes i tx) = (if b then Some j else None)"
    "body ChatBroadcastMsg_Read (chat_bytes i tx) = (if b \<and> d then Some m else None)"
    by (rule packet_split [of "chat_bytes i tx" ChatBroadcastMsg_Read])
  have "b" "j = kChatBroadcast" "d" "m = \<lparr>cb_from = i, cb_text = cut tx\<rparr>"
    using x(3,4) by (auto simp: message_ids bodies split: if_splits)
  then show ?thesis
    by (simp add: Session_HandlePacket_def x(1,2) server_msg_ids Let_def)
qed

lemma handle_update:
  fixes c :: Session
  shows "Session_HandlePacket W (update_bytes i t st) c =
    (if i \<noteq> s_myId c then RemotePlayers_ApplyState i st t c else c)"
proof -
  obtain j b r m d r' where x: "run_state ReadHeader (Reader_new (update_bytes i t st)) = ((j, b), r)"
    "run_state PlayerStateUpdateMsg_Read r = ((m, d), r')" "message_id (update_bytes i t st) = (if b then Some j else None)"
    "body PlayerStateUpdateMsg_Read (update_bytes i t st) = (if b \<and> d then Some m else None)"
    by (rule packet_split [of "update_bytes i t st" PlayerStateUpdateMsg_Read])
  have "b" "j = kPlayerStateUpdate" "d" "m = \<lparr>psu_id = i, psu_timeMs = t, psu_state = st\<rparr>"
    using x(3,4) by (auto simp: message_ids bodies split: if_splits)
  then show ?thesis
    by (simp add: Session_HandlePacket_def x(1,2) server_msg_ids Let_def)
qed

section \<open>A line of chat\<close>

lemma chat_clean_take: "chat_clean (take 512 tx) = chat_clean tx" "length (chat_clean tx) \<le> 512"
  by (simp_all add: chat_clean_def MAX_CHAT_BYTES_def order_trans [OF length_filter_le])

lemma chat_relayed:
  assumes "good s" and "map_of (players s) k = Some p" and "p_handshaked p"
    and room: "CHAT_WINDOW \<le> clock s (readings s) - p_chatWindowStart p \<or> p_chatWindowCount p < CHAT_BURST"
    and "chat_clean tx \<noteq> []" and b: "message_id b = Some kChat" "body ChatMsg_Read b = Some \<lparr>chat_text = take 512 tx\<rparr>"
    and "map_of (players s) j = Some r" and "p_handshaked r"
  shows "inbox j (out (HandlePacket k b s)) = inbox j (out s) @ [chat_bytes (p_id p) (chat_clean tx)]"
proof -
  have k: "p_peer p = k" using good_player [OF assms(1,2)] by simp
  have tx: "take 512 tx \<noteq> []" using assms(5) by (auto simp: chat_clean_def)
  have "p_chatWindowCount p + 1 \<le> CHAT_BURST" if "p_chatWindowCount p < CHAT_BURST" using that by (rule inc_le)
  then have "fst (chat_gate (clock s (readings s)) (gate_of p))"
    using room by (auto simp: chat_gate_def gate_of_def) (simp_all add: CHAT_BURST_def)
  then obtain g where "chat_gate (clock s (readings s)) (gate_of p) = (True, g)" by (metis prod.collapse)
  then have e: "HandlePacket k b s = emits (map (send_effect kReliable (chat_bytes (p_id p) (chat_clean tx))) (audience None (players s)))
      (put_player (with_gate g p) (s\<lparr>readings := Suc (readings s)\<rparr>))"
    using tx assms(5) by (simp add: chat_packet [OF b(1) assms(2,3) k] b(2) line_effects_def chat_clean_take)
  have "j \<in> set (audience None (players s))"
    using assms(8,9) by (auto simp: set_audience dest: map_of_SomeD)
  moreover have "distinct (audience None (players s))" using good_keys [OF assms(1)] by (rule distinct_audience)
  ultimately show ?thesis by (simp add: e inbox_reliable)
qed

lemma agrees_name:
  assumes "agrees r s c" and "participant s i n"
  shows "(if i = s_myId c then ''You'' else NameOf i c) = (if i = p_id r then ''You'' else n)"
proof (cases "i = p_id r")
  case False
  then obtain q where "map_of (r_players c) i = Some q" "rp_name q = n" using assms unfolding agrees_def by blast
  then show ?thesis using assms(1) False by (simp add: agrees_def NameOf_def RemotePlayers_Find_def)
qed (use assms(1) in \<open>simp add: agrees_def\<close>)

text \<open>C26. What is typed after \<open>f4mp say\<close> is what everybody reads. Take a text that does not begin or end with a blank or
  begin with a quote, and of which something is left without the control characters: a welcomed client sends one reliable
  packet with the text as typed, cut to 512 bytes; the server, while the sender keeps to its rate, posts to every
  participant one and the same line with the text less its control characters; and a client that agrees with the server
  prints it under the name the server has for the speaker, or as its own.\<close>

theorem say_travels:
  assumes "plain_text tx" and "Session_IsConnected a" and "n_peer a = Some q"
    and "good s" and "map_of (players s) k = Some p" and "p_handshaked p" and "chat_clean tx \<noteq> []"
    and "CHAT_WINDOW \<le> clock s (readings s) - p_chatWindowStart p \<or> p_chatWindowCount p < CHAT_BURST"
  shows "\<exists>b line. e_calls (Execute W ulong (''f4mp say '' @ tx) a) = e_calls a @ [Enet (PeerSend q 0 True b)] \<and>
    message_id b = Some kChat \<and> body ChatMsg_Read b = Some \<lparr>chat_text = take 512 tx\<rparr> \<and>
    (\<forall>j r. map_of (players s) j = Some r \<and> p_handshaked r \<longrightarrow>
       inbox j (out (HandlePacket k b s)) = inbox j (out s) @ [line]) \<and>
    (\<forall>V c r. agrees r s c \<longrightarrow> Session_HandlePacket V line c =
       Print V ((if p_id p = p_id r then ''You'' else p_name p) @ '': '' @ chat_clean tx) c)"
proof -
  obtain b where b: "e_calls (Execute W ulong (''f4mp say '' @ tx) a) = e_calls a @ [Enet (PeerSend q 0 True b)]"
    "message_id b = Some kChat" "body ChatMsg_Read b = Some \<lparr>chat_text = take 512 tx\<rparr>"
    using say_sends [OF assms(1-3)] by blast
  let ?line = "chat_bytes (p_id p) (chat_clean tx)"
  have "p_id p \<noteq> SERVER_ID"
    using good_player [OF assms(4,5)] assms(6) by (auto simp: player_ok_def SERVER_ID_def)
  moreover have "cut (chat_clean tx) = chat_clean tx"
    using chat_clean_take(2) [of tx] by (simp add: cut_def MAX_STRING_BYTES_def)
  moreover have "participant s (p_id p) (p_name p)" using assms(5,6) by (rule participant_player)
  ultimately have "Session_HandlePacket V ?line c =
      Print V ((if p_id p = p_id r then ''You'' else p_name p) @ '': '' @ chat_clean tx) c" if "agrees r s c" for V c r
    using agrees_name [OF that] by (simp add: handle_chat)
  moreover have "inbox j (out (HandlePacket k b s)) = inbox j (out s) @ [?line]"
    if "map_of (players s) j = Some r" "p_handshaked r" for j r
    by (rule chat_relayed [OF assms(4-6,8,7) b(2,3) that])
  ultimately show ?thesis using b by blast
qed

text \<open>A welcomed client of the demonstration; Nora, at peer 7, speaks.\<close>

definition demo_speaker :: Session where
  "demo_speaker = demo_connecting\<lparr>n_state := kConnected, s_welcomed := True\<rparr>"

lemma demo_speaker_fields: "Session_IsConnected demo_speaker" "n_peer demo_speaker = Some 1" "n_state demo_speaker = kConnected"
  using demo_connecting_fields(8) by (simp_all add: demo_speaker_def Session_IsConnected_def IsConnected_def)

theorem say_travels_witness:
  "\<exists>b line. e_calls (Execute demo_world 32 (''f4mp say '' @ ''Hi there'') demo_speaker) =
     e_calls demo_speaker @ [Enet (PeerSend 1 0 True b)] \<and>
   inbox 8 (out (HandlePacket 7 b demo)) = inbox 8 (out demo) @ [line]"
proof -
  obtain p where p: "map_of (players demo) 7 = Some p" "p_id p = 1" "p_handshaked p" "p_chatWindowStart p = 0"
    "p_chatWindowCount p = 0" using demo_Nora_chat by blast
  have tx: "plain_text ''Hi there''" "chat_clean ''Hi there'' \<noteq> []" by (code_simp, code_simp)
  have room: "p_chatWindowCount p < CHAT_BURST" by (simp add: p(5) CHAT_BURST_def)
  have "map_option p_handshaked (map_of (players demo) 8) = Some True" by code_simp
  then obtain r where "map_of (players demo) 8 = Some r" "p_handshaked r" by auto
  then show ?thesis
    using say_travels [OF tx(1) demo_speaker_fields(1,2) demo_good p(1,3) tx(2) disjI2 [OF room], of demo_world 32] by blast
qed

section \<open>A state\<close>

lemma SendState_sends:
  assumes "LocalPlayer_Sample W (e_calls a) = Some st" and "n_state a = kConnected" and "n_peer a = Some q"
    and "e_calls (SendState W force a) \<noteq> e_calls a"
  shows "e_calls (SendState W force a) =
    e_calls a @ [Enet (PeerSend q 1 False (Encode kPlayerState PlayerStateMsg_Write \<lparr>psm_state = st\<rparr>))]"
proof -
  have n: "e_calls (snd (e_now s)) = e_calls s" "n_state (snd (e_now a)) = n_state a" "n_peer (snd (e_now a)) = n_peer a"
    for s :: Session
    by (simp_all add: e_now_def)
  have "e_calls (NetClient_Send kUnreliable b (snd (e_now a))) = e_calls a @ [Enet (PeerSend q 1 False b)]" for b
    using assms(2,3) by (simp add: NetClient_Send_def n enet_def do_call_def channel_number_def)
  then show ?thesis
    using assms(1,4) by (simp add: SendState_def case_prod_beta Let_def n split: if_splits)
qed

lemma loose_unreliable: "distinct js \<Longrightarrow> loose_box j (map (send_effect kUnreliable b) js) = (if j \<in> set js then [b] else [])"
  by (induction js) (auto simp: loose_box_Cons loosely_send)

text \<open>C27. What the game shows of one player is, bit for bit, what the others get: when a client sends the state it
  samples, it sends it once and unreliably; if it is finite the server posts to every other participant one and the
  same update, and nothing to the sender; and a client that handles it takes over that state, for that player, at the
  server's time.\<close>

theorem state_travels:
  assumes "LocalPlayer_Sample W (e_calls a) = Some st" and "n_state a = kConnected" and "n_peer a = Some q"
    and "e_calls (SendState W force a) \<noteq> e_calls a" and "Plausible st"
    and "good s" and "map_of (players s) k = Some p" and "p_handshaked p"
  shows "\<exists>b u. e_calls (SendState W force a) = e_calls a @ [Enet (PeerSend q 1 False b)] \<and>
    (\<forall>j. loose_box j (out (HandlePacket k b s)) = loose_box j (out s) @
       (if j \<noteq> k \<and> (\<exists>r. map_of (players s) j = Some r \<and> p_handshaked r) then [u] else [])) \<and>
    (\<forall>V c. Session_HandlePacket V u c =
       (if p_id p \<noteq> s_myId c then RemotePlayers_ApplyState (p_id p) st (stamp s) c else c))"
proof -
  let ?b = "Encode kPlayerState PlayerStateMsg_Write \<lparr>psm_state = st\<rparr>" and ?u = "update_bytes (p_id p) (stamp s) st"
  have kd: "keys_distinct (players s)" using assms(6) by (rule good_keys)
  have "j \<in> set (audience (Some k) (players s)) \<longleftrightarrow> j \<noteq> k \<and> (\<exists>r. map_of (players s) j = Some r \<and> p_handshaked r)" for j
    using kd by (auto simp: set_audience keys_distinct_def)
  then have "loose_box j (out (HandlePacket k ?b s)) = loose_box j (out s) @
       (if j \<noteq> k \<and> (\<exists>r. map_of (players s) j = Some r \<and> p_handshaked r) then [?u] else [])" for j
    using distinct_audience [OF kd, of "Some k"] assms(5)
    by (simp add: state_relay [OF assms(6-8)] loose_unreliable)
  then show ?thesis using SendState_sends [OF assms(1-4)] handle_update by blast
qed

theorem state_travels_witness:
  "\<exists>b u. e_calls (SendState demo_world True demo_speaker) = e_calls demo_speaker @ [Enet (PeerSend 1 1 False b)] \<and>
   loose_box 8 (out (HandlePacket 7 b demo)) = loose_box 8 (out demo) @ [u]"
proof -
  obtain st where st: "LocalPlayer_Sample demo_world (e_calls demo_speaker) = Some st" "Plausible st"
    by (simp add: LocalPlayer_Sample_def demo_world_def GetPlayer_def GetSpace_def Let_def Plausible_def Finite_def
        Vec3_default_def PlayerState_default_def float_eval)
  have sends: "e_calls (SendState demo_world True demo_speaker) \<noteq> e_calls demo_speaker"
    using demo_speaker_fields(2,3)
    by (simp add: SendState_def st(1) e_now_def NetClient_Send_def enet_def do_call_def Let_def)
  obtain p where p: "map_of (players demo) 7 = Some p" "p_handshaked p" using demo_Nora by blast
  have "map_option p_handshaked (map_of (players demo) 8) = Some True" by code_simp
  then obtain r where "map_of (players demo) 8 = Some r" "p_handshaked r" by auto
  then show ?thesis
    using state_travels [OF st(1) demo_speaker_fields(3,2) sends st(2) demo_good p] by fastforce
qed

end
