(* ===== verification/F4_CommandFacts.thy ===== *)
theory F4_CommandFacts
  imports F4_ServerSpec
begin

text \<open>
  The server's console: which of the typed lines are executed, and what removing all bots
  does.
\<close>

section \<open>The lines\<close>

lemma console_loop_fold:
  "console_loop ulong q s =
     (case dropWhile (\<lambda>l. \<not> is_stop l) q of
        [] \<Rightarrow> (True, [], fold (ExecuteCommand ulong) q s)
      | l # rest \<Rightarrow> (False, rest, fold (ExecuteCommand ulong) (takeWhile (\<lambda>l. \<not> is_stop l) q) s))"
proof (induction q arbitrary: s)
  case Nil
  show ?case by (subst console_loop.simps) (simp add: TryPop_def)
next
  case (Cons l q)
  show ?case
    by (cases "is_stop l"; subst console_loop.simps; simp add: TryPop_def Cons split: list.split del: dropWhile_eq_Nil_conv)
qed

text \<open>C39. The lines of the console are executed once each, in the order they were typed, up to the first stop,
  quit or exit; that one ends the main loop whatever is typed after it, and a signal ends it before the
  network is served again.\<close>

theorem main_loop_stops:
  "main_loop ulong cosf sinf tick (p # ps) [] s =
    (if pass_signal p then (False, [], s)
     else
       let lines = fold ReadLoop_line (pass_lines p) [];
           t = fold (ExecuteCommand ulong) (takeWhile (\<lambda>l. \<not> is_stop l) lines) (Service cosf sinf tick (pass_events p) s)
       in if list_ex is_stop lines then (False, tl (dropWhile (\<lambda>l. \<not> is_stop l) lines), t)
          else main_loop ulong cosf sinf tick ps [] t)"
proof -
  obtain lines where lines: "lines = fold ReadLoop_line (pass_lines p) []" by blast
  show ?thesis
  proof (cases "dropWhile (\<lambda>l. \<not> is_stop l) lines")
    case Nil
    then have tw: "takeWhile (\<lambda>l. \<not> is_stop l) lines = lines" "\<not> list_ex is_stop lines"
      using takeWhile_dropWhile_id [of "\<lambda>l. \<not> is_stop l" lines] by (auto simp: list_ex_iff dropWhile_eq_Nil_conv)
    then show ?thesis by (simp add: Nil tw lines [symmetric] console_loop_fold Let_def del: dropWhile_eq_Nil_conv)
  next
    case (Cons l rest)
    then have "list_ex is_stop lines"
      using dropWhile_eq_Nil_conv [of "\<lambda>l. \<not> is_stop l" lines] by (auto simp: list_ex_iff)
    then show ?thesis using Cons by (simp add: lines [symmetric] console_loop_fold Let_def)
  qed
qed

section \<open>Removing all bots\<close>

text \<open>What the others hear when a bot goes.\<close>

definition goodbye :: "Bot \<Rightarrow> (peer \<times> Player) list \<Rightarrow> effect list" where
  "goodbye b ps =
     map (send_effect kReliable (left_bytes (b_id b))) (audience None ps) @ said (b_name b @ '' left the game'') ps"

lemma RemoveBot_last:
  assumes "distinct (map b_id (bots s))" and "bots s = xs @ [b]"
  shows "snd (RemoveBot (b_id b) s) = (emits (goodbye b (players s)) s)\<lparr>bots := xs\<rparr>"
proof -
  have "List.extract (\<lambda>c. b_id c = b_id b) (xs @ [b]) = Some (xs, b, [])"
    using assms by (auto simp: extract_Some_iff) (metis imageI)
  then show ?thesis
    by (simp add: RemoveBot_def assms(2) Let_def bytes_folds Broadcast_emits ServerChat_emits goodbye_def)
qed

lemma RemoveAllBots_emits:
  "distinct (map b_id (bots s)) \<Longrightarrow>
    RemoveAllBots s = (emits (concat (map (\<lambda>b. goodbye b (players s)) (rev (bots s)))) s)\<lparr>bots := []\<rparr>"
proof (induction "bots s" arbitrary: s rule: rev_induct)
  case Nil
  then show ?case by (subst RemoveAllBots.simps) simp
next
  case (snoc b xs)
  let ?t = "(emits (goodbye b (players s)) s)\<lparr>bots := xs\<rparr>"
  have "RemoveAllBots s = RemoveAllBots ?t"
    using snoc.hyps(2) RemoveBot_last [OF snoc.prems snoc.hyps(2) [symmetric]]
    by (subst RemoveAllBots.simps) (simp add: snoc.hyps(2) [symmetric])
  moreover have "RemoveAllBots ?t = (emits (concat (map (\<lambda>b. goodbye b (players ?t)) (rev (bots ?t)))) ?t)\<lparr>bots := []\<rparr>"
    using snoc.prems by (intro snoc.hyps(1)) (simp_all add: snoc.hyps(2) [symmetric])
  ultimately show ?case by (simp add: snoc.hyps(2) [symmetric] emits_def)
qed

text \<open>C37. \<open>bot remove all\<close> ends, leaves no bot and the players as they were, and every client that has shaken
  hands is told of each bot, the newest first, that it has left, and reads a line about it.\<close>

theorem all_bots_removed:
  assumes "good s" and "s' = ExecuteCommand ulong ''bot remove all'' s"
  shows "bots s' = [] \<and> players s' = players s \<and>
    (\<forall>k p. map_of (players s) k = Some p \<and> p_handshaked p \<longrightarrow>
       inbox k (out s') = inbox k (out s) @
         concat (map (\<lambda>b. [left_bytes (b_id b), chat_bytes SERVER_ID (b_name b @ '' left the game'')]) (rev (bots s))))"
proof -
  have "Split ''bot remove all'' = [''bot'', ''remove'', ''all'']" by code_simp
  then have s': "s' = RemoveAllBots s" by (simp add: assms(2) ExecuteCommand_def ExecuteBot_def)
  have D: "keys_distinct (players s)" "distinct (map b_id (bots s))"
    using srv_invD(1,2) assms(1) by (simp_all add: good_def)
  have "inbox k (concat (map (\<lambda>b. goodbye b (players s)) bs)) =
      concat (map (\<lambda>b. [left_bytes (b_id b), chat_bytes SERVER_ID (b_name b @ '' left the game'')]) bs)"
    if "map_of (players s) k = Some p" "p_handshaked p" for k p bs
  proof -
    have "k \<in> set (audience None (players s))" using that by (auto simp: set_audience dest: map_of_SomeD)
    then have "inbox k (goodbye b (players s)) = [left_bytes (b_id b), chat_bytes SERVER_ID (b_name b @ '' left the game'')]" for b
      using distinct_audience [OF D(1), of None] by (simp add: goodbye_def said_def inbox_reliable)
    then show ?thesis by (induction bs) simp_all
  qed
  then show ?thesis by (simp add: s' RemoveAllBots_emits [OF D(2)])
qed

theorem all_bots_removed_witness: "bots (ExecuteCommand 64 ''bot remove all'' demo) = [] \<and> bots demo \<noteq> []"
proof -
  have "bots demo \<noteq> []" by code_simp
  then show ?thesis using all_bots_removed [OF demo_good refl] by simp
qed

end
