(* ===== verification/F4_ServerLog.thy ===== *)
theory F4_ServerLog
  imports F4_ServerConsole F4_Format F4_ServerSpec
begin

text \<open>
  What the commands of the server's console write to the log: the lines and their level, in
  order, of \<open>Server::ExecuteCommand\<close> and of the operations it calls. The address and the round
  trip time of a peer are ENet's. Every command is answered, but for a blank line, \<open>say\<close>
  without a text and \<open>bot remove all\<close> without bots: it is refused with one warning and
  changes nothing, or it is carried out and logged.
\<close>

section \<open>Lines\<close>

datatype log_line = Info string | Warn string

record EnetPeers =
  pe_host_ip :: "peer \<Rightarrow> string option"
  pe_port :: "peer \<Rightarrow> u16"
  pe_roundTripTime :: "peer \<Rightarrow> u32"

definition PeerAddress :: "EnetPeers \<Rightarrow> peer \<Rightarrow> string" where
  "PeerAddress E k =
     (case pe_host_ip E k of None \<Rightarrow> ''?'' | Some h \<Rightarrow> h @ '':'' @ to_string (unat (pe_port E k)))"

definition place_text :: "Vec3 \<Rightarrow> string" where
  "place_text v = CHR ''('' # f32_fixed 0 (vx v) @ '', '' @ f32_fixed 0 (vy v) @ '', '' @ f32_fixed 0 (vz v) @ '')''"

definition help_line :: log_line where
  "help_line = Info ''Commands: help, list, say <text>, kick <id> [reason], bot add [mirror|orbit] [name], bot remove <id|all>, stop''"

definition player_line :: "EnetPeers \<Rightarrow> peer \<times> Player \<Rightarrow> log_line" where
  "player_line E = (\<lambda>(k, p).
     if \<not> p_handshaked p then Info (''  (handshaking) '' @ PeerAddress E k)
     else let st = p_state p
          in Info (''  #'' @ to_string (unat (p_id p)) @ '' '' @ p_name p @ '' @ '' @ place_text (position st) @
               '' ws=0x'' @ hex8 (worldspaceId st) @ '' cell=0x'' @ hex8 (cellId st) @
               '' hp='' @ f32_fixed 0 (health st) @ ''/'' @ f32_fixed 0 (maxHealth st) @
               '' ping='' @ to_string (unat (pe_roundTripTime E k)) @ ''ms''))"

definition mode_text :: "Mode \<Rightarrow> string" where
  "mode_text m = (if m = kOrbit then ''orbit'' else ''mirror'')"

definition bot_line :: "Bot \<Rightarrow> log_line" where
  "bot_line b = Info (''  #'' @ to_string (unat (b_id b)) @ '' '' @ b_name b @ '' (bot, '' @ mode_text (b_mode b) @
     '', following #'' @ to_string (unat (b_follow b)) @ '') @ '' @ place_text (position (b_state b)))"

definition list_lines :: "EnetPeers \<Rightarrow> Server \<Rightarrow> log_line list" where
  "list_lines E s =
     Info (to_string (length (players s)) @ '' connection(s), '' @ to_string (length (bots s)) @ '' bot(s):'') #
     map (player_line E) (players s) @ map bot_line (bots s)"

section \<open>The operations\<close>

definition AddBot_log :: "Mode \<Rightarrow> string \<Rightarrow> Server \<Rightarrow> log_line list" where
  "AddBot_log mode a_name s =
     (let i = to_string (unat (nextId s));
          nm = SanitizeName (if a_name = [] then ''Bot'' @ i else a_name)
      in [Info (''Bot '' @ nm @ '' (#'' @ i @ '') added ('' @ mode_text mode @ '')'')])"

definition RemoveBot_log :: "PlayerId \<Rightarrow> Server \<Rightarrow> log_line list" where
  "RemoveBot_log i s =
     (case List.extract (\<lambda>b. b_id b = i) (bots s) of
        None \<Rightarrow> []
      | Some (before, b, behind) \<Rightarrow> [Info (''Bot '' @ b_name b @ '' (#'' @ to_string (unat (b_id b)) @ '') removed'')])"

function RemoveAllBots_log :: "Server \<Rightarrow> log_line list" where
  "RemoveAllBots_log s =
     (if bots s = [] then []
      else RemoveBot_log (b_id (last (bots s))) s @ RemoveAllBots_log (snd (RemoveBot (b_id (last (bots s))) s)))"
  by pat_completeness auto
termination
  by (relation "measure (\<lambda>s. length (bots s))") (simp_all only: RemoveBot_back in_measure wf_measure not_False_eq_True)

declare RemoveAllBots_log.simps [simp del]

definition Kick_log :: "EnetPeers \<Rightarrow> Player \<Rightarrow> string \<Rightarrow> log_line list" where
  "Kick_log E p reason =
     [Info (''Kicking '' @ (if p_name p = [] then PeerAddress E (p_peer p) else p_name p) @
        '' (#'' @ to_string (unat (p_id p)) @ ''): '' @ reason)]"

section \<open>The commands\<close>

definition ExecuteBot_log :: "nat \<Rightarrow> string list \<Rightarrow> Server \<Rightarrow> log_line list" where
  "ExecuteBot_log ulong args s =
     (let sub = (if 1 < length args then args ! 1 else [])
      in if sub = ''add'' then
           let named = (2 < length args \<and> (args ! 2 = ''mirror'' \<or> args ! 2 = ''orbit''));
               mode = (if named then (if args ! 2 = ''orbit'' then kOrbit else kMirror) else kMirror);
               nameStart = (if named then 3 else 2)
           in AddBot_log mode (join_words (drop nameStart args)) s
         else if sub = ''remove'' \<and> 2 < length args then
           (if args ! 2 = ''all'' then RemoveAllBots_log s
            else case stoul ulong 10 (args ! 2) of
                   None \<Rightarrow> [Warn ''usage: bot remove <id|all>'']
                 | Some n \<Rightarrow>
                     let i = word_of_nat n
                     in if \<not> fst (RemoveBot i s) then [Warn (''No bot with id '' @ to_string (unat i))]
                        else RemoveBot_log i s)
         else [Warn ''usage: bot add [mirror|orbit] [name] | bot remove <id|all>''])"

definition ExecuteKick_log :: "EnetPeers \<Rightarrow> nat \<Rightarrow> string \<Rightarrow> string list \<Rightarrow> Server \<Rightarrow> log_line list" where
  "ExecuteKick_log E ulong line args s =
     (if length args < 2 then [Warn ''usage: kick <id> [reason]'']
      else case stoul ulong 10 (args ! 1) of
             None \<Rightarrow> [Warn ''usage: kick <id> [reason]'']
           | Some n \<Rightarrow>
               let i = word_of_nat n; (removed, t) = RemoveBot i s
               in if removed then RemoveBot_log i s
                  else case FindPlayer_id i t of
                         None \<Rightarrow> [Warn (''No player with id '' @ to_string (unat i))]
                       | Some p \<Rightarrow>
                           let reason = (if 2 < length args
                                 then drop (the (find_sub (args ! 1) line) + length (args ! 1) + 1) line
                                 else ''Kicked by server'')
                           in Kick_log E p reason)"

definition ExecuteCommand_log :: "EnetPeers \<Rightarrow> nat \<Rightarrow> string \<Rightarrow> Server \<Rightarrow> log_line list" where
  "ExecuteCommand_log E ulong line s =
     (let args = Split line
      in if args = [] then []
         else let cmd = hd args
              in if cmd = ''help'' then [help_line]
                 else if cmd = ''list'' then list_lines E s
                 else if cmd = ''bot'' then ExecuteBot_log ulong args s
                 else if cmd = ''say'' then
                   (if CHR '' '' \<in> set line
                    then [Info (''[chat] SERVER: '' @ drop 1 (dropWhile (\<lambda>c. c \<noteq> CHR '' '') line))]
                    else [])
                 else if cmd = ''kick'' then ExecuteKick_log E ulong line args s
                 else [Warn (''Unknown command '' @ quote cmd @ '' (try help)'')])"

section \<open>Every command is answered\<close>

text \<open>Refused with one warning and without effect, or logged; and what is not logged has no effect.\<close>

definition answered :: "Server \<Rightarrow> log_line list \<Rightarrow> Server \<Rightarrow> bool" where
  "answered s lines s' = ((\<forall>w. Warn w \<in> set lines \<longrightarrow> lines = [Warn w] \<and> s' = s) \<and> (lines = [] \<longrightarrow> s' = s))"

lemma answered_warn [simp]: "answered s [Warn w] s'  \<longleftrightarrow> s' = s"
  by (auto simp: answered_def)

lemma answered_info [simp]: "answered s [Info w] s'"
  by (simp add: answered_def)

lemma answered_nothing [simp]: "answered s [] s' \<longleftrightarrow> s' = s"
  by (simp add: answered_def)

lemma RemoveBot_answered: "fst (RemoveBot i s) \<Longrightarrow> answered s (RemoveBot_log i s) s'"
  "\<not> fst (RemoveBot i s) \<Longrightarrow> snd (RemoveBot i s) = s"
  by (simp_all add: RemoveBot_def RemoveBot_log_def Let_def split: option.splits prod.splits)

lemma RemoveAllBots_infos: "l \<in> set (RemoveAllBots_log s) \<Longrightarrow> \<exists>w. l = Info w"
proof (induction s rule: RemoveAllBots_log.induct)
  case (1 s)
  have "\<exists>w. l = Info w" if "l \<in> set (RemoveBot_log i s)" for i
    using that by (auto simp: RemoveBot_log_def split: option.splits prod.splits)
  then show ?case
    using 1 by (cases "bots s = []") (auto simp: RemoveAllBots_log.simps [of s])
qed

lemma RemoveBot_log_empty: "RemoveBot_log i s = [] \<longleftrightarrow> \<not> fst (RemoveBot i s)"
  by (simp add: RemoveBot_def RemoveBot_log_def Let_def split: option.split prod.split)

lemma RemoveAllBots_log_empty: "RemoveAllBots_log s = [] \<longleftrightarrow> bots s = []"
proof (cases "bots s = []")
  case False
  then have "List.extract (\<lambda>b. b_id b = b_id (last (bots s))) (bots s) \<noteq> None"
    unfolding extract_None_iff using last_in_set by blast
  then have "RemoveBot_log (b_id (last (bots s))) s \<noteq> []"
    by (auto simp: RemoveBot_log_def)
  then show ?thesis using False by (simp add: RemoveAllBots_log.simps [of s])
qed (simp add: RemoveAllBots_log.simps [of s])

lemma RemoveAllBots_answered: "answered s (RemoveAllBots_log s) (RemoveAllBots s)"
proof (cases "bots s = []")
  case False
  then show ?thesis using RemoveAllBots_infos RemoveAllBots_log_empty [of s] by (fastforce simp: answered_def)
qed (simp add: RemoveAllBots_log.simps [of s] RemoveAllBots.simps [of s])

lemma ExecuteBot_answered: "answered s (ExecuteBot_log ulong args s) (ExecuteBot ulong args s)"
  by (simp add: ExecuteBot_log_def ExecuteBot_def AddBot_log_def RemoveAllBots_answered RemoveBot_answered Let_def
      split: option.split)

lemma ExecuteKick_answered: "answered s (ExecuteKick_log E ulong line args s) (ExecuteKick ulong line args s)"
  using RemoveBot_answered [of _ s]
  by (simp add: ExecuteKick_log_def ExecuteKick_def Kick_log_def case_prod_beta Let_def split: option.split)

lemma list_infos: "Warn w \<notin> set (list_lines E s)"
  by (auto simp: list_lines_def player_line_def bot_line_def Let_def split: if_splits)

lemma lines_named:
  "p_handshaked p \<Longrightarrow> \<exists>rest. player_line E (k, p) = Info (''  #'' @ to_string (unat (p_id p)) @ '' '' @ p_name p @ rest)"
  "\<exists>rest. bot_line b = Info (''  #'' @ to_string (unat (b_id b)) @ '' '' @ b_name b @ rest)"
  by (simp_all add: player_line_def bot_line_def Let_def)

lemma list_names:
  assumes "participant s i n"
  shows "\<exists>rest. Info (''  #'' @ to_string (unat i) @ '' '' @ n @ rest) \<in> set (list_lines E s)"
proof -
  have m: "player_line E ` set (players s) \<union> bot_line ` set (bots s) \<subseteq> set (list_lines E s)"
    by (auto simp: list_lines_def)
  consider k p where "(k, p) \<in> set (players s)" "p_handshaked p" "p_id p = i" "p_name p = n"
    | b where "b \<in> set (bots s)" "b_id b = i" "b_name b = n"
    using assms by (auto simp: participant_def dest: map_of_SomeD)
  then show ?thesis
  proof cases
    case (1 k p)
    then have "player_line E (k, p) \<in> set (list_lines E s)" using m by blast
    then show ?thesis using lines_named(1) [OF 1(2), of E k] 1(3,4) by auto
  next
    case (2 b)
    then have "bot_line b \<in> set (list_lines E s)" using m by blast
    then show ?thesis using lines_named(2) [of b] 2(2,3) by auto
  qed
qed

text \<open>The three lines the console does not answer.\<close>

definition unanswered :: "string \<Rightarrow> Server \<Rightarrow> bool" where
  "unanswered line s =
     (Split line = [] \<or> hd (Split line) = ''say'' \<and> CHR '' '' \<notin> set line \<or>
      take 3 (Split line) = [''bot'', ''remove'', ''all''] \<and> bots s = [])"

lemma three_words: "take 3 args = [a, b, c] \<longleftrightarrow> 2 < length args \<and> hd args = a \<and> args ! 1 = b \<and> args ! 2 = c"
  by (cases args; cases "tl args"; cases "tl (tl args)") auto

lemma ExecuteBot_log_empty:
  "args \<noteq> [] \<Longrightarrow> hd args = ''bot'' \<Longrightarrow>
    ExecuteBot_log ulong args s = [] \<longleftrightarrow> take 3 args = [''bot'', ''remove'', ''all''] \<and> bots s = []"
  by (auto simp: ExecuteBot_log_def AddBot_log_def RemoveAllBots_log_empty RemoveBot_log_empty three_words Let_def
      split: option.splits if_splits)

lemma ExecuteKick_log_answers: "ExecuteKick_log E ulong line args s \<noteq> []"
  by (auto simp: ExecuteKick_log_def Kick_log_def RemoveBot_log_empty case_prod_beta Let_def split: option.split)

lemma unanswered_iff: "ExecuteCommand_log E ulong line s = [] \<longleftrightarrow> unanswered line s"
proof (cases "Split line = []")
  case False
  have t: "hd (Split line) = ''bot''" if "take 3 (Split line) = [''bot'', ''remove'', ''all'']"
    using that False by (cases "Split line") auto
  show ?thesis
    using False t ExecuteBot_log_empty [OF False, of ulong s]
    by (auto simp: ExecuteCommand_log_def unanswered_def Let_def list_lines_def ExecuteKick_log_answers split: if_splits)
qed (simp add: ExecuteCommand_log_def unanswered_def)

text \<open>C38. Every command of the server's console is answered, with exactly three exceptions, which do nothing: a blank line,
  \<open>say\<close> without a blank in the line, and \<open>bot remove all\<close> without bots. For any other line something is logged, and what
  is refused is refused with exactly one warning and changes nothing. \<open>list\<close> changes nothing and shows every
  participant, player or bot, with its id and name.\<close>

theorem commands_answered:
  assumes "s' = ExecuteCommand ulong line s" and "lines = ExecuteCommand_log E ulong line s"
  shows "(lines = [] \<longleftrightarrow> Split line = [] \<or> hd (Split line) = ''say'' \<and> CHR '' '' \<notin> set line \<or>
        take 3 (Split line) = [''bot'', ''remove'', ''all''] \<and> bots s = []) \<and>
    (\<forall>w. Warn w \<in> set lines \<longrightarrow> lines = [Warn w] \<and> s' = s) \<and> (lines = [] \<longrightarrow> s' = s) \<and>
    (Split line = [''list''] \<longrightarrow> s' = s \<and>
       (\<forall>i n. participant s i n \<longrightarrow> (\<exists>rest. Info (''  #'' @ to_string (unat i) @ '' '' @ n @ rest) \<in> set lines)))"
proof -
  have "answered s lines s'"
    unfolding assms ExecuteCommand_log_def ExecuteCommand_def Let_def
    by (simp add: ExecuteBot_answered ExecuteKick_answered help_line_def)
      (simp add: answered_def list_infos)
  moreover have "s' = s \<and> lines = list_lines E s" if "Split line = [''list'']"
    using that by (simp add: assms ExecuteCommand_log_def ExecuteCommand_def)
  ultimately show ?thesis
    using list_names unanswered_iff [of E ulong line s] by (simp add: answered_def assms(2) unanswered_def)
qed

definition demo_peers :: EnetPeers where
  "demo_peers = \<lparr>pe_host_ip = (\<lambda>_. Some ''127.0.0.1''), pe_port = (\<lambda>_. 50000), pe_roundTripTime = (\<lambda>_. 20)\<rparr>"

lemma demo_kick: "ExecuteCommand_log demo_peers 64 ''kick 9'' demo = [Warn ''No player with id 9'']"
  by code_simp

theorem commands_answered_witness:
  "ExecuteCommand 64 ''kick 9'' demo = demo \<and>
   (\<exists>rest. Info (''  #'' @ to_string (unat (2 :: PlayerId)) @ '' '' @ ''Dogmeat'' @ rest) \<in>
      set (ExecuteCommand_log demo_peers 64 ''list'' demo))"
proof -
  have "ExecuteCommand 64 ''kick 9'' demo = demo"
    using commands_answered [OF refl refl, where ulong = 64 and line = "''kick 9''" and s = demo and E = demo_peers] by (simp add: demo_kick)
  moreover have "Split ''list'' = [''list'']" by code_simp
  ultimately show ?thesis
    using commands_answered [OF refl refl, where ulong = 64 and line = "''list''" and s = demo and E = demo_peers] demo_Dogmeat by blast
qed

end
