(* ===== verification/Spec2Isabelle.thy ===== *)
theory Spec2Isabelle
  imports F4_Snapshots F4_SkipFacts F4_Flood F4_ClientConfigFacts F4_SendFacts F4_Travel F4_CommandFacts F4_ServerLog
begin

text \<open>
  F4MP lets several people play Fallout 4 together. A dedicated server (\<open>src/server\<close>) relays
  what the clients send; a client (\<open>src/client\<close>) is a plugin inside the game, which samples the
  local player, sends its state, and shows every other participant as an actor it moves;
  both share the wire format and some helpers (\<open>src/shared\<close>). This library is a shallow
  embedding of that code: one theory per component, with the operations under the code's
  names, then theories of lemmas and properties.

  \<^bold>\<open>The model.\<close> Machine integers are words of their width, \<open>std::string\<close> is a list of 8-bit
  characters, \<open>float\<close> and \<open>double\<close> are bit patterns with IEEE arithmetic. A class is a record,
  a method a function of the state that returns it updated, an error a boolean or an option
  as in the code. The clock of the code is a function from the number of the reading to the
  time, so nothing is assumed about it unless a theorem says so. A container the code
  iterates over is an association list with distinct keys.

  \<^item> \<open>F4_Prelude\<close>: machine types, characters, decimal printing, little-endian images, and two
    interfaces as locales: a keyed container, and a machine with an invariant.
  \<^item> \<open>F4_Float\<close>, \<open>F4_FloatFacts\<close>: binary32 and binary64 with rounding to nearest even; rounding
    is monotone and exact on representable values, NaN is propagated.
  \<^item> \<open>F4_Types\<close>, \<open>F4_Packet\<close>, \<open>F4_Protocol\<close>, \<open>F4_ProtocolFacts\<close>: \<open>f4mp/Types.hpp\<close>, \<open>Packet.hpp\<close> and
    \<open>Protocol.hpp\<close>. A message is an instance of the locale \<open>message\<close>: writing and reading are
    inverse, every truncation is refused, no read leaves the buffer.
  \<^item> \<open>F4_Names\<close>, \<open>F4_Parse\<close>, \<open>F4_Ini\<close>: \<open>SanitizeName\<close>, the number parsers of the standard library
    the code calls, and \<open>Ini.hpp\<close>; the file is the text the stream delivers.
  \<^item> \<open>F4_Interp\<close>, \<open>F4_Snapshots\<close>: \<open>Interp.hpp\<close>, the unwrapping of 32-bit time stamps and the
    sampling of snapshots; what a client keeps of the states it is sent.
  \<^item> \<open>F4_ServerConfig\<close>, \<open>F4_Server\<close>, \<open>F4_Bots\<close>, \<open>F4_ServerConsole\<close>, \<open>F4_ServerLoop\<close>: \<open>Config.cpp\<close>,
    \<open>Server.cpp\<close>, \<open>Console.cpp\<close> and \<open>main.cpp\<close> of the server. Calls into ENet are effects appended
    to \<open>out\<close>; the events ENet returns are inputs; \<open>cosf\<close> and \<open>sinf\<close> are parameters. \<open>F4_ServerLog\<close> is
    what the commands of the console write to the log.
  \<^item> \<open>F4_ServerFacts\<close>, \<open>F4_Roster\<close>, \<open>F4_ServerSpec\<close>, \<open>F4_Chat\<close>, \<open>F4_Flood\<close>, \<open>F4_CommandFacts\<close>: what the
    server does. \<open>F4_Roster\<close> states the specification of a session, the roster a client can
    derive from its reliable messages, and that every handler keeps every client's roster in
    step with the server's tables; the others hold the properties.
  \<^item> \<open>F4_Engine\<close>, \<open>F4_Format\<close>, \<open>F4_GameUtil\<close>: what the client stands on. The game engine and ENet are a
    parameter, the record \<open>World\<close>, whose answers depend on the calls made so far; the calls that
    change something are recorded in order. \<open>GameUtil.cpp\<close> and \<open>LocalPlayer.cpp\<close> are written
    over them, and \<open>F4_Format\<close> is what \<open>std::format\<close> makes of numbers. \<open>F4_DemoWorld\<close> is one world, for the examples.
  \<^item> \<open>F4_NetClient\<close>, \<open>F4_RemotePlayers\<close>, \<open>F4_ClientConfig\<close>, \<open>F4_PrologueSkip\<close>, \<open>F4_Session\<close>,
    \<open>F4_Debug\<close>, \<open>F4_ConsoleCommands\<close>: the files of the same names under \<open>src/client/src\<close> (\<open>F4_Debug\<close> is
    \<open>PrintDebug\<close> and \<open>PrintGraph\<close> of \<open>Session.cpp\<close>), and \<open>Main.cpp\<close> as the inputs of the client. Each record extends that of the part it stands on, so the callbacks
    a part is given act on the whole session, as they do in the code.
  \<^item> \<open>F4_ClientFacts\<close>, \<open>F4_ClientRoster\<close>, \<open>F4_ClientInv\<close>, \<open>F4_ClientSpec\<close>, \<open>F4_BeforeWelcome\<close>,
    \<open>F4_ClientKeeps\<close>, \<open>F4_SendFacts\<close>, \<open>F4_SkipFacts\<close>, \<open>F4_ClientConfigFacts\<close>, \<open>F4_ClientLive\<close>: what the
    client does. The relation \<open>calls_only\<close> frames the many helpers that only call the engine;
    \<open>F4_ClientInv\<close> shows the invariant kept by every input, \<open>F4_ClientRoster\<close> that packets change
    what the client shows as the roster specification says, and \<open>F4_ClientSpec\<close> relates it to the
    server. \<open>F4_ClientKeeps\<close> shows what each operation leaves alone and that all a session knows
    of a server goes with the connection, and \<open>F4_SendFacts\<close> how often states are sent.
  \<^item> \<open>F4_ClientTalk\<close>, \<open>F4_Link\<close>, \<open>F4_ClientLink\<close>, \<open>F4_Network\<close>, \<open>F4_NetworkLive\<close>: the server and a client
    composed. \<open>net_step\<close> is the step relation of both with ENet between them: its reliable channel
    delivers in order and once, packets of the other channel may be lost, repeated or late,
    and connects, refusals, losses, other peers, commands and frames of the game come in any
    order. The server's steps are the events of its service call one by one and the update of
    the bots, the client's are its inputs. \<open>F4_Link\<close> shows what the server has told a peer since
    its connection, \<open>F4_ClientLink\<close> that while a connection stands what the client shows changes
    by the packets it receives only, \<open>F4_ClientTalk\<close> which packets it sends, \<open>F4_Network\<close> the
    invariant of the composition and \<open>F4_NetworkLive\<close> what follows from it. \<open>F4_Travel\<close> follows a
    line of chat and a state from one client through the server to the others.

  \<^bold>\<open>What the theorems show.\<close> Of the shared code: round trips and refusal of truncated input,
  the unwrapped time tracks the server's, samples are blends of adjacent snapshots, hold still
  after 150 ms, and a NaN render time makes the sampled pose NaN. Of the server: after
  any run its reliable messages give every client the right roster, the tables keep their
  invariant, unauthenticated peers are refused, states and chat go where they should, floods
  are held back to eleven lines in five seconds, and every console command is answered but
  for a blank line, \<open>say\<close> without a text and \<open>bot remove all\<close> without bots, which do nothing.
  Of the client: the invariant over any run and what is forgotten with a connection,
  agreement with the server, silence before the welcome, retrying where the configuration
  asks for it, states no oftener than the rate allows between two welcomes and at least one
  a second in the game, the local player's actor is never driven, the skip of the prologue runs its commands and ends.
  Of both: in every reachable state of the network a client with nothing under way to it
  agrees with the server, a handshake is never refused, a connection can always be completed
  in four steps of the network, each side is sent only what it can read, and what a player says or does reaches the others
  as it was said or done.

  \<^bold>\<open>Bounds.\<close> No fuel is used: every loop is structural or has a proved measure. The id counter
  of the server wraps after 2^32 ids; the theorems over runs assume that fewer are used, and
  a step of the server in the network that an id is left. Time
  stamps must be less than 2^31 ms apart, which is 24 days.

  \<^bold>\<open>Not modelled.\<close> Logging, on both sides, except for the answers of the server's console,
  and the version record of the plugin; the reader thread of the server's
  console beyond the order of lines; the re-entrant case of a prologue command that is itself
  an \<open>f4mp\<close> command. ENet never fails to create or queue a packet: what is handed to
  \<open>enet_peer_send\<close> is an effect, also behind a later disconnect of the peer, which ENet would
  not send any more; and times are unbounded integers, where the code has 64 bits of nanoseconds. A network has one client under study; the others are the events of their
  peers, which are arbitrary. The tests are not part of the program.
\<close>

end
